(* ===== verification/Dfu_Prelude.thy ===== *)
theory Dfu_Prelude
  imports Main "HOL-Library.Word"
begin

unbundle bit_operations_syntax

text \<open>
  What the components of qm-dfu-util share: the names of the machine types, the results of
  a C function that can end the program, byte buffers with bounds, and the little-endian
  encoding of 16 and 32 bit fields, each with the lemmas the component proofs use.
\<close>

section \<open>Machine types\<close>

type_synonym u8 = "8 word"
type_synonym u16 = "16 word"
type_synonym u32 = "32 word"
type_synonym u64 = "64 word"

text \<open>Facts about memory blocks and buffers; component proofs say \<open>simp add: mem\<close>.\<close>

named_theorems mem

section \<open>Results of a C function\<close>

text \<open>
  A function of the program returns a value, ends the process with an exit status
  (\<open>errx\<close>, \<open>err\<close> and \<open>exit\<close>), or accesses memory outside an object, which C leaves
  undefined. A computation over a state \<open>'s\<close> is \<open>None\<close> when it does not return.
\<close>

datatype 'a res = Ret 'a | Exit int | Undef

type_synonym ('s, 'a) prog = "'s \<Rightarrow> ('a res \<times> 's) option"

definition retp :: "'a \<Rightarrow> ('s, 'a) prog" where
  "retp a s = Some (Ret a, s)"

definition exitp :: "int \<Rightarrow> ('s, 'a) prog" where
  "exitp c s = Some (Exit c, s)"

definition undefp :: "('s, 'a) prog" where
  "undefp s = Some (Undef, s)"

definition bindp :: "('s, 'a) prog \<Rightarrow> ('a \<Rightarrow> ('s, 'b) prog) \<Rightarrow> ('s, 'b) prog" where
  "bindp m f s = (case m s of
      None \<Rightarrow> None
    | Some (r, t) \<Rightarrow> (case r of Ret a \<Rightarrow> f a t | Exit c \<Rightarrow> Some (Exit c, t) | Undef \<Rightarrow> Some (Undef, t)))"

text \<open>\<open>modifyp\<close> changes the state, \<open>liftp\<close> runs a computation that cannot end the program.\<close>

definition modifyp :: "('s \<Rightarrow> 's) \<Rightarrow> ('s, unit) prog" where
  "modifyp f s = Some (Ret (), f s)"

definition getp :: "('s \<Rightarrow> 'a) \<Rightarrow> ('s, 'a) prog" where
  "getp f s = Some (Ret (f s), s)"

definition liftp :: "('s \<Rightarrow> ('a \<times> 's) option) \<Rightarrow> ('s, 'a) prog" where
  "liftp m s = (case m s of None \<Rightarrow> None | Some (a, t) \<Rightarrow> Some (Ret a, t))"

lemma bindp_ret [simp]: "m s = Some (Ret a, t) \<Longrightarrow> bindp m f s = f a t"
  by (simp add: bindp_def)

lemma bindp_retp [simp]: "bindp (retp a) f s = f a s"
  by (simp add: bindp_def retp_def)

lemma bindp_modifyp [simp]: "bindp (modifyp g) f s = f () (g s)"
  by (simp add: bindp_def modifyp_def)

lemma bindp_getp [simp]: "bindp (getp g) f s = f (g s) s"
  by (simp add: bindp_def getp_def)

lemma bindp_eq_Some:
  "bindp m f s = Some (r, u) \<longleftrightarrow>
     (\<exists>a t. m s = Some (Ret a, t) \<and> f a t = Some (r, u)) \<or>
     (\<exists>c. m s = Some (Exit c, u) \<and> r = Exit c) \<or> (m s = Some (Undef, u) \<and> r = Undef)"
  by (auto simp: bindp_def split: option.splits res.splits)

lemma bindp_RetE:
  assumes "bindp m f s = Some (Ret b, u)"
  obtains a t where "m s = Some (Ret a, t)" and "f a t = Some (Ret b, u)"
  using assms by (auto simp: bindp_eq_Some)

lemma retp_eq_Some [simp]: "retp a s = Some (r, t) \<longleftrightarrow> r = Ret a \<and> t = s"
  by (auto simp: retp_def)

lemma exitp_eq_Some [simp]: "exitp c s = Some (r, t) \<longleftrightarrow> r = Exit c \<and> t = s"
  by (auto simp: exitp_def)

lemma undefp_eq_Some [simp]: "undefp s = Some (r, t) \<longleftrightarrow> r = Undef \<and> t = s"
  by (auto simp: undefp_def)

lemma modifyp_eq_Some [simp]: "modifyp f s = Some (r, t) \<longleftrightarrow> r = Ret () \<and> t = f s"
  by (auto simp: modifyp_def)

lemma liftp_eq_Some [simp]:
  "liftp m s = Some (r, t) \<longleftrightarrow> (\<exists>a. m s = Some (a, t) \<and> r = Ret a)"
  by (auto simp: liftp_def split: option.splits)

text \<open>What loops over programs, defined by \<open>partial_function\<close>, need to be well defined.\<close>

lemma bindp_mono [partial_function_mono]:
  "(\<And>y t. mono_option (\<lambda>f. C y f t)) \<Longrightarrow> mono_option (\<lambda>f. bindp m (\<lambda>y. C y f) s)"
  by (auto simp: monotone_def bindp_def fun_ord_def flat_ord_def split: option.split res.split)

lemma if_mono [partial_function_mono]:
  "mono_option (\<lambda>f. M f t) \<Longrightarrow> mono_option (\<lambda>f. N f t) \<Longrightarrow>
   mono_option (\<lambda>f. (if b then M f else N f) t)"
  by (auto simp: monotone_def)

lemma prod_mono [partial_function_mono]:
  "(\<And>x y. mono_option (\<lambda>f. M x y f t)) \<Longrightarrow> mono_option (\<lambda>f. (case p of (x, y) \<Rightarrow> M x y f) t)"
  by (simp add: case_prod_beta)

text \<open>
  An invariant kept by every computation that returns or ends the program: the shape in
  which the components state that their operations keep the state well formed.
\<close>

definition keeps :: "('s \<Rightarrow> bool) \<Rightarrow> ('s, 'a) prog \<Rightarrow> bool" where
  "keeps I m \<longleftrightarrow> (\<forall>s r t. I s \<longrightarrow> m s = Some (r, t) \<longrightarrow> I t)"

lemma keepsI [intro?]: "(\<And>s r t. I s \<Longrightarrow> m s = Some (r, t) \<Longrightarrow> I t) \<Longrightarrow> keeps I m"
  by (auto simp: keeps_def)

lemma keepsD: "keeps I m \<Longrightarrow> I s \<Longrightarrow> m s = Some (r, t) \<Longrightarrow> I t"
  by (auto simp: keeps_def)

lemma keeps_retp [intro!, simp]: "keeps I (retp a)"
  by (auto simp: keeps_def)

lemma keeps_exitp [intro!, simp]: "keeps I (exitp c)"
  by (auto simp: keeps_def)

lemma keeps_undefp [intro!, simp]: "keeps I undefp"
  by (auto simp: keeps_def)

lemma keeps_getp [intro!, simp]: "keeps I (getp f)"
  by (auto simp: keeps_def getp_def)

lemma keeps_modifyp: "(\<And>s. I s \<Longrightarrow> I (f s)) \<Longrightarrow> keeps I (modifyp f)"
  by (auto simp: keeps_def)

lemma keeps_bindp [intro]: "keeps I m \<Longrightarrow> (\<And>a. keeps I (f a)) \<Longrightarrow> keeps I (bindp m f)"
  by (rule keepsI) (auto simp: bindp_eq_Some dest: keepsD)

lemma keeps_if [intro]: "keeps I m \<Longrightarrow> keeps I n \<Longrightarrow> keeps I (if b then m else n)"
  by simp

section \<open>Triples\<close>

text \<open>
  \<open>valid P m Q E\<close>: started where \<open>P\<close> holds, \<open>m\<close> never touches memory it must not; where it
  returns \<open>Q\<close> holds of the value and the state, where it ends the program \<open>E\<close> holds of the
  exit status and the state. Nothing is said of a computation that does not return.
\<close>

definition valid ::
  "('s \<Rightarrow> bool) \<Rightarrow> ('s, 'a) prog \<Rightarrow> ('a \<Rightarrow> 's \<Rightarrow> bool) \<Rightarrow> (int \<Rightarrow> 's \<Rightarrow> bool) \<Rightarrow> bool" where
  "valid P m Q E \<longleftrightarrow> (\<forall>s. P s \<longrightarrow> (case m s of None \<Rightarrow> True
     | Some (Ret a, t) \<Rightarrow> Q a t | Some (Exit c, t) \<Rightarrow> E c t | Some (Undef, t) \<Rightarrow> False))"

named_theorems vcg

lemma validI:
  assumes "\<And>s a t. P s \<Longrightarrow> m s = Some (Ret a, t) \<Longrightarrow> Q a t"
    and "\<And>s c t. P s \<Longrightarrow> m s = Some (Exit c, t) \<Longrightarrow> E c t"
    and "\<And>s t. P s \<Longrightarrow> m s \<noteq> Some (Undef, t)"
  shows "valid P m Q E"
  using assms by (auto simp: valid_def split: option.splits res.splits)

lemma validD: "valid P m Q E \<Longrightarrow> P s \<Longrightarrow> m s = Some (Ret a, t) \<Longrightarrow> Q a t"
  by (fastforce simp: valid_def)

lemma valid_exitD: "valid P m Q E \<Longrightarrow> P s \<Longrightarrow> m s = Some (Exit c, t) \<Longrightarrow> E c t"
  by (fastforce simp: valid_def)

lemma valid_undefD: "valid P m Q E \<Longrightarrow> P s \<Longrightarrow> m s \<noteq> Some (Undef, t)"
  by (fastforce simp: valid_def)

lemma valid_weaken:
  assumes "valid P' m Q' E'" and "\<And>s. P s \<Longrightarrow> P' s" and "\<And>a s. Q' a s \<Longrightarrow> Q a s"
    and "\<And>c s. E' c s \<Longrightarrow> E c s"
  shows "valid P m Q E"
  using assms by (fastforce simp: valid_def split: option.splits res.splits)

lemma valid_retp [vcg]: "(\<And>s. P s \<Longrightarrow> Q a s) \<Longrightarrow> valid P (retp a) Q E"
  by (auto simp: valid_def retp_def)

lemma valid_exitp [vcg]: "(\<And>s. P s \<Longrightarrow> E c s) \<Longrightarrow> valid P (exitp c) Q E"
  by (auto simp: valid_def exitp_def)

lemma valid_modifyp [vcg]: "(\<And>s. P s \<Longrightarrow> Q () (f s)) \<Longrightarrow> valid P (modifyp f) Q E"
  by (auto simp: valid_def modifyp_def)

lemma valid_getp [vcg]: "(\<And>s. P s \<Longrightarrow> Q (f s) s) \<Longrightarrow> valid P (getp f) Q E"
  by (auto simp: valid_def getp_def)

lemma valid_bindp:
  assumes "valid P m R E" and "\<And>a. valid (R a) (f a) Q E"
  shows "valid P (bindp m f) Q E"
  using assms by (fastforce simp: valid_def bindp_def split: option.splits res.splits)

lemma valid_if [vcg]:
  "(b \<Longrightarrow> valid P m Q E) \<Longrightarrow> (\<not> b \<Longrightarrow> valid P n Q E) \<Longrightarrow> valid P (if b then m else n) Q E"
  by simp

section \<open>Exclusive or\<close>

lemma xor_cancel_right: "a XOR b = c XOR b \<longleftrightarrow> a = (c :: 'a::len word)"
proof
  assume "a XOR b = c XOR b"
  then have "(a XOR b) XOR b = (c XOR b) XOR b" by simp
  then show "a = c" by (simp add: xor.assoc)
qed simp

lemma xor_cancel_left: "b XOR a = b XOR c \<longleftrightarrow> a = (c :: 'a::len word)"
  by (simp add: xor.commute [of b] xor_cancel_right)

section \<open>Bytes of a word\<close>

lemma and_ff:
  "(w :: u16) AND 0xFF = take_bit 8 w" "(v :: u32) AND 0xFF = take_bit 8 v"
  by (simp_all add: take_bit_eq_mask mask_eq_exp_minus_1)

lemma ucast_byte [simp]:
  "ucast (take_bit 8 (w :: u16)) = (ucast w :: u8)"
  "ucast (take_bit 8 (v :: u32)) = (ucast v :: u8)"
  by (auto intro!: bit_word_eqI simp: bit_simps)

lemma take_drop_byte [simp]:
  "take_bit 8 (drop_bit 8 (w :: u16)) = drop_bit 8 w"
  "take_bit 8 (drop_bit 24 (v :: u32)) = drop_bit 24 v"
  by (simp_all add: take_bit_drop_bit take_bit_word_eq_self)

section \<open>Byte buffers\<close>

text \<open>
  \<open>mem_write buf off bs\<close> is \<open>memcpy(buf + off, bs, length bs)\<close>, \<open>mem_read buf off n\<close> the
  \<open>n\<close> bytes at \<open>off\<close>. Both mean the C operation only where \<open>off + n \<le> length buf\<close>; the
  definitions that use them say what happens outside.
\<close>

definition mem_write :: "u8 list \<Rightarrow> nat \<Rightarrow> u8 list \<Rightarrow> u8 list" where
  "mem_write buf off bs = take off buf @ bs @ drop (off + length bs) buf"

definition mem_read :: "u8 list \<Rightarrow> nat \<Rightarrow> nat \<Rightarrow> u8 list" where
  "mem_read buf off n = take n (drop off buf)"

lemma length_mem_write [mem, simp]:
  "off + length bs \<le> length buf \<Longrightarrow> length (mem_write buf off bs) = length buf"
  by (simp add: mem_write_def)

lemma length_mem_read [mem]: "off + n \<le> length buf \<Longrightarrow> length (mem_read buf off n) = n"
  by (simp add: mem_read_def)

lemma mem_read_write_same [mem]:
  "off \<le> length buf \<Longrightarrow> mem_read (mem_write buf off bs) off (length bs) = bs"
  by (simp add: mem_read_def mem_write_def)

lemma take_mem_write_below [mem]:
  "n \<le> off \<Longrightarrow> off \<le> length buf \<Longrightarrow> take n (mem_write buf off bs) = take n buf"
  by (simp add: mem_write_def min_absorb1)

lemma take_mem_write_end [mem]:
  "off \<le> length buf \<Longrightarrow> take (off + length bs) (mem_write buf off bs) = take off buf @ bs"
  by (simp add: mem_write_def)

lemma drop_mem_write_above [mem]:
  "off + length bs \<le> n \<Longrightarrow> off \<le> length buf \<Longrightarrow> drop n (mem_write buf off bs) = drop n buf"
  by (simp add: mem_write_def)

lemma nth_mem_write:
  assumes "off + length bs \<le> length buf" and "i < length buf"
  shows "mem_write buf off bs ! i =
    (if off \<le> i \<and> i < off + length bs then bs ! (i - off) else buf ! i)"
  using assms by (auto simp: mem_write_def nth_append min_absorb2)

section \<open>Little-endian fields\<close>

definition le16 :: "u16 \<Rightarrow> u8 list" where
  "le16 w = [ucast w, ucast (drop_bit 8 w)]"

definition le32 :: "u32 \<Rightarrow> u8 list" where
  "le32 w = [ucast w, ucast (drop_bit 8 w), ucast (drop_bit 16 w), ucast (drop_bit 24 w)]"

definition get16 :: "u8 list \<Rightarrow> nat \<Rightarrow> u16" where
  "get16 bs off = ucast (bs ! off) OR push_bit 8 (ucast (bs ! (off + 1)))"

definition get32 :: "u8 list \<Rightarrow> nat \<Rightarrow> u32" where
  "get32 bs off = ucast (bs ! off) OR push_bit 8 (ucast (bs ! (off + 1))) OR
     push_bit 16 (ucast (bs ! (off + 2))) OR push_bit 24 (ucast (bs ! (off + 3)))"

lemma length_le16 [simp]: "length (le16 w) = 2"
  by (simp add: le16_def)

lemma length_le32 [simp]: "length (le32 w) = 4"
  by (simp add: le32_def)

lemma word16_split:
  "ucast (ucast w :: u8) OR push_bit 8 (ucast (ucast (drop_bit 8 w) :: u8)) = (w :: u16)"
  by (rule bit_word_eqI) (auto simp: bit_simps)

lemma word32_split:
  "ucast (ucast w :: u8) OR push_bit 8 (ucast (ucast (drop_bit 8 w) :: u8)) OR
   push_bit 16 (ucast (ucast (drop_bit 16 w) :: u8)) OR
   push_bit 24 (ucast (ucast (drop_bit 24 w) :: u8)) = (w :: u32)"
proof (rule bit_word_eqI)
  fix n :: nat
  assume "n < LENGTH(32)"
  moreover have "24 + (n - 24) = n" if "24 \<le> n"
    using that by simp
  ultimately show "bit (ucast (ucast w :: u8) OR push_bit 8 (ucast (ucast (drop_bit 8 w) :: u8)) OR
    push_bit 16 (ucast (ucast (drop_bit 16 w) :: u8)) OR
    push_bit 24 (ucast (ucast (drop_bit 24 w) :: u8)) :: u32) n = bit w n"
    by (cases "n < 8"; cases "n < 16"; cases "n < 24") (auto simp: bit_simps)
qed

lemma get16_le16 [simp]:
  "take 2 (drop off bs) = le16 w \<Longrightarrow> get16 bs off = w"
proof -
  assume a: "take 2 (drop off bs) = le16 w"
  then have l: "off + 2 \<le> length bs" by (auto dest: arg_cong [where f = length])
  have "bs ! off = le16 w ! 0" and "bs ! (off + 1) = le16 w ! 1"
    using l by (simp_all add: a [symmetric])
  then show ?thesis by (simp add: get16_def le16_def word16_split)
qed

lemma get32_le32 [simp]:
  "take 4 (drop off bs) = le32 w \<Longrightarrow> get32 bs off = w"
proof -
  assume a: "take 4 (drop off bs) = le32 w"
  then have l: "off + 4 \<le> length bs" by (auto dest: arg_cong [where f = length])
  have "bs ! off = le32 w ! 0" and "bs ! (off + 1) = le32 w ! 1"
    and "bs ! (off + 2) = le32 w ! 2" and "bs ! (off + 3) = le32 w ! 3"
    using l by (simp_all add: a [symmetric])
  then show ?thesis by (simp add: get32_def le32_def word32_split)
qed

lemma le32_inj: "le32 v = le32 w \<longleftrightarrow> v = w"
  by (metis get32_le32 drop_0 take_all length_le32 order_refl)

end
