(* ===== verification/Xmodem_Port.thy ===== *)
theory Xmodem_Port
  imports Dfu_Prelude
begin

text \<open>
  The I/O layer XMODEM is written against: the three functions src/qda/xmodem.c declares
  \<open>extern\<close>. They are a record of functions over a state \<open>'s\<close>, so that XMODEM is modelled
  once and run over the serial port of serial_io.c, over a traced port and over a script.
  \<open>x_getc p ch s\<close> takes the old content of the variable that \<open>ch\<close> points to and gives the
  return code, the new content and the new state.
\<close>

record 's xport =
  x_getc :: "u8 \<Rightarrow> 's \<Rightarrow> (int \<times> u8) \<times> 's"
  x_putc :: "u8 \<Rightarrow> 's \<Rightarrow> 's"
  x_set_timeout :: "int \<Rightarrow> 's \<Rightarrow> int \<times> 's"

text \<open>
  What the comment over \<open>xmodem_getc\<close> promises: 0 on success and a negative code
  otherwise, and in case of error the pointed variable is unchanged. The retry loops of the
  sender rely on the second law: they preset the response to \<open>ERR\<close> and ignore the code.
\<close>

locale xport_laws =
  fixes p :: "'s xport"
  assumes getc_code: "x_getc p ch s = ((r, ch'), t) \<Longrightarrow> r \<le> 0"
    and getc_keep: "x_getc p ch s = ((r, ch'), t) \<Longrightarrow> r < 0 \<Longrightarrow> ch' = ch"
begin

lemma getc_changed:
  "x_getc p ch s = ((r, ch'), t) \<Longrightarrow> ch' \<noteq> ch \<Longrightarrow> r = 0"
  using getc_code getc_keep by fastforce

end

section \<open>Traces\<close>

text \<open>
  The same port with a log of what crosses it: a byte read, a read that failed, a byte
  written, a timeout set. Statements about all the bytes a function exchanges are statements
  about its log.
\<close>

datatype xev = Got u8 | NoByte | Put u8 | Timeout int

definition traced :: "'s xport \<Rightarrow> ('s \<times> xev list) xport" where
  "traced p = \<lparr>
     x_getc = (\<lambda>ch (s, l). case x_getc p ch s of
        ((r, ch'), t) \<Rightarrow> ((r, ch'), (t, l @ [if r < 0 then NoByte else Got ch']))),
     x_putc = (\<lambda>b (s, l). (x_putc p b s, l @ [Put b])),
     x_set_timeout = (\<lambda>ms (s, l). case x_set_timeout p ms s of (r, t) \<Rightarrow> (r, (t, l @ [Timeout ms])))\<rparr>"

fun puts :: "xev list \<Rightarrow> u8 list" where
  "puts [] = []"
| "puts (Put b # l) = b # puts l"
| "puts (_ # l) = puts l"

fun gots :: "xev list \<Rightarrow> u8 list" where
  "gots [] = []"
| "gots (Got b # l) = b # gots l"
| "gots (_ # l) = gots l"

lemma puts_append [simp]: "puts (l @ m) = puts l @ puts m"
  by (induction l rule: puts.induct) auto

lemma gots_append [simp]: "gots (l @ m) = gots l @ gots m"
  by (induction l rule: gots.induct) auto

lemma traced_getc:
  "x_getc (traced p) ch (s, l) = ((r, ch'), u) \<longleftrightarrow>
     (\<exists>t. x_getc p ch s = ((r, ch'), t) \<and> u = (t, l @ [if r < 0 then NoByte else Got ch']))"
  by (auto simp: traced_def split: prod.splits)

lemma traced_putc [simp]: "x_putc (traced p) b (s, l) = (x_putc p b s, l @ [Put b])"
  by (simp add: traced_def)

lemma traced_set_timeout:
  "x_set_timeout (traced p) ms (s, l) =
     (fst (x_set_timeout p ms s), (snd (x_set_timeout p ms s), l @ [Timeout ms]))"
  by (simp add: traced_def split: prod.splits)

section \<open>Simulation of one port by another\<close>

text \<open>
  Two ports whose operations return the same values from related states. Every function of
  xmodem.c then returns the same values on them; the lemmas are proved with the functions.
  Only the two timeouts xmodem.c uses need be respected: two systems may round others
  differently.
\<close>

locale port_sim =
  fixes p :: "'s xport" and q :: "'t xport" and R :: "'s \<Rightarrow> 't \<Rightarrow> bool"
  assumes sim_getc: "R s t \<Longrightarrow> fst (x_getc p ch s) = fst (x_getc q ch t) \<and>
      R (snd (x_getc p ch s)) (snd (x_getc q ch t))"
    and sim_putc: "R s t \<Longrightarrow> R (x_putc p b s) (x_putc q b t)"
    and sim_set_timeout: "R s t \<Longrightarrow> ms \<in> {3000, 300} \<Longrightarrow> fst (x_set_timeout p ms s) = fst (x_set_timeout q ms t) \<and>
      R (snd (x_set_timeout p ms s)) (snd (x_set_timeout q ms t))"

text \<open>Logging does not change what a port does.\<close>

interpretation trace_sim: port_sim p "traced p" "\<lambda>s (t, l). s = t" for p
  by unfold_locales (auto simp: traced_def split: prod.splits)

end
