(* ===== verification/Crc16.thy ===== *)
theory Crc16
  imports Dfu_Prelude
begin

unbundle bit_operations_syntax

text \<open>
  The checksum of the XMODEM packets, \<open>crc_xmodem\<close> of src/qda/xmodem.c, at the width the
  code computes it (a 32 bit accumulator whose upper half is never cleared, truncated at
  the end), its equality with the usual 16 bit CRC register without appended zeros, and the
  error detection the packet format relies on.
\<close>

section \<open>The code\<close>

definition POLY :: u32 where
  "POLY = 0x1021"

text \<open>One turn of the inner loop: shift the accumulator, append the top bit of the byte.\<close>

definition crc_bit :: "u32 \<times> u8 \<Rightarrow> u32 \<times> u8" where
  "crc_bit = (\<lambda>(crc, data).
     let crc = push_bit 1 crc;
         crc = (if data AND 0x80 \<noteq> 0 then crc OR 1 else crc);
         crc = (if crc AND 0x10000 \<noteq> 0 then crc XOR POLY else crc)
     in (crc, push_bit 1 data))"

definition crc_byte :: "u32 \<Rightarrow> u8 \<Rightarrow> u32" where
  "crc_byte crc data = fst ((crc_bit ^^ 8) (crc, data))"

text \<open>One turn of the loop that appends the sixteen zero bits.\<close>

definition crc_append0 :: "u32 \<Rightarrow> u32" where
  "crc_append0 crc = (if crc AND 0x8000 \<noteq> 0 then push_bit 1 crc XOR POLY else push_bit 1 crc)"

text \<open>The argument is the \<open>data\<close> array of the packet buffer.\<close>

definition crc_xmodem :: "u8 list \<Rightarrow> u16" where
  "crc_xmodem data = ucast ((crc_append0 ^^ 16) (foldl crc_byte 0 data))"

section \<open>The 16 bit register\<close>

text \<open>
  The specification: CRC-16/XMODEM as a shift register that is 16 bits wide, starts at 0
  and takes the message most significant bit first.
\<close>

definition byte_bits :: "u8 \<Rightarrow> bool list" where
  "byte_bits b = map (bit b) [7, 6, 5, 4, 3, 2, 1, 0]"

definition msg_bits :: "u8 list \<Rightarrow> bool list" where
  "msg_bits bs = concat (map byte_bits bs)"

definition crc16_step :: "u16 \<Rightarrow> bool \<Rightarrow> u16" where
  "crc16_step r b = (if bit r 15 \<noteq> b then push_bit 1 r XOR 0x1021 else push_bit 1 r)"

definition crc16 :: "u8 list \<Rightarrow> u16" where
  "crc16 bs = foldl crc16_step 0 (msg_bits bs)"

text \<open>The register of the code: a zero bit, and a message bit appended at the bottom.\<close>

definition zero_step :: "u16 \<Rightarrow> u16" where
  "zero_step r = (if bit r 15 then push_bit 1 r XOR 0x1021 else push_bit 1 r)"

definition aug_step :: "u16 \<Rightarrow> bool \<Rightarrow> u16" where
  "aug_step r b = zero_step r XOR of_bool b"

lemma and_mask_bits:
  "(d :: u8) AND 0x80 \<noteq> 0 \<longleftrightarrow> bit d 7"
  "(c :: u32) AND 0x10000 \<noteq> 0 \<longleftrightarrow> bit c 16"
  "(c :: u32) AND 0x8000 \<noteq> 0 \<longleftrightarrow> bit c 15"
  using and_exp_eq_0_iff_not_bit [of d 7] and_exp_eq_0_iff_not_bit [of c 16]
    and_exp_eq_0_iff_not_bit [of c 15] by simp_all

declare push_bit_Suc [simp del]

lemma ucast_POLY: "ucast (0x1021 :: u32) = (0x1021 :: u16)"
  by simp

lemma ucast_push: "ucast (push_bit n (c :: u32)) = push_bit n (ucast c :: u16)"
  by (rule bit_word_eqI) (auto simp: bit_simps)

lemma ucast_xor16: "ucast (a XOR b :: u32) = (ucast a XOR ucast b :: u16)"
  by (rule bit_word_eqI) (auto simp: bit_simps)

lemma ucast_or16: "ucast (a OR b :: u32) = (ucast a OR ucast b :: u16)"
  by (rule bit_word_eqI) (auto simp: bit_simps)

lemmas ucast_low = ucast_POLY ucast_push ucast_xor16 ucast_or16

lemma push_or_1: "push_bit (Suc 0) (r :: u16) OR 1 = push_bit (Suc 0) r XOR 1"
  by (rule bit_word_eqI) (auto simp: bit_simps)

lemma crc_bit_low:
  "ucast (fst (crc_bit (c, d))) = aug_step (ucast c) (bit d 7)" "snd (crc_bit (c, d)) = push_bit 1 d"
proof -
  have top: "bit (push_bit (Suc 0) c OR 1) 16 \<longleftrightarrow> bit c 15" "bit (push_bit (Suc 0) c) 16 \<longleftrightarrow> bit c 15"
    "bit (ucast c :: u16) 15 \<longleftrightarrow> bit c 15"
    by (auto simp: bit_simps)
  show "ucast (fst (crc_bit (c, d))) = aug_step (ucast c) (bit d 7)"
    unfolding crc_bit_def Let_def POLY_def and_mask_bits
    by (simp add: top and_mask_bits ucast_low aug_step_def zero_step_def push_or_1 xor.assoc)
qed (simp add: crc_bit_def Let_def)

lemma crc_append0_low: "ucast (crc_append0 c) = zero_step (ucast c)"
  by (simp add: crc_append0_def zero_step_def and_mask_bits ucast_low POLY_def bit_ucast_iff)

lemma crc_append0_pow_low: "ucast ((crc_append0 ^^ n) c) = (zero_step ^^ n) (ucast c)"
  by (induction n) (simp_all add: crc_append0_low)

lemma crc_bit_pow_low:
  "ucast (fst ((crc_bit ^^ n) (c, d))) =
     foldl aug_step (ucast c) (map (\<lambda>i. bit d (7 - i)) [0..<n]) \<and>
   snd ((crc_bit ^^ n) (c, d)) = push_bit n d" if "n \<le> 8"
  using that
proof (induction n)
  case (Suc n)
  obtain c' d' where s: "(crc_bit ^^ n) (c, d) = (c', d')" by fastforce
  with Suc have "ucast c' = foldl aug_step (ucast c) (map (\<lambda>i. bit d (7 - i)) [0..<n])"
    and d': "d' = push_bit n d" by auto
  moreover from Suc.prems have "bit d' 7 = bit d (7 - n)" by (auto simp: d' bit_simps)
  ultimately show ?case
    by (simp add: s crc_bit_low d')
qed simp

lemma crc_byte_low: "ucast (crc_byte c d) = foldl aug_step (ucast c) (byte_bits d)"
  using crc_bit_pow_low [of 8 c d]
  by (simp add: crc_byte_def byte_bits_def upt_rec)

lemma crc_bytes_low:
  "ucast (foldl crc_byte c bs) = foldl aug_step (ucast c) (msg_bits bs)"
  by (induction bs arbitrary: c) (simp_all add: msg_bits_def crc_byte_low)

lemma crc_xmodem_bits:
  "crc_xmodem data = (zero_step ^^ 16) (foldl aug_step 0 (msg_bits data))"
  by (simp add: crc_xmodem_def crc_append0_pow_low crc_bytes_low)

section \<open>Appending zeros or feeding at the top\<close>

lemma zero_step_xor: "zero_step (a XOR b) = zero_step a XOR zero_step b"
proof -
  have p: "push_bit 1 (a XOR b) = push_bit 1 a XOR push_bit 1 b"
    by (rule push_bit_xor)
  show ?thesis
    unfolding zero_step_def p bit_xor_iff
    by (cases "bit a 15"; cases "bit b 15") (simp_all add: ac_simps)
qed

lemma zero_step_pow_xor: "(zero_step ^^ n) (a XOR b) = (zero_step ^^ n) a XOR (zero_step ^^ n) b"
  by (induction n) (simp_all add: zero_step_xor)

lemma zero_step_pow_0: "(zero_step ^^ n) 0 = 0"
  by (induction n) (simp_all add: zero_step_def)

lemma zero_step_pow_1: "n < 16 \<Longrightarrow> (zero_step ^^ n) 1 = push_bit n 1"
proof (induction n)
  case (Suc n)
  then have "\<not> bit (push_bit n (1 :: u16)) 15" by (simp add: bit_simps)
  with Suc show ?case by (simp add: zero_step_def push_bit_Suc mult.commute)
qed simp

lemma zero_step_pow16_1: "(zero_step ^^ 16) 1 = 0x1021"
proof -
  have "(zero_step ^^ 16) 1 = zero_step ((zero_step ^^ 15) 1)"
    by (simp add: numeral_eq_Suc)
  also have "\<dots> = zero_step 0x8000" by (simp add: zero_step_pow_1)
  also have "\<dots> = 0x1021" by (simp add: zero_step_def push_bit_Suc)
  finally show ?thesis .
qed

lemma crc16_step_aug: "crc16_step r b = zero_step r XOR (zero_step ^^ 16) (of_bool b)"
  by (auto simp: crc16_step_def zero_step_def zero_step_pow16_1 zero_step_pow_0 xor.assoc)

lemma aug_to_direct:
  "(zero_step ^^ 16) (foldl aug_step r bs) = foldl crc16_step ((zero_step ^^ 16) r) bs"
proof (induction bs arbitrary: r)
  case (Cons b bs)
  have "(zero_step ^^ 16) (aug_step r b) = crc16_step ((zero_step ^^ 16) r) b"
    by (simp add: aug_step_def crc16_step_aug zero_step_pow_xor funpow_swap1)
  with Cons show ?case by simp
qed simp

lemma crc_xmodem_crc16: "crc_xmodem data = crc16 data"
  by (simp add: crc_xmodem_bits aug_to_direct crc16_def zero_step_pow_0)

section \<open>Error detection\<close>

text \<open>No bit of the register is lost by a shift: the polynomial has a constant term.\<close>

lemma zero_step_inj: "inj zero_step"
proof (rule injI)
  fix a b
  assume eq: "zero_step a = zero_step b"
  have z: "zero_step c = 0 \<longleftrightarrow> c = 0" for c
  proof
    assume h: "zero_step c = 0"
    have b0: "bit (zero_step c) 0 \<longleftrightarrow> bit c 15"
      by (simp add: zero_step_def bit_0 even_xor_iff)
    then have n15: "\<not> bit c 15" using h by simp
    show "c = 0"
    proof (rule bit_word_eqI)
      fix n :: nat
      assume n: "n < LENGTH(16)"
      show "bit c n \<longleftrightarrow> bit 0 n"
      proof (cases "n = 15")
        case False
        with n have "bit (zero_step c) (Suc n) \<longleftrightarrow> bit c n"
          by (simp add: zero_step_def n15 bit_simps)
        with h show ?thesis by simp
      qed (simp add: n15)
    qed
  qed (simp add: zero_step_def)
  have "zero_step (a XOR b) = 0" by (simp add: zero_step_xor eq)
  then have "a XOR b = b XOR b" by (simp add: z)
  then show "a = b" by (simp only: xor_cancel_right)
qed

lemma zero_step_pow_inj: "inj (zero_step ^^ n)"
  by (rule inj_fn [OF zero_step_inj])

lemma foldl_aug_split:
  "foldl aug_step r bs = (zero_step ^^ length bs) r XOR foldl aug_step 0 bs"
proof (induction bs arbitrary: r)
  case (Cons b bs)
  have "foldl aug_step r (b # bs) =
      (zero_step ^^ length bs) (zero_step r XOR of_bool b) XOR foldl aug_step 0 bs"
    unfolding foldl_Cons Cons [of "aug_step r b"] by (simp only: aug_step_def)
  moreover have "foldl aug_step 0 (b # bs) =
      (zero_step ^^ length bs) (of_bool b) XOR foldl aug_step 0 bs"
    unfolding foldl_Cons Cons [of "aug_step 0 b"] by (simp only: aug_step_def zero_step_def bit_0_eq) simp
  ultimately show ?case
    by (simp add: zero_step_pow_xor funpow_swap1 xor.assoc del: of_bool_eq)
qed simp

text \<open>The first sixteen bits only fill the register.\<close>

lemma foldl_aug_fill:
  "length bs \<le> 16 \<Longrightarrow> foldl aug_step 0 bs = horner_sum of_bool 2 (rev bs)"
proof (induction bs rule: rev_induct)
  case (snoc b bs)
  let ?h = "horner_sum of_bool 2 (rev bs) :: u16"
  from snoc have IH: "foldl aug_step 0 bs = ?h" and l: "length bs \<le> 15" by auto
  have "\<not> bit ?h 15" using l by (simp add: bit_horner_sum_bit_iff)
  then have "aug_step ?h b = push_bit 1 ?h XOR of_bool b"
    by (simp add: aug_step_def zero_step_def)
  also have "\<dots> = of_bool b + 2 * ?h"
  proof -
    have "push_bit 1 ?h AND of_bool b = 0"
      by (rule bit_word_eqI) (auto simp: bit_simps)
    then show ?thesis
      by (subst disjunctive_add_eq_xor [symmetric]) (simp_all add: push_bit_Suc mult.commute)
  qed
  finally show ?case by (simp add: IH)
qed simp

lemma foldl_aug_inj:
  assumes len: "length u = length v" "length v \<le> 16"
    and eq: "foldl aug_step r u = foldl aug_step r v"
  shows "u = v"
proof -
  have "foldl aug_step 0 u = foldl aug_step 0 v"
    using len eq by (simp add: foldl_aug_split [of r] xor_cancel_left)
  then have h: "horner_sum of_bool 2 (rev u) = (horner_sum of_bool 2 (rev v) :: u16)"
    using len by (simp add: foldl_aug_fill)
  have "rev u ! n = rev v ! n" if "n < length v" for n
    using arg_cong [OF h, of "\<lambda>w. bit w n"] that len by (simp add: bit_horner_sum_bit_iff)
  then have "rev u = rev v" using len by (intro nth_equalityI) auto
  then show ?thesis by simp
qed

lemma foldl_aug_suffix_inj: "foldl aug_step r s = foldl aug_step r' s \<Longrightarrow> r = r'"
proof -
  assume "foldl aug_step r s = foldl aug_step r' s"
  then show "r = r'"
    by (simp add: foldl_aug_split [of r] foldl_aug_split [of r'] xor_cancel_right
        inj_eq [OF zero_step_pow_inj])
qed

text \<open>
  Two messages whose bits differ only inside a window of at most sixteen bits have
  different checksums: every burst error of up to two bytes is detected.
\<close>

lemma crc_xmodem_window:
  assumes xs: "msg_bits xs = p @ u @ s" and ys: "msg_bits ys = p @ v @ s"
    and len: "length u = length v" "length v \<le> 16" and neq: "u \<noteq> v"
  shows "crc_xmodem xs \<noteq> crc_xmodem ys"
proof
  assume "crc_xmodem xs = crc_xmodem ys"
  then have "foldl aug_step 0 (p @ u @ s) = foldl aug_step 0 (p @ v @ s)"
    by (simp add: crc_xmodem_bits xs ys inj_eq [OF zero_step_pow_inj])
  then have "foldl aug_step (foldl aug_step 0 p) u = foldl aug_step (foldl aug_step 0 p) v"
    by (simp add: foldl_aug_suffix_inj)
  then show False using foldl_aug_inj len neq by blast
qed

lemma length_byte_bits [simp]: "length (byte_bits b) = 8"
  by (simp add: byte_bits_def)

lemma length_msg_bits [simp]: "length (msg_bits bs) = 8 * length bs"
  by (induction bs) (auto simp: msg_bits_def)

lemma msg_bits_append [simp]: "msg_bits (xs @ ys) = msg_bits xs @ msg_bits ys"
  by (simp add: msg_bits_def)

lemma byte_bits_inj: "byte_bits a = byte_bits b \<longleftrightarrow> a = b"
proof
  assume h: "byte_bits a = byte_bits b"
  show "a = b"
  proof (rule bit_word_eqI)
    fix n :: nat
    assume "n < LENGTH(8)"
    then have "n \<in> {0, 1, 2, 3, 4, 5, 6, 7}" by auto
    then show "bit a n = bit b n" using h by (auto simp: byte_bits_def)
  qed
qed simp

lemma msg_bits_inj: "length xs = length ys \<Longrightarrow> msg_bits xs = msg_bits ys \<longleftrightarrow> xs = ys"
  by (induction xs ys rule: list_induct2) (auto simp: msg_bits_def byte_bits_inj)

lemma crc_xmodem_burst:
  assumes "length u = length v" "length v \<le> 2" "u \<noteq> v"
  shows "crc_xmodem (p @ u @ s) \<noteq> crc_xmodem (p @ v @ s)"
  by (rule crc_xmodem_window [where p = "msg_bits p" and u = "msg_bits u" and v = "msg_bits v"
        and s = "msg_bits s"])
    (use assms msg_bits_inj in auto)

text \<open>
  A message followed by its own checksum has checksum 0, and only then: the test of the
  receiver is a test on the payload and the checksum field as one message.
\<close>

lemma horner_two_bytes:
  "horner_sum of_bool 2 (rev (msg_bits [h, l])) = (push_bit 8 (ucast h) OR ucast l :: u16)"
proof (rule bit_word_eqI)
  fix n :: nat
  assume "n < LENGTH(16)"
  moreover have "rev (msg_bits [h, l]) = map (bit l) [0..<8] @ map (bit h) [0..<8]"
    by (simp add: msg_bits_def byte_bits_def upt_rec numeral_eq_Suc)
  ultimately show "bit (horner_sum of_bool 2 (rev (msg_bits [h, l])) :: u16) n =
      bit (push_bit 8 (ucast h) OR ucast l :: u16) n"
    using bit_imp_le_length [of l n] by (auto simp: bit_horner_sum_bit_iff bit_simps nth_append)
qed

lemma crc_residue:
  "crc_xmodem (xs @ [h, l]) = 0 \<longleftrightarrow> crc_xmodem xs = push_bit 8 (ucast h) OR ucast l"
proof -
  define r where "r = foldl aug_step 0 (msg_bits xs)"
  have "foldl aug_step r (msg_bits [h, l]) = crc_xmodem xs XOR (push_bit 8 (ucast h) OR ucast l)"
    using foldl_aug_split [of r "msg_bits [h, l]"] foldl_aug_fill [of "msg_bits [h, l]"]
    by (simp add: horner_two_bytes crc_xmodem_bits r_def)
  then have "crc_xmodem (xs @ [h, l]) = (zero_step ^^ 16) (crc_xmodem xs XOR (push_bit 8 (ucast h) OR ucast l))"
    by (simp add: crc_xmodem_bits [of "xs @ [h, l]"] r_def)
  moreover have "(zero_step ^^ 16) w = 0 \<longleftrightarrow> w = 0" for w
    using inj_eq [OF zero_step_pow_inj, of 16 w 0] by (simp add: zero_step_pow_0)
  moreover have "a XOR c = 0 \<longleftrightarrow> a = c" for a c :: u16
    using xor_cancel_right [of a c c] by simp
  ultimately show ?thesis by simp
qed

lemma crc_xmodem_zeros: "crc_xmodem (replicate n 0) = 0"
proof -
  have b: "(crc_bit ^^ m) (0, 0) = (0, 0)" for m
    by (induction m) (simp_all add: crc_bit_def)
  have "foldl crc_byte 0 (replicate n 0) = 0" by (induction n) (simp_all add: crc_byte_def b)
  moreover have "(crc_append0 ^^ m) 0 = 0" for m by (induction m) (simp_all add: crc_append0_def)
  ultimately show ?thesis by (simp add: crc_xmodem_def)
qed

end
