(* ===== verification/Xmodem.thy ===== *)
theory Xmodem
  imports Xmodem_Port Crc16
begin

unbundle bit_operations_syntax

text \<open>
  The XMODEM protocol, src/qda/xmodem.c, over any I/O layer \<open>p\<close>. The static packet buffer is
  part of the state: it keeps its content between calls, so a short last block is padded
  with what the buffer held. A function whose loop may not end has an \<open>option\<close> result,
  \<open>None\<close> when it does not return. A data pointer and its length are one list.
\<close>

section \<open>Data\<close>

abbreviation (input) SOH :: u8 where "SOH \<equiv> 0x01"
abbreviation (input) EOT :: u8 where "EOT \<equiv> 0x04"
abbreviation (input) ACK :: u8 where "ACK \<equiv> 0x06"
abbreviation (input) NAK :: u8 where "NAK \<equiv> 0x15"
abbreviation (input) CAN :: u8 where "CAN \<equiv> 0x18"
abbreviation (input) char_C :: u8 where "char_C \<equiv> 0x43"

text \<open>Codes of \<open>xmodem_read_pkt\<close> that are never sent.\<close>

abbreviation (input) ERR :: u8 where "ERR \<equiv> 0xFF"
abbreviation (input) DUP :: u8 where "DUP \<equiv> 0xFE"

abbreviation (input) MAX_RX_ERRORS :: nat where "MAX_RX_ERRORS \<equiv> 5"
abbreviation (input) MAX_RETRANSMIT :: nat where "MAX_RETRANSMIT \<equiv> 3"
abbreviation (input) TIMEOUT_STD :: int where "TIMEOUT_STD \<equiv> 3000"
abbreviation (input) TIMEOUT_ERR :: int where "TIMEOUT_ERR \<equiv> 300"
abbreviation (input) XMODEM_BLOCK_SIZE :: nat where "XMODEM_BLOCK_SIZE \<equiv> 128"

record xmodem_packet =
  soh :: u8
  seq_no :: u8
  seq_no_inv :: u8
  pkt_data :: "u8 list"
  crc_u8 :: "u8 list"

text \<open>The packed structure as the bytes \<open>(uint8_t *)&pkt_buf\<close> points to, and back.\<close>

definition pkt_bytes :: "xmodem_packet \<Rightarrow> u8 list" where
  "pkt_bytes k = [soh k, seq_no k, seq_no_inv k] @ pkt_data k @ crc_u8 k"

definition pkt_of_bytes :: "u8 list \<Rightarrow> xmodem_packet" where
  "pkt_of_bytes bs = \<lparr>soh = bs ! 0, seq_no = bs ! 1, seq_no_inv = bs ! 2,
     pkt_data = take XMODEM_BLOCK_SIZE (drop 3 bs), crc_u8 = drop (3 + XMODEM_BLOCK_SIZE) bs\<rparr>"

definition pkt_size :: nat where
  "pkt_size = 3 + XMODEM_BLOCK_SIZE + 2"

record 's xm =
  pkt_buf :: xmodem_packet
  dev :: 's

definition pkt_wf :: "xmodem_packet \<Rightarrow> bool" where
  "pkt_wf k \<longleftrightarrow> length (pkt_data k) = XMODEM_BLOCK_SIZE \<and> length (crc_u8 k) = 2"

definition xm_wf :: "'s xm \<Rightarrow> bool" where
  "xm_wf x \<longleftrightarrow> pkt_wf (pkt_buf x)"

text \<open>The calls to the I/O layer, on the state with the packet buffer.\<close>

definition xm_getc :: "'s xport \<Rightarrow> u8 \<Rightarrow> 's xm \<Rightarrow> (int \<times> u8) \<times> 's xm" where
  "xm_getc p ch x = (case x_getc p ch (dev x) of (r, d) \<Rightarrow> (r, x\<lparr>dev := d\<rparr>))"

definition xm_putc :: "'s xport \<Rightarrow> u8 \<Rightarrow> 's xm \<Rightarrow> 's xm" where
  "xm_putc p b x = x\<lparr>dev := x_putc p b (dev x)\<rparr>"

definition xm_set_timeout :: "'s xport \<Rightarrow> int \<Rightarrow> 's xm \<Rightarrow> 's xm" where
  "xm_set_timeout p ms x = x\<lparr>dev := snd (x_set_timeout p ms (dev x))\<rparr>"

section \<open>Sending\<close>

definition xmodem_send_pkt :: "'s xport \<Rightarrow> u8 list \<Rightarrow> u8 \<Rightarrow> 's xm \<Rightarrow> int \<times> 's xm" where
  "xmodem_send_pkt p data pkt_no x =
     (let k = (pkt_buf x)\<lparr>soh := SOH\<rparr>;
          k = k\<lparr>pkt_data := mem_write (pkt_data k) 0 data\<rparr>;
          crc = crc_xmodem (pkt_data k);
          k = k\<lparr>crc_u8 := [ucast (drop_bit 8 crc AND 0xFF), ucast (crc AND 0xFF)]\<rparr>;
          k = k\<lparr>seq_no := pkt_no\<rparr>;
          k = k\<lparr>seq_no_inv := NOT pkt_no\<rparr>
      in (0, fold (xm_putc p) (pkt_bytes k) (x\<lparr>pkt_buf := k\<rparr>)))"

fun send_pkt_loop :: "'s xport \<Rightarrow> u8 list \<Rightarrow> u8 \<Rightarrow> nat \<Rightarrow> 's xm \<Rightarrow> int \<times> 's xm" where
  "send_pkt_loop p data pkt_no 0 x = (- 1, x)"
| "send_pkt_loop p data pkt_no (Suc retransmit) x =
     (case xmodem_send_pkt p data pkt_no x of (_, x) \<Rightarrow>
      case xm_getc p ERR x of ((_, rsp), x) \<Rightarrow>
      if rsp = ACK then (0, x) else send_pkt_loop p data pkt_no retransmit x)"

definition xmodem_send_pkt_with_retry ::
  "'s xport \<Rightarrow> u8 list \<Rightarrow> u8 \<Rightarrow> 's xm \<Rightarrow> int \<times> 's xm" where
  "xmodem_send_pkt_with_retry p data pkt_no x = send_pkt_loop p data pkt_no MAX_RETRANSMIT x"

fun send_byte_loop :: "'s xport \<Rightarrow> u8 \<Rightarrow> nat \<Rightarrow> 's xm \<Rightarrow> int \<times> 's xm" where
  "send_byte_loop p cmd 0 x = (- 1, x)"
| "send_byte_loop p cmd (Suc retransmit) x =
     (case xm_getc p ERR (xm_putc p cmd x) of ((_, rsp), x) \<Rightarrow>
      if rsp = ACK then (0, x) else send_byte_loop p cmd retransmit x)"

definition xmodem_send_byte_with_retry :: "'s xport \<Rightarrow> u8 \<Rightarrow> 's xm \<Rightarrow> int \<times> 's xm" where
  "xmodem_send_byte_with_retry p cmd x = send_byte_loop p cmd MAX_RETRANSMIT x"

text \<open>Waiting for the \<open>C\<close> that starts a transfer: whether it came.\<close>

fun wait_start :: "'s xport \<Rightarrow> nat \<Rightarrow> 's xm \<Rightarrow> bool \<times> 's xm" where
  "wait_start p 0 x = (False, x)"
| "wait_start p (Suc retransmit) x =
     (case xm_getc p ERR x of ((_, rsp), x) \<Rightarrow>
      if rsp = char_C then (True, x) else wait_start p retransmit x)"

text \<open>
  The loop over the data. \<open>pkt_no\<close> is a \<open>uint8_t\<close>; the result \<open>(pkt_no - 1) * 128\<close> is
  computed on \<open>int\<close>.
\<close>

function transmit_loop :: "'s xport \<Rightarrow> u8 list \<Rightarrow> u8 \<Rightarrow> 's xm \<Rightarrow> int \<times> 's xm" where
  "transmit_loop p data pkt_no x =
     (if data \<noteq> [] then
        let mlen = (if XMODEM_BLOCK_SIZE \<le> length data then XMODEM_BLOCK_SIZE else length data) in
        case xmodem_send_pkt_with_retry p (take mlen data) pkt_no x of (r, x) \<Rightarrow>
        if r < 0 then (- 1, x) else transmit_loop p (drop mlen data) (pkt_no + 1) x
      else
        case xmodem_send_byte_with_retry p EOT x of (r, x) \<Rightarrow>
        if r < 0 then (- 1, x) else ((uint pkt_no - 1) * 128, x))"
  by pat_completeness auto
termination
  by (relation "measure (\<lambda>(p, data, n, x). length data)") auto

declare transmit_loop.simps [simp del]

definition xmodem_transmit_package :: "'s xport \<Rightarrow> u8 list \<Rightarrow> 's xm \<Rightarrow> int \<times> 's xm" where
  "xmodem_transmit_package p data x =
     (case wait_start p MAX_RETRANSMIT (xm_set_timeout p TIMEOUT_STD x) of (started, x) \<Rightarrow>
      if \<not> started then (- 1, x) else transmit_loop p data 1 x)"

section \<open>Receiving\<close>

text \<open>
  Discarding bytes until the sender is silent: \<open>while (xmodem_getc(&cmd) >= 0);\<close>. It does
  not end on a line that never falls silent.
\<close>

partial_function (option) drain :: "'s xport \<Rightarrow> u8 \<Rightarrow> 's xm \<Rightarrow> 's xm option" where
  "drain p cmd x =
     (case xm_getc p cmd x of ((r, cmd), x) \<Rightarrow> if 0 \<le> r then drain p cmd x else Some x)"

lemma drain_induct [consumes 1, case_names step]:
  assumes run: "drain p c x = Some y"
    and step: "\<And>f c x y. (\<And>c x y. f c x = Some y \<Longrightarrow> P c x y) \<Longrightarrow>
      (case xm_getc p c x of ((r, c), x) \<Rightarrow> if 0 \<le> r then f c x else Some x) = Some y \<Longrightarrow> P c x y"
  shows "P c x y"
proof -
  have "p = p \<longrightarrow> P c x y"
  proof (rule drain.raw_induct
      [of "\<lambda>q c x y. q = p \<longrightarrow> P c x y" "((p, c), x)" y, unfolded prod.case])
    show "drain p c x = Some y" by (rule run)
  qed (blast intro: step)
  then show ?thesis by simp
qed

text \<open>
  Reading the rest of a packet into \<open>pkt_buf\<close>, byte \<open>i\<close> next of the \<open>n\<close> that are left;
  whether all of them arrived.
\<close>

definition pkt_poke :: "nat \<Rightarrow> u8 \<Rightarrow> xmodem_packet \<Rightarrow> xmodem_packet" where
  "pkt_poke i b k = pkt_of_bytes ((pkt_bytes k)[i := b])"

fun read_rest :: "'s xport \<Rightarrow> nat \<Rightarrow> nat \<Rightarrow> 's xm \<Rightarrow> bool \<times> 's xm" where
  "read_rest p i 0 x = (True, x)"
| "read_rest p i (Suc n) x =
     (case xm_getc p (pkt_bytes (pkt_buf x) ! i) x of ((r, b), x) \<Rightarrow>
      let x = x\<lparr>pkt_buf := pkt_poke i b (pkt_buf x)\<rparr> in
      if r < 0 then (False, x) else read_rest p (Suc i) n x)"

text \<open>
  The checks on a complete packet, in the order of the code: sequence number field and CRC,
  duplicate (compared on \<open>int\<close>), expected number, room in the buffer.
\<close>

definition pkt_crc_recv :: "xmodem_packet \<Rightarrow> u16" where
  "pkt_crc_recv k = push_bit 8 (ucast (crc_u8 k ! 0)) OR ucast (crc_u8 k ! 1)"

definition check_pkt :: "u8 \<Rightarrow> nat \<Rightarrow> xmodem_packet \<Rightarrow> u8" where
  "check_pkt exp_seq_no len k =
     (let crc_comp = crc_xmodem (pkt_data k); crc_recv = pkt_crc_recv k in
      if seq_no k \<noteq> NOT (seq_no_inv k) \<or> crc_recv \<noteq> crc_comp then ERR
      else if uint (seq_no k) = uint exp_seq_no - 1 then DUP
      else if seq_no k \<noteq> exp_seq_no then CAN
      else if len < XMODEM_BLOCK_SIZE then CAN
      else SOH)"

text \<open>
  \<open>data\<close> is \<open>buf + off\<close>, \<open>len\<close> the room left there. The result is the status and the
  buffer.
\<close>

definition xmodem_read_pkt ::
  "'s xport \<Rightarrow> u8 \<Rightarrow> u8 list \<Rightarrow> nat \<Rightarrow> nat \<Rightarrow> 's xm \<Rightarrow> ((u8 \<times> u8 list) \<times> 's xm) option" where
  "xmodem_read_pkt p exp_seq_no buf off len x =
     (case xm_getc p ERR x of ((r, cmd), x) \<Rightarrow>
      if r < 0 then Some ((ERR, buf), x)
      else if cmd = SOH then
        (case read_rest p 1 (pkt_size - 1) x of (complete, x) \<Rightarrow>
         if \<not> complete then Some ((ERR, buf), x)
         else let status = check_pkt exp_seq_no len (pkt_buf x) in
           if status = SOH then Some ((SOH, mem_write buf off (pkt_data (pkt_buf x))), x)
           else Some ((status, buf), x))
      else if cmd = EOT then Some ((EOT, buf), x)
      else
        (case drain p cmd (xm_set_timeout p TIMEOUT_ERR x) of
           None \<Rightarrow> None
         | Some x \<Rightarrow> Some ((ERR, buf), xm_set_timeout p TIMEOUT_STD x)))"

text \<open>
  The loop of \<open>xmodem_receive_package\<close>: what it leaves in \<open>retv\<close>, \<open>cmd\<close> and the buffer.
\<close>

partial_function (option) receive_loop ::
  "'s xport \<Rightarrow> u8 \<Rightarrow> u8 \<Rightarrow> u8 \<Rightarrow> nat \<Rightarrow> nat \<Rightarrow> u8 list \<Rightarrow> nat \<Rightarrow> 's xm \<Rightarrow>
     ((int \<times> u8 \<times> u8 list) \<times> 's xm) option" where
  "receive_loop p exp_seq_no cmd nak err_cnt data_cnt buf buf_len x =
     (if err_cnt < MAX_RX_ERRORS then
        (case xmodem_read_pkt p exp_seq_no buf data_cnt buf_len (xm_putc p cmd x) of
           None \<Rightarrow> None
         | Some ((status, buf), x) \<Rightarrow>
             if status = SOH then
               receive_loop p (exp_seq_no + 1) ACK NAK 0 (data_cnt + XMODEM_BLOCK_SIZE) buf
                 (buf_len - XMODEM_BLOCK_SIZE) x
             else if status = DUP then
               receive_loop p exp_seq_no ACK nak err_cnt data_cnt buf buf_len x
             else if status = EOT then Some ((int data_cnt, ACK, buf), x)
             else if status = CAN then Some ((- 1, CAN, buf), x)
             else receive_loop p exp_seq_no nak nak (err_cnt + 1) data_cnt buf buf_len x)
      else Some ((- 1, cmd, buf), x))"

lemma receive_loop_induct [consumes 1, case_names step]:
  assumes run: "receive_loop p e cmd nak err cnt buf len x = Some r"
    and step: "\<And>f e cmd nak err cnt buf len x r.
      (\<And>e cmd nak err cnt buf len x r.
         f e cmd nak err cnt buf len x = Some r \<Longrightarrow> P e cmd nak err cnt buf len x r) \<Longrightarrow>
      (if err < MAX_RX_ERRORS then
        (case xmodem_read_pkt p e buf cnt len (xm_putc p cmd x) of
           None \<Rightarrow> None
         | Some ((status, buf), x) \<Rightarrow>
             if status = SOH then f (e + 1) ACK NAK 0 (cnt + XMODEM_BLOCK_SIZE) buf
                 (len - XMODEM_BLOCK_SIZE) x
             else if status = DUP then f e ACK nak err cnt buf len x
             else if status = EOT then Some ((int cnt, ACK, buf), x)
             else if status = CAN then Some ((- 1, CAN, buf), x)
             else f e nak nak (err + 1) cnt buf len x)
       else Some ((- 1, cmd, buf), x)) = Some r \<Longrightarrow> P e cmd nak err cnt buf len x r"
  shows "P e cmd nak err cnt buf len x r"
proof -
  have "p = p \<longrightarrow> P e cmd nak err cnt buf len x r"
  proof (rule receive_loop.raw_induct
      [of "\<lambda>q e cmd nak err cnt buf len x r. q = p \<longrightarrow> P e cmd nak err cnt buf len x r"
        "((((((((p, e), cmd), nak), err), cnt), buf), len), x)" r, unfolded prod.case])
    show "receive_loop p e cmd nak err cnt buf len x = Some r" by (rule run)
  qed (blast intro: step)
  then show ?thesis by simp
qed

definition xmodem_receive_package ::
  "'s xport \<Rightarrow> u8 list \<Rightarrow> 's xm \<Rightarrow> ((int \<times> u8 list) \<times> 's xm) option" where
  "xmodem_receive_package p buf x =
     (case receive_loop p 1 char_C char_C 0 0 buf (length buf) (xm_set_timeout p TIMEOUT_STD x) of
        None \<Rightarrow> None
      | Some ((retv, cmd, buf), x) \<Rightarrow> Some ((retv, buf), xm_putc p cmd x))"

end
