(* ===== verification/Xmodem_Sim.thy ===== *)
theory Xmodem_Sim
  imports Xmodem
begin

text \<open>
  The functions of xmodem.c return the same values on two ports that simulate each other,
  and leave related states. Its use is with the traced port: what the log of a function shows
  holds of the function on the plain port.
\<close>

definition xm_rel :: "('s \<Rightarrow> 't \<Rightarrow> bool) \<Rightarrow> 's xm \<Rightarrow> 't xm \<Rightarrow> bool" where
  "xm_rel R x y \<longleftrightarrow> pkt_buf x = pkt_buf y \<and> R (dev x) (dev y)"

text \<open>Related results of a function, and of one that may not return.\<close>

definition res_rel :: "('s \<Rightarrow> 't \<Rightarrow> bool) \<Rightarrow> 'a \<times> 's xm \<Rightarrow> 'a \<times> 't xm \<Rightarrow> bool" where
  "res_rel R a b \<longleftrightarrow> fst a = fst b \<and> xm_rel R (snd a) (snd b)"

lemma res_relE:
  assumes "res_rel R a b"
  obtains v x y where "a = (v, x)" and "b = (v, y)" and "xm_rel R x y"
  using assms by (cases a; cases b) (auto simp: res_rel_def)

lemma res_relI [intro]: "xm_rel R x y \<Longrightarrow> res_rel R (v, x) (v, y)"
  by (simp add: res_rel_def)

context port_sim
begin

lemma sim_xm_getc: "xm_rel R x y \<Longrightarrow> res_rel R (xm_getc p ch x) (xm_getc q ch y)"
  using sim_getc [of "dev x" "dev y" ch]
  by (auto simp: xm_getc_def xm_rel_def res_rel_def split: prod.splits)

lemma sim_xm_putc: "xm_rel R x y \<Longrightarrow> xm_rel R (xm_putc p b x) (xm_putc q b y)"
  using sim_putc by (auto simp: xm_putc_def xm_rel_def)

lemma sim_xm_set_timeout:
  "xm_rel R x y \<Longrightarrow> ms \<in> {TIMEOUT_STD, TIMEOUT_ERR} \<Longrightarrow>
    xm_rel R (xm_set_timeout p ms x) (xm_set_timeout q ms y)"
  using sim_set_timeout by (auto simp: xm_set_timeout_def xm_rel_def)

lemma sim_fold_putc:
  "xm_rel R x y \<Longrightarrow> xm_rel R (fold (xm_putc p) bs x) (fold (xm_putc q) bs y)"
  by (induction bs arbitrary: x y) (auto intro: sim_xm_putc)

lemma sim_send_pkt:
  assumes "xm_rel R x y"
  shows "res_rel R (xmodem_send_pkt p data n x) (xmodem_send_pkt q data n y)"
proof -
  from assms have "pkt_buf x = pkt_buf y" by (simp add: xm_rel_def)
  moreover have "xm_rel R (x\<lparr>pkt_buf := k\<rparr>) (y\<lparr>pkt_buf := k\<rparr>)" for k
    using assms by (simp add: xm_rel_def)
  ultimately show ?thesis
    by (auto simp: xmodem_send_pkt_def Let_def intro!: sim_fold_putc)
qed

lemma sim_getcE:
  assumes "xm_rel R x y"
  obtains r b x' y' where "xm_getc p ch x = ((r, b), x')" and "xm_getc q ch y = ((r, b), y')"
    and "xm_rel R x' y'"
  using res_relE [OF sim_xm_getc [OF assms, of ch]] by (metis surj_pair)

lemma sim_send_pkt_loop:
  "xm_rel R x y \<Longrightarrow> res_rel R (send_pkt_loop p data n m x) (send_pkt_loop q data n m y)"
proof (induction m arbitrary: x y)
  case (Suc m)
  obtain v x1 y1 where 1: "xmodem_send_pkt p data n x = (v, x1)"
      "xmodem_send_pkt q data n y = (v, y1)" "xm_rel R x1 y1"
    by (rule res_relE [OF sim_send_pkt [OF Suc.prems]])
  from 1(3) obtain r b x2 y2 where 2: "xm_getc p ERR x1 = ((r, b), x2)"
      "xm_getc q ERR y1 = ((r, b), y2)" "xm_rel R x2 y2"
    by (rule sim_getcE)
  then show ?case using 1(1,2) Suc.IH [OF 2(3)] by auto
qed auto

lemma sim_send_byte_loop:
  "xm_rel R x y \<Longrightarrow> res_rel R (send_byte_loop p c m x) (send_byte_loop q c m y)"
proof (induction m arbitrary: x y)
  case (Suc m)
  from sim_xm_putc [OF Suc.prems] obtain r b x2 y2 where
    2: "xm_getc p ERR (xm_putc p c x) = ((r, b), x2)"
      "xm_getc q ERR (xm_putc q c y) = ((r, b), y2)" "xm_rel R x2 y2"
    by (rule sim_getcE)
  then show ?case using Suc.IH [OF 2(3)] by auto
qed auto

lemma sim_wait_start:
  "xm_rel R x y \<Longrightarrow> res_rel R (wait_start p m x) (wait_start q m y)"
proof (induction m arbitrary: x y)
  case (Suc m)
  from Suc.prems obtain r b x2 y2 where
    2: "xm_getc p ERR x = ((r, b), x2)" "xm_getc q ERR y = ((r, b), y2)" "xm_rel R x2 y2"
    by (rule sim_getcE)
  then show ?case using Suc.IH [OF 2(3)] by auto
qed auto

lemma sim_transmit_loop:
  "xm_rel R x y \<Longrightarrow> res_rel R (transmit_loop p data n x) (transmit_loop q data n y)"
proof (induction data arbitrary: n x y rule: length_induct)
  case (1 data)
  show ?case
  proof (cases "data = []")
    case True
    obtain v x1 y1 where "xmodem_send_byte_with_retry p EOT x = (v, x1)"
        "xmodem_send_byte_with_retry q EOT y = (v, y1)" "xm_rel R x1 y1"
      unfolding xmodem_send_byte_with_retry_def
      by (rule res_relE [OF sim_send_byte_loop [OF 1(2)]])
    then show ?thesis using True
      by (auto simp: transmit_loop.simps [of p] transmit_loop.simps [of q])
  next
    case False
    define m where "m = (if 128 \<le> length data then 128 else length data)"
    obtain v x1 y1 where "xmodem_send_pkt_with_retry p (take m data) n x = (v, x1)"
        "xmodem_send_pkt_with_retry q (take m data) n y = (v, y1)" "xm_rel R x1 y1"
      unfolding xmodem_send_pkt_with_retry_def
      by (rule res_relE [OF sim_send_pkt_loop [OF 1(2)]])
    moreover have "length (drop m data) < length data" using False by (simp add: m_def)
    ultimately show ?thesis using False 1(1)
      by (auto simp: transmit_loop.simps [of p data] transmit_loop.simps [of q data]
          Let_def simp flip: m_def)
  qed
qed

text \<open>Every transfer sets the timeout first, so the states need be related only then.\<close>

lemma sim_transmit_from:
  assumes "xm_rel R (xm_set_timeout p TIMEOUT_STD x) (xm_set_timeout q TIMEOUT_STD y)"
  shows "res_rel R (xmodem_transmit_package p data x) (xmodem_transmit_package q data y)"
proof -
  obtain v x1 y1 where "wait_start p 3 (xm_set_timeout p TIMEOUT_STD x) = (v, x1)"
      "wait_start q 3 (xm_set_timeout q TIMEOUT_STD y) = (v, y1)" "xm_rel R x1 y1"
    by (rule res_relE [OF sim_wait_start [OF assms]])
  then show ?thesis by (auto simp: xmodem_transmit_package_def intro: sim_transmit_loop)
qed

lemma sim_transmit:
  "xm_rel R x y \<Longrightarrow> res_rel R (xmodem_transmit_package p data x) (xmodem_transmit_package q data y)"
  by (intro sim_transmit_from sim_xm_set_timeout) auto

lemma sim_read_rest:
  "xm_rel R x y \<Longrightarrow> res_rel R (read_rest p i n x) (read_rest q i n y)"
proof (induction n arbitrary: i x y)
  case (Suc n)
  have k: "pkt_buf y = pkt_buf x" using Suc.prems by (simp add: xm_rel_def)
  from Suc.prems obtain r b x1 y1 where
    1: "xm_getc p (pkt_bytes (pkt_buf x) ! i) x = ((r, b), x1)"
      "xm_getc q (pkt_bytes (pkt_buf x) ! i) y = ((r, b), y1)" and r1: "xm_rel R x1 y1"
    by (rule sim_getcE)
  have "xm_rel R (x1\<lparr>pkt_buf := pkt_poke i b (pkt_buf x1)\<rparr>) (y1\<lparr>pkt_buf := pkt_poke i b (pkt_buf y1)\<rparr>)"
    using r1 by (simp add: xm_rel_def)
  then show ?case using Suc.IH by (auto simp: 1 k Let_def)
qed auto

text \<open>For the loops that may not return: where one returns, the other does.\<close>

lemma sim_drain:
  assumes "drain p c x = Some x'" and "xm_rel R x y"
  shows "\<exists>y'. drain q c y = Some y' \<and> xm_rel R x' y'"
  using assms
proof (induction arbitrary: y rule: drain_induct)
  case (step f c x x')
  from step(3) obtain r b x1 y1 where 1: "xm_getc p c x = ((r, b), x1)"
      "xm_getc q c y = ((r, b), y1)" "xm_rel R x1 y1"
    by (rule sim_getcE)
  show ?case
  proof (cases "0 \<le> r")
    case True
    then have "f b x1 = Some x'" using step(2) by (simp add: 1)
    from step(1) [OF this 1(3)] True show ?thesis by (subst drain.simps) (simp add: 1)
  next
    case False
    then show ?thesis using step(2) 1 by (subst drain.simps) simp
  qed
qed

lemma sim_read_pkt:
  assumes run: "xmodem_read_pkt p e buf off len x = Some (r, x')" and rel: "xm_rel R x y"
  shows "\<exists>y'. xmodem_read_pkt q e buf off len y = Some (r, y') \<and> xm_rel R x' y'"
proof -
  obtain c b x1 y1 where 1: "xm_getc p ERR x = ((c, b), x1)" "xm_getc q ERR y = ((c, b), y1)"
    and r1: "xm_rel R x1 y1" by (rule sim_getcE [OF rel])
  obtain ok x2 y2 where 2: "read_rest p 1 (pkt_size - 1) x1 = (ok, x2)"
      "read_rest q 1 (pkt_size - 1) y1 = (ok, y2)" and r2: "xm_rel R x2 y2"
    by (rule res_relE [OF sim_read_rest [OF r1]])
  have k: "pkt_buf y2 = pkt_buf x2" using r2 by (simp add: xm_rel_def)
  note run = run [unfolded xmodem_read_pkt_def 1(1) prod.case 2(1)]
  show ?thesis
    unfolding xmodem_read_pkt_def 1(2) prod.case 2(2) k
    using run r1 r2 sim_drain [OF _ sim_xm_set_timeout [OF r1, of TIMEOUT_ERR]]
      sim_xm_set_timeout [of _ _ TIMEOUT_STD]
    by (fastforce simp: Let_def split: if_splits option.splits)
qed

lemma sim_receive_loop:
  assumes "receive_loop p e cmd nak err cnt buf len x = Some r" and "xm_rel R x y"
  shows "\<exists>r'. receive_loop q e cmd nak err cnt buf len y = Some r' \<and> res_rel R r r'"
  using assms
proof (induction arbitrary: y rule: receive_loop_induct)
  case (step f e cmd nak err cnt buf len x r)
  show ?case
  proof (cases "err < 5")
    case True
    then obtain st buf' x1 where
      1: "xmodem_read_pkt p e buf cnt len (xm_putc p cmd x) = Some ((st, buf'), x1)"
      using step(2) by (auto split: option.splits)
    from sim_read_pkt [OF 1 sim_xm_putc [OF step(3)]] obtain y1 where
      2: "xmodem_read_pkt q e buf cnt len (xm_putc q cmd y) = Some ((st, buf'), y1)" "xm_rel R x1 y1"
      by blast
    show ?thesis
      using step(2) True step(1) [OF _ 2(2)] 2(2)
      by (subst receive_loop.simps) (auto simp: 1 2(1) split: if_splits)
  next
    case False
    then show ?thesis using step(2,3) by (subst receive_loop.simps) auto
  qed
qed

lemma sim_receive_from:
  assumes run: "xmodem_receive_package p buf x = Some (r, x')"
    and rel: "xm_rel R (xm_set_timeout p TIMEOUT_STD x) (xm_set_timeout q TIMEOUT_STD y)"
  shows "\<exists>y'. xmodem_receive_package q buf y = Some (r, y') \<and> xm_rel R x' y'"
proof -
  obtain rv cmd b x1 where
    1: "receive_loop p 1 char_C char_C 0 0 buf (length buf) (xm_set_timeout p TIMEOUT_STD x) =
      Some ((rv, cmd, b), x1)" and r: "r = (rv, b)" "x' = xm_putc p cmd x1"
    using run by (auto simp: xmodem_receive_package_def split: option.splits)
  from sim_receive_loop [OF 1 rel] obtain y1 where
    "receive_loop q 1 char_C char_C 0 0 buf (length buf) (xm_set_timeout q TIMEOUT_STD y) =
      Some ((rv, cmd, b), y1)" "xm_rel R x1 y1" by (auto simp: res_rel_def)
  then show ?thesis by (auto simp: xmodem_receive_package_def r intro: sim_xm_putc)
qed

lemma sim_receive:
  assumes "xmodem_receive_package p buf x = Some (r, x')" and "xm_rel R x y"
  shows "\<exists>y'. xmodem_receive_package q buf y = Some (r, y') \<and> xm_rel R x' y'"
  by (rule sim_receive_from [OF assms(1) sim_xm_set_timeout [OF assms(2)]]) simp

text \<open>A simulation goes both ways, so one reception returns exactly when the other does.\<close>

lemma flipped: "port_sim q p (\<lambda>t s. R s t)"
  by unfold_locales (use sim_getc sim_putc sim_set_timeout in auto)

lemma sim_receive_both:
  assumes "xm_rel R (xm_set_timeout p TIMEOUT_STD x) (xm_set_timeout q TIMEOUT_STD y)"
  shows "rel_option (res_rel R) (xmodem_receive_package p buf x) (xmodem_receive_package q buf y)"
proof (cases "xmodem_receive_package p buf x")
  case None
  have "xm_rel (\<lambda>t s. R s t) (xm_set_timeout q TIMEOUT_STD y) (xm_set_timeout p TIMEOUT_STD x)"
    using assms by (simp add: xm_rel_def)
  from port_sim.sim_receive_from [OF flipped _ this] None
  have "xmodem_receive_package q buf y = None" by (metis not_None_eq option.distinct(1) surj_pair)
  with None show ?thesis by simp
next
  case (Some a)
  then obtain r x' where "xmodem_receive_package p buf x = Some (r, x')" by (cases a) auto
  from sim_receive_from [OF this assms] this show ?thesis by (auto simp: res_rel_def)
qed

end

section \<open>Runs of the traced port\<close>

text \<open>A state of the plain port with a log.\<close>

definition with_log :: "'s xm \<Rightarrow> xev list \<Rightarrow> ('s \<times> xev list) xm" where
  "with_log x l = \<lparr>pkt_buf = pkt_buf x, dev = (dev x, l)\<rparr>"

lemma with_log_sel [simp]: "pkt_buf (with_log x l) = pkt_buf x" "dev (with_log x l) = (dev x, l)"
  by (simp_all add: with_log_def)

lemma xm_rel_with_log:
  "xm_rel (\<lambda>s (t, l). s = t) x z \<longleftrightarrow> (\<exists>l. z = with_log x l)"
proof
  assume h: "xm_rel (\<lambda>s (t, l). s = t) x z"
  obtain s l where "dev z = (s, l)" by fastforce
  with h have "z = with_log x l" by (simp add: xm_rel_def with_log_def)
  then show "\<exists>l. z = with_log x l" ..
qed (auto simp: xm_rel_def)

lemma transmit_traced:
  assumes "xmodem_transmit_package p data x = (r, y)"
  obtains l where "xmodem_transmit_package (traced p) data (with_log x []) = (r, with_log y l)"
proof -
  have "xm_rel (\<lambda>s (t, l). s = t) x (with_log x [])" by (auto simp: xm_rel_with_log)
  from trace_sim.sim_transmit [OF this, of p data] show thesis
    using that assms by (auto elim!: res_relE simp: xm_rel_with_log)
qed

lemma receive_traced:
  assumes "xmodem_receive_package p buf x = Some (r, y)"
  obtains l where "xmodem_receive_package (traced p) buf (with_log x []) = Some (r, with_log y l)"
proof -
  have "xm_rel (\<lambda>s (t, l). s = t) x (with_log x [])" by (auto simp: xm_rel_with_log)
  from trace_sim.sim_receive [OF assms this] show thesis
    using that by (auto simp: xm_rel_with_log)
qed

end
