(* ===== verification/Xmodem_Tx.thy ===== *)
theory Xmodem_Tx
  imports Xmodem_Sim
begin

unbundle bit_operations_syntax

text \<open>
  What the sender puts on the line: the packets of the data in order, each up to three times
  until it is acknowledged, and the end of transmission. The statements are about the log of
  the traced port, so they say when each byte was written and what had been read before.
\<close>

section \<open>The packets of a transfer\<close>

definition frame :: "u8 \<Rightarrow> u8 list \<Rightarrow> u8 list" where
  "frame n block = [SOH, n, NOT n] @ block @
     [ucast (drop_bit 8 (crc_xmodem block)), ucast (crc_xmodem block)]"

text \<open>
  The blocks of 128 bytes of \<open>data\<close>; the last one is filled up with the bytes at the same
  place of the block before it, at first \<open>pad\<close>, what the packet buffer holds.
\<close>

function blocks :: "u8 list \<Rightarrow> u8 list \<Rightarrow> u8 list list" where
  "blocks pad data =
     (if data = [] then []
      else let b = take XMODEM_BLOCK_SIZE data @ drop (length (take XMODEM_BLOCK_SIZE data)) pad
        in b # blocks b (drop XMODEM_BLOCK_SIZE data))"
  by pat_completeness auto
termination
  by (relation "measure (\<lambda>(pad, data). length data)") auto

declare blocks.simps [simp del]

primrec frames :: "u8 \<Rightarrow> u8 list list \<Rightarrow> u8 list list" where
  "frames n [] = []"
| "frames n (b # bs) = frame n b # frames (n + 1) bs"

lemma length_frames [simp]: "length (frames n bs) = length bs"
  by (induction bs arbitrary: n) auto

lemma frames_append: "frames n (bs @ cs) = frames n bs @ frames (n + of_nat (length bs)) cs"
  by (induction bs arbitrary: n) (auto simp: algebra_simps)

lemma blocks_Nil [simp]: "blocks pad [] = []"
  by (simp add: blocks.simps)

lemma blocks_Cons:
  assumes "data \<noteq> []"
  obtains b where "blocks pad data = b # blocks b (drop 128 data)"
    and "b = take 128 data @ drop (length (take 128 data)) pad"
  using assms by (simp add: blocks.simps [of pad data] Let_def)

lemma length_blocks: "length (blocks pad data) = (length data + 127) div 128"
proof (induction data arbitrary: pad rule: length_induct)
  case (1 data)
  show ?case
  proof (cases "data = []")
    case False
    then obtain b where b: "blocks pad data = b # blocks b (drop 128 data)"
      by (rule blocks_Cons)
    have len: "length (drop 128 data) < length data" using False by simp
    have "length (blocks pad data) = Suc ((length data - 128 + 127) div 128)"
      using 1 [rule_format, OF len] by (simp add: b)
    moreover have "Suc ((n - 128 + 127) div 128) = (n + 127) div 128" if "0 < n" for n :: nat
    proof (cases "n \<le> 128")
      case True
      with that obtain m where "n = Suc m" "m < 128" by (cases n) auto
      moreover have "(m + 128) div 128 = 1" if "m < 128" using that by simp
      ultimately show ?thesis by (simp add: add.commute)
    next
      case False
      then obtain m where "n = m + 128" by (metis le_add_diff_inverse2 nat_le_linear)
      then show ?thesis by simp
    qed
    ultimately show ?thesis using False by simp
  qed simp
qed

lemma blocks_128:
  "length pad = 128 \<Longrightarrow> b \<in> set (blocks pad data) \<Longrightarrow> length b = 128"
proof (induction pad data rule: blocks.induct)
  case (1 pad data)
  then show ?case
    by (auto simp: blocks.simps [of pad data] Let_def split: if_splits)
qed

lemma concat_blocks:
  "length pad = 128 \<Longrightarrow> take (length data) (concat (blocks pad data)) = data"
proof (induction data arbitrary: pad rule: length_induct)
  case (1 data)
  show ?case
  proof (cases "data = []")
    case False
    then obtain b where b: "blocks pad data = b # blocks b (drop 128 data)"
      and bd: "b = take 128 data @ drop (length (take 128 data)) pad"
      by (rule blocks_Cons)
    show ?thesis
    proof (cases "length data \<le> 128")
      case True
      then show ?thesis by (simp add: b bd)
    next
      case long: False
      then have bt: "b = take 128 data" using 1(2) by (simp add: bd)
      then have "take (length (drop 128 data)) (concat (blocks b (drop 128 data))) = drop 128 data"
        using 1(1) [rule_format, of "drop 128 data" b] False long by simp
      then show ?thesis using long by (simp add: b bt)
    qed
  qed simp
qed

section \<open>Attempts\<close>

text \<open>
  One attempt writes \<open>f\<close> and reads one answer. \<open>acked m f l\<close>: the log \<open>l\<close> is at most \<open>m\<close>
  attempts of which the last, and only the last, is answered by \<open>ACK\<close>. \<open>unacked m f l\<close>:
  \<open>m\<close> attempts, none of them answered by \<open>ACK\<close>.
\<close>

definition attempt :: "u8 list \<Rightarrow> xev \<Rightarrow> xev list" where
  "attempt f ev = map Put f @ [ev]"

definition answer :: "xev \<Rightarrow> bool" where
  "answer ev \<longleftrightarrow> (case ev of Got _ \<Rightarrow> True | NoByte \<Rightarrow> True | _ \<Rightarrow> False)"

definition unacked :: "nat \<Rightarrow> u8 list \<Rightarrow> xev list \<Rightarrow> bool" where
  "unacked m f l \<longleftrightarrow> (\<exists>evs. length evs = m \<and> (\<forall>ev \<in> set evs. answer ev \<and> ev \<noteq> Got ACK) \<and>
     l = concat (map (attempt f) evs))"

definition acked :: "nat \<Rightarrow> u8 list \<Rightarrow> xev list \<Rightarrow> bool" where
  "acked m f l \<longleftrightarrow> (\<exists>k l'. k < m \<and> unacked k f l' \<and> l = l' @ attempt f (Got ACK))"

lemma puts_map_Put [simp]: "puts (map Put bs) = bs"
  by (induction bs) auto

lemma gots_map_Put [simp]: "gots (map Put bs) = []"
  by (induction bs) auto

lemma puts_attempt: "answer ev \<Longrightarrow> puts (attempt f ev) = f"
  by (auto simp: attempt_def answer_def split: xev.splits)

lemma puts_unacked: "unacked m f l \<Longrightarrow> puts l = concat (replicate m f)"
proof -
  have "puts (concat (map (attempt f) evs)) = concat (replicate (length evs) f)"
    if "\<forall>ev \<in> set evs. answer ev" for evs
    using that by (induction evs) (auto simp: puts_attempt)
  then show "unacked m f l \<Longrightarrow> puts l = concat (replicate m f)"
    by (auto simp: unacked_def)
qed

lemma puts_acked:
  assumes "acked m f l"
  obtains k where "1 \<le> k" "k \<le> m" "puts l = concat (replicate k f)"
proof -
  from assms obtain k l' where k: "k < m" "unacked k f l'" "l = l' @ attempt f (Got ACK)"
    by (auto simp: acked_def)
  then have "puts l = concat (replicate (Suc k) f)"
    by (simp add: puts_unacked puts_attempt answer_def flip: replicate_append_same)
  with k(1) show thesis by (intro that [of "Suc k"]) auto
qed

lemma unacked_0 [simp]: "unacked 0 f []"
  by (simp add: unacked_def)

lemma unacked_Suc:
  "answer ev \<Longrightarrow> ev \<noteq> Got ACK \<Longrightarrow> unacked m f l \<Longrightarrow> unacked (Suc m) f (attempt f ev @ l)"
  unfolding unacked_def by (metis (no_types, lifting) concat.simps(2) insert_iff length_Cons
      list.simps(15) list.simps(9))

lemma acked_now: "0 < m \<Longrightarrow> acked m f (attempt f (Got ACK))"
  unfolding acked_def by (rule exI [of _ 0], rule exI [of _ "[]"]) simp

lemma acked_later:
  "answer ev \<Longrightarrow> ev \<noteq> Got ACK \<Longrightarrow> acked m f l \<Longrightarrow> acked (Suc m) f (attempt f ev @ l)"
  unfolding acked_def using unacked_Suc by (metis Suc_mono append.assoc)

section \<open>The sender over the traced port\<close>

lemma fold_putc_traced:
  "fold (xm_putc (traced p)) bs x =
     x\<lparr>dev := (fold (x_putc p) bs (fst (dev x)), snd (dev x) @ map Put bs)\<rparr>"
proof (induction bs arbitrary: x)
  case (Cons b bs)
  then show ?case by (cases "dev x") (simp add: xm_putc_def)
qed simp

lemma xm_getc_traced:
  assumes "xm_getc (traced p) ch x = ((r, b), y)"
  shows "pkt_buf y = pkt_buf x" and "snd (dev y) = snd (dev x) @ [if r < 0 then NoByte else Got b]"
    and "x_getc p ch (fst (dev x)) = ((r, b), fst (dev y))"
  using assms by (cases "dev x"; auto simp: xm_getc_def traced_getc split: prod.splits)+

lemma send_pkt_traced:
  assumes "pkt_wf (pkt_buf x)" and "length data \<le> 128"
    and "xmodem_send_pkt (traced p) data n x = (r, y)"
    and "block = data @ drop (length data) (pkt_data (pkt_buf x))"
  shows "pkt_wf (pkt_buf y)" and "pkt_data (pkt_buf y) = block"
    and "snd (dev y) = snd (dev x) @ map Put (frame n block)"
  using assms(1,2,4) assms(3) [unfolded xmodem_send_pkt_def Let_def fold_putc_traced]
  by (auto simp: pkt_wf_def mem_write_def frame_def pkt_bytes_def and_ff)

text \<open>An answer \<open>rsp\<close> that differs from the preset \<open>ERR\<close> was read from the line.\<close>

context xport_laws
begin

lemma getc_traced_answer:
  assumes "xm_getc (traced p) ERR x = ((r, rsp), y)" and "c \<noteq> ERR"
  obtains ev where "answer ev" and "rsp = c \<longleftrightarrow> ev = Got c" and "snd (dev y) = snd (dev x) @ [ev]"
proof (rule that [of "if r < 0 then NoByte else Got rsp"])
  from xm_getc_traced(3) [OF assms(1)] have "r < 0 \<Longrightarrow> rsp = ERR" by (rule getc_keep)
  then show "rsp = c \<longleftrightarrow> (if r < 0 then NoByte else Got rsp) = Got c" using assms(2) by auto
qed (simp_all add: answer_def xm_getc_traced(2) [OF assms(1)])

lemma send_pkt_loop_traced:
  assumes "pkt_wf (pkt_buf x)" and "length data \<le> 128"
    and "send_pkt_loop (traced p) data n m x = (r, y)"
    and "block = data @ drop (length data) (pkt_data (pkt_buf x))"
  shows "pkt_wf (pkt_buf y) \<and> (0 < m \<longrightarrow> pkt_data (pkt_buf y) = block) \<and>
    (\<exists>l. snd (dev y) = snd (dev x) @ l \<and>
      (r = 0 \<and> acked m (frame n block) l \<or> r = - 1 \<and> unacked m (frame n block) l))"
  using assms
proof (induction m arbitrary: x)
  case (Suc m)
  obtain r1 x1 where 1: "xmodem_send_pkt (traced p) data n x = (r1, x1)" by fastforce
  note s = send_pkt_traced [OF Suc.prems(1,2) 1 Suc.prems(4)]
  obtain r2 rsp x2 where 2: "xm_getc (traced p) ERR x1 = ((r2, rsp), x2)"
    by (metis surj_pair)
  note g = xm_getc_traced [OF 2]
  obtain ev where ev: "answer ev" "rsp = ACK \<longleftrightarrow> ev = Got ACK" "snd (dev x2) = snd (dev x1) @ [ev]"
    by (rule getc_traced_answer [OF 2, of ACK]) auto
  have log: "snd (dev x2) = snd (dev x) @ attempt (frame n block) ev"
    by (simp add: ev s attempt_def)
  show ?case
  proof (cases "rsp = ACK")
    case True
    then have "r = 0" and "y = x2" using Suc.prems(3) by (auto simp: 1 2)
    with True ev(2) show ?thesis
      using s(1,2) g(1) log by (auto simp: acked_now)
  next
    case False
    then have loop: "send_pkt_loop (traced p) data n m x2 = (r, y)"
      using Suc.prems(3) by (simp add: 1 2)
    have bl: "block = data @ drop (length data) (pkt_data (pkt_buf x2))"
      using s(2) g(1) Suc.prems(4) by simp
    have wf: "pkt_wf (pkt_buf x2)" using s(1) g(1) by simp
    note IH = Suc.IH [OF wf Suc.prems(2) loop bl]
    have "pkt_data (pkt_buf y) = block"
    proof (cases m)
      case 0
      then show ?thesis using loop s(2) g(1) by auto
    qed (use IH in auto)
    then show ?thesis
      using IH False ev by (auto simp: log intro: acked_later unacked_Suc)
  qed
qed simp

lemma send_byte_loop_traced:
  assumes "send_byte_loop (traced p) c m x = (r, y)"
  shows "pkt_buf y = pkt_buf x \<and> (\<exists>l. snd (dev y) = snd (dev x) @ l \<and>
      (r = 0 \<and> acked m [c] l \<or> r = - 1 \<and> unacked m [c] l))"
  using assms
proof (induction m arbitrary: x)
  case (Suc m)
  obtain r2 rsp x2 where 2: "xm_getc (traced p) ERR (xm_putc (traced p) c x) = ((r2, rsp), x2)"
    by (metis surj_pair)
  obtain ev where ev: "answer ev" "rsp = ACK \<longleftrightarrow> ev = Got ACK"
      "snd (dev x2) = snd (dev (xm_putc (traced p) c x)) @ [ev]"
    by (rule getc_traced_answer [OF 2, of ACK]) auto
  have log: "snd (dev x2) = snd (dev x) @ attempt [c] ev"
    by (cases "dev x") (simp add: ev xm_putc_def attempt_def)
  have pk: "pkt_buf x2 = pkt_buf x"
    using xm_getc_traced(1) [OF 2] by (simp add: xm_putc_def)
  show ?case
  proof (cases "rsp = ACK")
    case True
    then have "r = 0" and "y = x2" using Suc.prems by (auto simp: 2)
    with True ev(2) show ?thesis using log pk by (auto simp: acked_now)
  next
    case False
    then have "send_byte_loop (traced p) c m x2 = (r, y)" using Suc.prems by (simp add: 2)
    from Suc.IH [OF this] False ev show ?thesis
      by (auto simp: log pk intro: acked_later unacked_Suc)
  qed
qed simp

end

section \<open>A whole transfer\<close>

text \<open>
  The log of the loop over the data: every packet acknowledged within three attempts, one
  after the other, then the end of transmission; or some of the packets acknowledged and the
  next one, or the end of transmission, given up after three attempts.
\<close>

definition sent_all :: "u8 list list \<Rightarrow> xev list \<Rightarrow> bool" where
  "sent_all fs l \<longleftrightarrow> (\<exists>ls. list_all2 (acked MAX_RETRANSMIT) fs ls \<and> l = concat ls)"

definition gave_up :: "u8 list list \<Rightarrow> xev list \<Rightarrow> bool" where
  "gave_up fs l \<longleftrightarrow> (\<exists>done f rest l1 l2. fs = done @ f # rest \<and> sent_all done l1 \<and>
     unacked MAX_RETRANSMIT f l2 \<and> l = l1 @ l2)"

lemma sent_all_Nil [simp]: "sent_all [] l \<longleftrightarrow> l = []"
  by (simp add: sent_all_def)

lemma sent_all_Cons: "acked MAX_RETRANSMIT f l \<Longrightarrow> sent_all fs m \<Longrightarrow> sent_all (f # fs) (l @ m)"
  unfolding sent_all_def by (metis concat.simps(2) list_all2_Cons)

lemma gave_up_now: "unacked MAX_RETRANSMIT f l \<Longrightarrow> gave_up (f # fs) l"
  unfolding gave_up_def by (rule exI [of _ "[]"]) auto

lemma gave_up_Cons:
  assumes "acked MAX_RETRANSMIT f l" and "gave_up fs m"
  shows "gave_up (f # fs) (l @ m)"
proof -
  from assms(2) obtain ok g rest l1 l2 where g: "fs = ok @ g # rest" "sent_all ok l1"
      "unacked MAX_RETRANSMIT g l2" "m = l1 @ l2"
    unfolding gave_up_def by blast
  have "sent_all (f # ok) (l @ l1)" by (rule sent_all_Cons [OF assms(1) g(2)])
  with g show ?thesis unfolding gave_up_def by (metis append.assoc append_Cons)
qed

context xport_laws
begin

lemma transmit_loop_traced:
  assumes "pkt_wf (pkt_buf x)" and "transmit_loop (traced p) data n x = (r, y)"
    and "bs = blocks (pkt_data (pkt_buf x)) data"
  shows "\<exists>l. snd (dev y) = snd (dev x) @ l \<and>
    (r = (uint (n + of_nat (length bs)) - 1) * 128 \<and> sent_all (frames n bs @ [[EOT]]) l \<or>
     r = - 1 \<and> gave_up (frames n bs @ [[EOT]]) l)"
  using assms
proof (induction data arbitrary: n x bs rule: length_induct)
  case (1 data)
  show ?case
  proof (cases "data = []")
    case True
    obtain r1 x1 where s: "send_byte_loop (traced p) EOT MAX_RETRANSMIT x = (r1, x1)" by fastforce
    from send_byte_loop_traced [OF this] obtain l where l: "snd (dev x1) = snd (dev x) @ l"
      "r1 = 0 \<and> acked MAX_RETRANSMIT [EOT] l \<or> r1 = - 1 \<and> unacked MAX_RETRANSMIT [EOT] l" by blast
    have "y = x1" and "r = (if r1 < 0 then - 1 else (uint n - 1) * 128)"
      using 1(3) True s
      by (auto simp: transmit_loop.simps [of _ "[]"] xmodem_send_byte_with_retry_def split: if_splits)
    with l show ?thesis
      using sent_all_Cons [of "[EOT]" l "[]" "[]"] gave_up_now [of "[EOT]" l "[]"] True 1(4)
      by auto
  next
    case False
    define m where "m = (if 128 \<le> length data then 128 else length data)"
    have tm: "take m data = take 128 data" "drop m data = drop 128 data" by (auto simp: m_def)
    obtain b where b: "bs = b # blocks b (drop 128 data)"
      "b = take 128 data @ drop (length (take 128 data)) (pkt_data (pkt_buf x))"
      using 1(4) blocks_Cons [OF False] by metis
    obtain r1 x1 where s: "send_pkt_loop (traced p) (take 128 data) n MAX_RETRANSMIT x = (r1, x1)"
      by fastforce
    have l128: "length (take 128 data) \<le> 128" by simp
    from send_pkt_loop_traced [OF 1(2) l128 s b(2)] obtain l where
      wf: "pkt_wf (pkt_buf x1)" "pkt_data (pkt_buf x1) = b" and l: "snd (dev x1) = snd (dev x) @ l"
      "r1 = 0 \<and> acked MAX_RETRANSMIT (frame n b) l \<or> r1 = - 1 \<and> unacked MAX_RETRANSMIT (frame n b) l"
      by auto
    have step: "transmit_loop (traced p) data n x =
        (if r1 < 0 then (- 1, x1) else transmit_loop (traced p) (drop 128 data) (n + 1) x1)"
      using False s
      by (simp add: transmit_loop.simps [of _ data] xmodem_send_pkt_with_retry_def Let_def tm
          flip: m_def)
    show ?thesis
    proof (cases "r1 < 0")
      case True
      with l step 1(3) show ?thesis by (auto simp: b(1) intro!: gave_up_now)
    next
      case ok: False
      have "length (drop 128 data) < length data" using False by simp
      moreover have "transmit_loop (traced p) (drop 128 data) (n + 1) x1 = (r, y)"
        using 1(3) step ok by simp
      ultimately obtain l' where l': "snd (dev y) = snd (dev x1) @ l'"
        "r = (uint (n + 1 + of_nat (length (blocks b (drop 128 data)))) - 1) * 128 \<and>
           sent_all (frames (n + 1) (blocks b (drop 128 data)) @ [[EOT]]) l' \<or>
         r = - 1 \<and> gave_up (frames (n + 1) (blocks b (drop 128 data)) @ [[EOT]]) l'"
        using 1(1) wf by (metis (no_types, lifting))
      have "acked MAX_RETRANSMIT (frame n b) l" using l ok by auto
      then show ?thesis
        using l' l(1) sent_all_Cons [of "frame n b" l] gave_up_Cons [of "frame n b" l]
        by (auto simp: b(1) algebra_simps)
    qed
  qed
qed

text \<open>Waiting for \<open>C\<close>: at most three reads, of which only the last can be a \<open>C\<close>.\<close>

lemma wait_start_traced:
  assumes "wait_start (traced p) m x = (ok, y)"
  shows "pkt_buf y = pkt_buf x \<and> (\<exists>evs. length evs \<le> m \<and> puts evs = [] \<and>
     snd (dev y) = snd (dev x) @ evs \<and>
     (ok \<longrightarrow> evs \<noteq> [] \<and> last evs = Got char_C) \<and> (\<not> ok \<longrightarrow> Got char_C \<notin> set evs))"
  using assms
proof (induction m arbitrary: x)
  case (Suc m)
  obtain r rsp x2 where 2: "xm_getc (traced p) ERR x = ((r, rsp), x2)"
    by (metis surj_pair)
  obtain ev where ev: "answer ev" "rsp = char_C \<longleftrightarrow> ev = Got char_C" "snd (dev x2) = snd (dev x) @ [ev]"
    by (rule getc_traced_answer [OF 2, of char_C]) auto
  have pe: "puts (ev # l) = puts l" for l using ev(1) by (auto simp: answer_def split: xev.splits)
  have pk: "pkt_buf x2 = pkt_buf x" by (rule xm_getc_traced(1) [OF 2])
  show ?case
  proof (cases "rsp = char_C")
    case True
    then show ?thesis using Suc.prems ev pe pk by (auto simp: 2 intro!: exI [of _ "[ev]"])
  next
    case False
    then have "wait_start (traced p) m x2 = (ok, y)" using Suc.prems by (simp add: 2)
    from Suc.IH [OF this] obtain evs where "length evs \<le> m" "puts evs = []"
      "pkt_buf y = pkt_buf x2" "snd (dev y) = snd (dev x2) @ evs"
      "ok \<longrightarrow> evs \<noteq> [] \<and> last evs = Got char_C" "\<not> ok \<longrightarrow> Got char_C \<notin> set evs" by blast
    then show ?thesis using ev pe pk False
      by (intro conjI exI [of _ "ev # evs"]) auto
  qed
qed simp

end

text \<open>
  The log of \<open>xmodem_transmit_package\<close> with the blocks \<open>bs\<close> and the result \<open>r\<close>. The result
  is what the code computes from its 8 bit packet number.
\<close>

definition transfer_log :: "u8 list list \<Rightarrow> int \<Rightarrow> xev list \<Rightarrow> bool" where
  "transfer_log bs r l \<longleftrightarrow>
     (\<exists>evs l'. l = Timeout TIMEOUT_STD # evs @ l' \<and> length evs \<le> MAX_RETRANSMIT \<and> puts evs = [] \<and>
       (r = - 1 \<and> Got char_C \<notin> set evs \<and> l' = []
        \<or> evs \<noteq> [] \<and> last evs = Got char_C \<and>
          (r = (int (length bs + 1) mod 256 - 1) * 128 \<and> sent_all (frames 1 bs @ [[EOT]]) l'
           \<or> r = - 1 \<and> gave_up (frames 1 bs @ [[EOT]]) l')))"

context xport_laws
begin

lemma transmit_package_log:
  assumes "xm_wf x" and "xmodem_transmit_package p data x = (r, y)"
    and "bs = blocks (pkt_data (pkt_buf x)) data"
  obtains l where "xmodem_transmit_package (traced p) data (with_log x []) = (r, with_log y l)"
    and "transfer_log bs r l"
proof -
  obtain l where l: "xmodem_transmit_package (traced p) data (with_log x []) = (r, with_log y l)"
    by (rule transmit_traced [OF assms(2)])
  define x1 where "x1 = xm_set_timeout (traced p) TIMEOUT_STD (with_log x [])"
  have x1: "pkt_buf x1 = pkt_buf x" "snd (dev x1) = [Timeout TIMEOUT_STD]"
    by (simp_all add: x1_def xm_set_timeout_def traced_set_timeout)
  obtain ok x2 where w: "wait_start (traced p) MAX_RETRANSMIT x1 = (ok, x2)" by fastforce
  from wait_start_traced [OF this] obtain evs where evs: "length evs \<le> MAX_RETRANSMIT" "puts evs = []"
    "snd (dev x2) = Timeout TIMEOUT_STD # evs" "pkt_buf x2 = pkt_buf x"
    "ok \<longrightarrow> evs \<noteq> [] \<and> last evs = Got char_C" "\<not> ok \<longrightarrow> Got char_C \<notin> set evs"
    by (auto simp: x1)
  have run: "(if \<not> ok then (- 1, x2) else transmit_loop (traced p) data 1 x2) = (r, with_log y l)"
    using l by (simp add: xmodem_transmit_package_def w flip: x1_def)
  have "transfer_log bs r l"
  proof (cases ok)
    case True
    have wf2: "pkt_wf (pkt_buf x2)" using assms(1) evs(4) by (simp add: xm_wf_def)
    have run2: "transmit_loop (traced p) data 1 x2 = (r, with_log y l)" using run True by simp
    have bs2: "bs = blocks (pkt_data (pkt_buf x2)) data" using assms(3) evs(4) by simp
    from transmit_loop_traced [OF wf2 run2 bs2] obtain l' where
      "l = Timeout TIMEOUT_STD # evs @ l'"
      "r = (uint (1 + of_nat (length bs) :: u8) - 1) * 128 \<and> sent_all (frames 1 bs @ [[EOT]]) l' \<or>
       r = - 1 \<and> gave_up (frames 1 bs @ [[EOT]]) l'"
      using evs(3) by auto
    moreover have "uint (1 + of_nat (length bs) :: u8) = int (length bs + 1) mod 256"
    proof -
      have "uint (of_nat (length bs + 1) :: u8) = int (length bs + 1) mod 256"
        unfolding unsigned_of_nat by (simp add: take_bit_eq_mod zmod_int)
      then show ?thesis by simp
    qed
    ultimately show ?thesis using evs True unfolding transfer_log_def by auto
  next
    case False
    then show ?thesis using evs run unfolding transfer_log_def with_log_def by auto
  qed
  with l show thesis by (rule that)
qed

end

section \<open>The bytes on the line\<close>

text \<open>\<open>repeated ks fs\<close>: each packet once and \<open>k\<close> more times.\<close>

definition repeated :: "nat list \<Rightarrow> u8 list list \<Rightarrow> u8 list" where
  "repeated ks fs = concat (map2 (\<lambda>k f. concat (replicate (Suc k) f)) ks fs)"

lemma sent_all_puts:
  assumes "sent_all fs l"
  obtains ks where "length ks = length fs" and "puts l = repeated ks fs"
proof -
  from assms obtain ls where ls: "list_all2 (acked MAX_RETRANSMIT) fs ls" "l = concat ls"
    by (auto simp: sent_all_def)
  have "\<exists>ks. length ks = length fs \<and> puts (concat ls) = repeated ks fs"
    using ls(1)
  proof (induction rule: list_all2_induct)
    case (Cons f fs m ms)
    then obtain ks where "length ks = length fs" "puts (concat ms) = repeated ks fs" by blast
    moreover obtain k where "1 \<le> k" "puts m = concat (replicate k f)"
      by (rule puts_acked [OF Cons(1)])
    then have "puts m = concat (replicate (Suc (k - 1)) f)" by simp
    ultimately show ?case by (intro exI [of _ "(k - 1) # ks"]) (simp add: repeated_def)
  qed (simp add: repeated_def)
  then show thesis using ls(2) that by blast
qed

lemma repeated_snoc:
  "length ks = length fs \<Longrightarrow> repeated (ks @ [k]) (fs @ [f]) = repeated ks fs @ concat (replicate (Suc k) f)"
  by (simp add: repeated_def)

lemma transfer_log_puts:
  assumes "transfer_log bs r l" and "0 \<le> r" and "length bs \<le> 254"
  obtains ks rest where "length ks = length bs" and "puts l = repeated ks (frames 1 bs) @ EOT # rest"
    and "r = 128 * int (length bs)"
proof -
  from assms(1,2) obtain evs l' where l: "l = Timeout TIMEOUT_STD # evs @ l'" "puts evs = []"
    "r = (int (length bs + 1) mod 256 - 1) * 128" "sent_all (frames 1 bs @ [[EOT]]) l'"
    by (auto simp: transfer_log_def)
  obtain ks where ks: "length ks = length (frames 1 bs @ [[EOT]])"
      "puts l' = repeated ks (frames 1 bs @ [[EOT]])"
    by (rule sent_all_puts [OF l(4)])
  then obtain ks' k where "ks = ks' @ [k]" "length ks' = length bs"
    by (metis length_append_singleton length_frames length_Suc_conv_rev)
  then have "puts l = repeated ks' (frames 1 bs) @ EOT # concat (replicate k [EOT])"
    using ks l by (simp add: repeated_snoc)
  moreover have "r = 128 * int (length bs)" using l(3) assms(3) by simp
  ultimately show thesis using that \<open>length ks' = length bs\<close> by blast
qed

end
