(* ===== verification/Xmodem_Rx.thy ===== *)
theory Xmodem_Rx
  imports Xmodem_Tx
begin

unbundle bit_operations_syntax

text \<open>
  What the receiver accepts. Over any I/O layer, the bytes it stores are the payloads of
  packets that arrived complete, with the right checksum and in sequence, each acknowledged;
  nothing else of the buffer changes.
\<close>

section \<open>The packet buffer as bytes\<close>

lemma length_pkt_bytes: "pkt_wf k \<Longrightarrow> length (pkt_bytes k) = pkt_size"
  by (simp add: pkt_wf_def pkt_bytes_def pkt_size_def)

lemma pkt_wf_of_bytes: "length bs = pkt_size \<Longrightarrow> pkt_wf (pkt_of_bytes bs)"
  by (simp add: pkt_wf_def pkt_of_bytes_def pkt_size_def)

lemma pkt_bytes_of_bytes: "length bs = pkt_size \<Longrightarrow> pkt_bytes (pkt_of_bytes bs) = bs"
proof -
  assume l: "length bs = pkt_size"
  have "take 3 bs = [bs ! 0, bs ! 1, bs ! 2]"
    using l by (intro nth_equalityI) (auto simp: pkt_size_def less_Suc_eq numeral_eq_Suc)
  then have "bs = [bs ! 0, bs ! 1, bs ! 2] @ drop 3 bs" by (metis append_take_drop_id)
  moreover have "take 128 (drop 3 bs) @ drop 131 bs = drop 3 bs"
    using append_take_drop_id [of 128 "drop 3 bs"] by simp
  ultimately show ?thesis
    by (simp add: pkt_bytes_def pkt_of_bytes_def)
qed

lemma pkt_poke:
  assumes "pkt_wf k" and "i < pkt_size"
  shows "pkt_wf (pkt_poke i b k)" and "pkt_bytes (pkt_poke i b k) = (pkt_bytes k)[i := b]"
  using assms by (simp_all add: pkt_poke_def pkt_wf_of_bytes pkt_bytes_of_bytes length_pkt_bytes)

text \<open>The two bytes of a checksum.\<close>

lemma crc_recv_bytes:
  fixes c :: "u8 list"
  assumes "length c = 2"
  shows "push_bit 8 (ucast (c ! 0)) OR ucast (c ! 1) = crc \<longleftrightarrow>
     c = [ucast (drop_bit 8 crc), ucast (crc :: u16)]"
proof -
  obtain h l :: u8 where c: "c = [h, l]" using assms
    by (metis One_nat_def Suc_1 length_0_conv length_Suc_conv)
  have "\<not> bit l (8 + n)" for n using bit_imp_le_length [of l "8 + n"] by auto
  then have "ucast (drop_bit 8 (push_bit 8 (ucast h) OR ucast l :: u16)) = (h :: u8)"
    "ucast (push_bit 8 (ucast h) OR ucast l :: u16) = (l :: u8)"
    by (auto intro!: bit_word_eqI simp: bit_simps)
  moreover have "push_bit 8 (ucast (ucast (drop_bit 8 crc) :: u8)) OR ucast (ucast crc :: u8) = crc"
    using word16_split [of crc] by (simp add: or.commute)
  ultimately show ?thesis by (auto simp: c)
qed

text \<open>
  A packet that passes the first check has the bytes of \<open>frame\<close> after its first byte.
\<close>

lemma check_pkt_frame:
  assumes "pkt_wf k"
  shows "seq_no k = NOT (seq_no_inv k) \<and> pkt_crc_recv k = crc_xmodem (pkt_data k) \<longleftrightarrow>
    tl (pkt_bytes k) = tl (frame (seq_no k) (pkt_data k))"
proof -
  have "seq_no k = NOT (seq_no_inv k) \<longleftrightarrow> seq_no_inv k = NOT (seq_no k)" by auto
  moreover have "length (crc_u8 k) = 2" using assms by (simp add: pkt_wf_def)
  ultimately show ?thesis
    using crc_recv_bytes [of "crc_u8 k" "crc_xmodem (pkt_data k)"]
    by (auto simp: pkt_bytes_def frame_def pkt_crc_recv_def)
qed

lemma frame_fields:
  assumes "pkt_wf k" and "tl (pkt_bytes k) = tl (frame n b)" and "length b = 128"
  shows "seq_no k = n" and "pkt_data k = b"
  using assms by (auto simp: pkt_bytes_def frame_def pkt_wf_def)

lemma length_frame: "length (frame n b) = 5 + length b"
  by (simp add: frame_def)

lemma uint_pred: "uint (a :: u8) = uint b - 1 \<longleftrightarrow> a = b - 1 \<and> b \<noteq> 0"
  by (cases "b = 0") (auto, uint_arith+)

text \<open>The verdict on a complete packet, in terms of the frame it is.\<close>

lemma check_pkt_cases:
  assumes "pkt_wf k"
  obtains (bad) "check_pkt e len k = ERR" "\<nexists>n b. length b = 128 \<and> tl (pkt_bytes k) = tl (frame n b)"
  | (dup) "check_pkt e len k = DUP" "tl (pkt_bytes k) = tl (frame (e - 1) (pkt_data k))" "e \<noteq> 0"
  | (lost) "check_pkt e len k = CAN" "seq_no k \<noteq> e" "seq_no k \<noteq> e - 1 \<or> e = 0"
      "tl (pkt_bytes k) = tl (frame (seq_no k) (pkt_data k))"
  | (full) "check_pkt e len k = CAN" "tl (pkt_bytes k) = tl (frame e (pkt_data k))" "len < 128"
  | (ok) "check_pkt e len k = SOH" "tl (pkt_bytes k) = tl (frame e (pkt_data k))" "128 \<le> len"
proof (cases "seq_no k = NOT (seq_no_inv k) \<and> pkt_crc_recv k = crc_xmodem (pkt_data k)")
  case False
  then have "check_pkt e len k = ERR" by (auto simp: check_pkt_def Let_def)
  moreover have "\<nexists>n b. length b = 128 \<and> tl (pkt_bytes k) = tl (frame n b)"
    using False check_pkt_frame [OF assms] frame_fields [OF assms] by metis
  ultimately show thesis by (rule bad)
next
  case True
  then have f: "tl (pkt_bytes k) = tl (frame (seq_no k) (pkt_data k))"
    using check_pkt_frame [OF assms] by simp
  have c: "check_pkt e len k = (if seq_no k = e - 1 \<and> e \<noteq> 0 then DUP else if seq_no k \<noteq> e then CAN
      else if len < 128 then CAN else SOH)"
    using True by (simp add: check_pkt_def Let_def uint_pred)
  have "e - 1 \<noteq> e" by simp
  then show thesis
    using c f dup lost full ok by (metis linorder_not_le)
qed

section \<open>Reading over the traced port\<close>

lemma read_rest_traced:
  assumes "read_rest (traced p) i n x = (ok, y)" and "pkt_wf (pkt_buf x)" and "i + n \<le> pkt_size"
  shows "pkt_wf (pkt_buf y) \<and> (\<exists>bs e. snd (dev y) = snd (dev x) @ map Got bs @ e \<and>
    (ok \<longrightarrow> e = [] \<and> length bs = n \<and> pkt_bytes (pkt_buf y) = mem_write (pkt_bytes (pkt_buf x)) i bs) \<and>
    (\<not> ok \<longrightarrow> e = [NoByte] \<and> length bs < n))"
  using assms
proof (induction n arbitrary: i x)
  case (Suc n)
  obtain r b x1 where 1: "xm_getc (traced p) (pkt_bytes (pkt_buf x) ! i) x = ((r, b), x1)"
    by (metis surj_pair)
  note g = xm_getc_traced [OF 1]
  define x2 where "x2 = x1\<lparr>pkt_buf := pkt_poke i b (pkt_buf x1)\<rparr>"
  have i: "i < pkt_size" using Suc.prems by simp
  have wf2: "pkt_wf (pkt_buf x2)" and b2: "pkt_bytes (pkt_buf x2) = (pkt_bytes (pkt_buf x))[i := b]"
    using pkt_poke [OF Suc.prems(2) i] g(1) by (simp_all add: x2_def)
  have log2: "snd (dev x2) = snd (dev x) @ [if r < 0 then NoByte else Got b]"
    by (simp add: x2_def g)
  show ?case
  proof (cases "r < 0")
    case True
    then have "ok = False" and "y = x2" using Suc.prems(1) by (auto simp: 1 x2_def Let_def)
    then show ?thesis using wf2 log2 True by (auto intro!: exI [of _ "[]"])
  next
    case False
    then have "read_rest (traced p) (Suc i) n x2 = (ok, y)"
      using Suc.prems(1) by (auto simp: 1 x2_def Let_def)
    from Suc.IH [OF this wf2] Suc.prems(3) obtain bs e where IH: "pkt_wf (pkt_buf y)"
      "snd (dev y) = snd (dev x2) @ map Got bs @ e"
      "ok \<longrightarrow> e = [] \<and> length bs = n \<and> pkt_bytes (pkt_buf y) = mem_write (pkt_bytes (pkt_buf x2)) (Suc i) bs"
      "\<not> ok \<longrightarrow> e = [NoByte] \<and> length bs < n" by auto
    have "mem_write (c[i := b]) (Suc i) bs = mem_write c i (b # bs)" if "i < length c" for c
      using that by (simp add: mem_write_def take_Suc_conv_app_nth upd_conv_take_nth_drop min_absorb2
          add.commute)
    then show ?thesis using IH log2 False i b2 Suc.prems(2)
      by (intro conjI exI [of _ "b # bs"] exI [of _ e]) (auto simp: length_pkt_bytes)
  qed
qed (auto simp: mem_write_def intro!: exI [of _ "[]"])

lemma drain_traced:
  fixes p :: "'s xport"
  assumes "drain (traced p) c x = Some y"
  shows "pkt_buf y = pkt_buf x \<and> (\<exists>bs. snd (dev y) = snd (dev x) @ map Got bs @ [NoByte])"
  using assms
proof (induction rule: drain_induct)
  case (step f c x y)
  obtain r b x1 where g1: "xm_getc (traced p) c x = ((r, b), x1)" by (metis surj_pair)
  note g = xm_getc_traced [OF g1]
  show ?case
  proof (cases "0 \<le> r")
    case True
    then have "f b x1 = Some y" using step(2) by (simp add: g1)
    from step(1) [OF this] g True obtain bs where
      "pkt_buf y = pkt_buf x" "snd (dev y) = snd (dev x) @ map Got (b # bs) @ [NoByte]" by auto
    then show ?thesis by blast
  next
    case False
    then show ?thesis using step(2) g by (auto simp: g1 intro!: exI [of _ "[]"])
  qed
qed

definition no_puts :: "xev list \<Rightarrow> bool" where
  "no_puts l \<longleftrightarrow> puts l = []"

lemma no_puts_simps [simp]:
  "no_puts []" "no_puts (Got b # l) = no_puts l" "no_puts (NoByte # l) = no_puts l"
  "no_puts (Timeout ms # l) = no_puts l" "no_puts (Put b # l) = False"
  "no_puts (l @ m) \<longleftrightarrow> no_puts l \<and> no_puts m" "no_puts (map Got bs)"
  by (auto simp: no_puts_def) (induction bs; simp)

text \<open>
  One call of \<open>xmodem_read_pkt\<close>: its status, the buffer and what it has read, when number
  \<open>e\<close> is expected and \<open>len\<close> bytes are left at \<open>off\<close>.
\<close>

inductive rx_outcome :: "u8 \<Rightarrow> nat \<Rightarrow> u8 list \<Rightarrow> nat \<Rightarrow> u8 \<Rightarrow> u8 list \<Rightarrow> xev list \<Rightarrow> bool"
  for e :: u8 and len :: nat and buf :: "u8 list" and off :: nat where
  accepted: "length b = 128 \<Longrightarrow> 128 \<le> len \<Longrightarrow>
     rx_outcome e len buf off SOH (mem_write buf off b) (map Got (frame e b))"
| duplicate: "length b = 128 \<Longrightarrow> e \<noteq> 0 \<Longrightarrow>
     rx_outcome e len buf off DUP buf (map Got (frame (e - 1) b))"
| refused: "length b = 128 \<Longrightarrow> (n = e \<longrightarrow> len < 128) \<Longrightarrow> (n = e - 1 \<longrightarrow> e = 0) \<Longrightarrow>
     rx_outcome e len buf off CAN buf (map Got (frame n b))"
| ended: "rx_outcome e len buf off EOT buf [Got EOT]"
| corrupt: "length bs = pkt_size \<Longrightarrow> (\<nexists>n b. length b = 128 \<and> bs = frame n b) \<Longrightarrow>
     rx_outcome e len buf off ERR buf (map Got bs)"
| broken: "NoByte \<in> set l \<Longrightarrow> no_puts l \<Longrightarrow> rx_outcome e len buf off ERR buf l"

lemma rx_outcome_no_puts: "rx_outcome e len buf off st buf' l \<Longrightarrow> no_puts l"
  by (induction rule: rx_outcome.induct) auto

lemma checked_outcome:
  assumes wf: "pkt_wf k" and k: "tl (pkt_bytes k) = bs" and l: "length bs = 132"
  shows "rx_outcome e len buf off (check_pkt e len k)
    (if check_pkt e len k = SOH then mem_write buf off (pkt_data k) else buf) (map Got (SOH # bs))"
proof -
  have fr: "SOH # bs = frame n b" if "tl (pkt_bytes k) = tl (frame n b)" for n b
    using that k by (simp add: frame_def)
  have ld: "length (pkt_data k) = 128" using wf by (simp add: pkt_wf_def)
  show ?thesis
  proof (cases rule: check_pkt_cases [OF wf, of e len, case_names bad dup lost full ok])
    case bad
    have "\<nexists>n b. length b = 128 \<and> SOH # bs = frame n b"
      using bad(2) k by (metis list.sel(3))
    then show ?thesis using corrupt [of "SOH # bs"] bad(1) l by (simp add: pkt_size_def)
  next
    case dup
    show ?thesis using duplicate [OF ld dup(3)] dup(1) by (simp add: fr [OF dup(2)])
  next
    case lost
    show ?thesis using refused [OF ld, of "seq_no k" e len] lost(1-3) by (simp add: fr [OF lost(4)])
  next
    case full
    have "e = e - 1 \<longrightarrow> e = 0" by simp
    then show ?thesis using refused [OF ld, of e e len] full(1,3) by (simp add: fr [OF full(2)])
  next
    case ok
    show ?thesis using accepted [OF ld ok(3)] ok(1) by (simp add: fr [OF ok(2)])
  qed
qed

lemma set_timeout_traced [simp]:
  "pkt_buf (xm_set_timeout (traced p) ms z) = pkt_buf z"
  "snd (dev (xm_set_timeout (traced p) ms z)) = snd (dev z) @ [Timeout ms]"
  by (cases "dev z"; simp add: xm_set_timeout_def traced_set_timeout)+

text \<open>The three ways on after the first byte.\<close>

lemma read_packet_traced:
  assumes "read_rest (traced p) 1 (pkt_size - 1) x = (ok, y)" and wf: "pkt_wf (pkt_buf x)"
  shows "pkt_wf (pkt_buf y) \<and> (\<exists>bs. snd (dev y) = snd (dev x) @ map Got bs @ (if ok then [] else [NoByte]) \<and>
    (ok \<longrightarrow> length bs = 132 \<and> tl (pkt_bytes (pkt_buf y)) = bs))"
proof -
  have "1 + (pkt_size - 1) \<le> pkt_size" by (simp add: pkt_size_def)
  from read_rest_traced [OF assms this] obtain bs ev where
    r: "pkt_wf (pkt_buf y)" "snd (dev y) = snd (dev x) @ map Got bs @ ev"
    "ok \<longrightarrow> ev = [] \<and> length bs = pkt_size - 1 \<and>
      pkt_bytes (pkt_buf y) = mem_write (pkt_bytes (pkt_buf x)) 1 bs"
    "\<not> ok \<longrightarrow> ev = [NoByte]" by auto
  have "tl (mem_write (pkt_bytes (pkt_buf x)) 1 bs) = bs" if "length bs = pkt_size - 1"
    using that wf by (simp add: mem_write_def pkt_bytes_def pkt_size_def pkt_wf_def)
  then show ?thesis using r by (cases ok) (auto simp: pkt_size_def)
qed

lemma read_pkt_traced:
  assumes run: "xmodem_read_pkt (traced p) e buf off len x = Some ((st, buf'), y)"
    and wf: "pkt_wf (pkt_buf x)"
  shows "pkt_wf (pkt_buf y) \<and>
    (\<exists>l. snd (dev y) = snd (dev x) @ l \<and> rx_outcome e len buf off st buf' l)"
proof -
  obtain r c x1 where g1: "xm_getc (traced p) ERR x = ((r, c), x1)" by (metis surj_pair)
  note g = xm_getc_traced [OF g1]
  note run = run [unfolded xmodem_read_pkt_def g1 prod.case]
  consider (timeout) "r < 0" | (packet) "0 \<le> r" "c = SOH" | (last) "0 \<le> r" "c = EOT"
    | (noise) "0 \<le> r" "c \<noteq> SOH" "c \<noteq> EOT" by linarith
  then show ?thesis
  proof cases
    case timeout
    then show ?thesis using run wf g by (auto intro!: broken)
  next
    case packet
    obtain ok x2 where r2: "read_rest (traced p) 1 (pkt_size - 1) x1 = (ok, x2)" by fastforce
    from read_packet_traced [OF r2] wf g(1) obtain bs where
      x2: "pkt_wf (pkt_buf x2)" "snd (dev x2) = snd (dev x1) @ map Got bs @ (if ok then [] else [NoByte])"
        "ok \<longrightarrow> length bs = 132 \<and> tl (pkt_bytes (pkt_buf x2)) = bs" by auto
    have log: "snd (dev x2) = snd (dev x) @ map Got (SOH # bs) @ (if ok then [] else [NoByte])"
      using packet x2(2) g(2) by simp
    show ?thesis
    proof (cases ok)
      case True
      have "st = check_pkt e len (pkt_buf x2)" "y = x2"
        "buf' = (if check_pkt e len (pkt_buf x2) = SOH then mem_write buf off (pkt_data (pkt_buf x2)) else buf)"
        using run packet True unfolding r2 Let_def by (auto split: if_splits)
      then show ?thesis using checked_outcome [OF x2(1), of bs e len buf off] x2 log True by auto
    next
      case False
      then have "st = ERR" "y = x2" "buf' = buf" using run packet unfolding r2 by auto
      then show ?thesis using x2(1) log False by (auto intro!: broken)
    qed
  next
    case last
    then show ?thesis using run wf g by (auto intro!: ended)
  next
    case noise
    then obtain x2 where d: "drain (traced p) c (xm_set_timeout (traced p) 300 x1) = Some x2"
      and res: "st = ERR" "buf' = buf" "y = xm_set_timeout (traced p) 3000 x2"
      using run by (auto split: option.splits)
    from drain_traced [OF d] obtain bs where
      "pkt_buf x2 = pkt_buf x" "snd (dev x2) = snd (dev x) @ Got c # Timeout 300 # map Got bs @ [NoByte]"
      using g noise by auto
    then show ?thesis using res wf by (auto intro!: broken)
  qed
qed

section \<open>A whole reception\<close>

text \<open>
  \<open>delivers n bs l\<close>: the packets numbered from \<open>n\<close> with the payloads \<open>bs\<close> arrive in the
  log \<open>l\<close>, each as one unbroken run of its bytes, in order, each followed by an \<open>ACK\<close>.
\<close>

inductive delivers :: "u8 \<Rightarrow> u8 list list \<Rightarrow> xev list \<Rightarrow> bool" where
  none: "delivers n [] l"
| block: "length b = 128 \<Longrightarrow> delivers (n + 1) bs l \<Longrightarrow>
    delivers n (b # bs) (m @ map Got (frame n b) @ Put ACK # l)"

lemma delivers_append:
  assumes "delivers n bs l"
  shows "delivers n bs (m @ l)"
  using assms
proof cases
  case (block b bs' l' m')
  then show ?thesis using delivers.block [of b n bs' l' "m @ m'"] by simp
qed (auto intro: none)

lemma delivers_skip_put:
  assumes "delivers n bs (Put c # l)"
  shows "delivers n bs l"
  using assms
proof cases
  case (block b bs' l' m)
  then obtain m' where "m = Put c # m'" by (cases m) (auto simp: frame_def)
  then show ?thesis using block delivers.block [of b n bs' l' m'] by simp
qed (simp add: delivers.none)

lemma delivers_128: "delivers n bs l \<Longrightarrow> b \<in> set bs \<Longrightarrow> length b = 128"
  by (induction rule: delivers.induct) auto

lemma length_concat_128: "(\<And>b. b \<in> set bs \<Longrightarrow> length b = 128) \<Longrightarrow> length (concat bs) = 128 * length bs"
  by (induction bs) auto

lemma mem_write_step:
  assumes "cnt + length b + length r \<le> length buf"
  shows "mem_write (mem_write buf cnt b) (cnt + length b) r = mem_write buf cnt (b @ r)"
proof -
  have "take (cnt + length b) (mem_write buf cnt b) = take cnt buf @ b"
    using assms by (intro take_mem_write_end) simp
  moreover have "drop (cnt + length b + length r) (mem_write buf cnt b) = drop (cnt + length b + length r) buf"
    using assms by (intro drop_mem_write_above) simp_all
  ultimately show ?thesis
    by (simp add: mem_write_def [of "mem_write buf cnt b"]) (simp add: mem_write_def add.assoc)
qed

text \<open>What the loop leaves behind, started with packet \<open>e\<close> expected and \<open>len\<close> bytes left.\<close>

definition received ::
  "u8 \<Rightarrow> nat \<Rightarrow> nat \<Rightarrow> u8 list \<Rightarrow> int \<Rightarrow> u8 list \<Rightarrow> xev list \<Rightarrow> bool" where
  "received e cnt len buf retv buf' l \<longleftrightarrow>
     (\<exists>bs. delivers e bs l \<and> 128 * length bs \<le> len \<and> buf' = mem_write buf cnt (concat bs) \<and>
       (retv = - 1 \<or> retv = int (cnt + 128 * length bs) \<and> (\<exists>m. l = m @ [Got EOT])))"

lemma received_same:
  assumes "received e cnt len buf retv buf' l"
  shows "received e cnt len buf retv buf' (m @ l)"
proof -
  obtain bs where bs: "delivers e bs l" "128 * length bs \<le> len" "buf' = mem_write buf cnt (concat bs)"
    "retv = - 1 \<or> retv = int (cnt + 128 * length bs) \<and> (\<exists>m. l = m @ [Got EOT])"
    using assms by (auto simp: received_def)
  then have "retv = - 1 \<or> retv = int (cnt + 128 * length bs) \<and> (\<exists>m'. m @ l = m' @ [Got EOT])"
    by (metis append.assoc)
  then show ?thesis using bs delivers_append unfolding received_def by blast
qed

lemma received_block:
  assumes "received (e + 1) (cnt + 128) (len - 128) (mem_write buf cnt b) retv buf' (Put ACK # l)"
    and b: "length b = 128" "128 \<le> len" and room: "cnt + len \<le> length buf"
  shows "received e cnt len buf retv buf' (m @ map Got (frame e b) @ Put ACK # l)"
proof -
  obtain bs where bs: "delivers (e + 1) bs (Put ACK # l)" "128 * length bs \<le> len - 128"
    "buf' = mem_write (mem_write buf cnt b) (cnt + 128) (concat bs)"
    "retv = - 1 \<or> retv = int (cnt + 128 + 128 * length bs) \<and> (\<exists>m. Put ACK # l = m @ [Got EOT])"
    using assms(1) by (auto simp: received_def)
  have "delivers (e + 1) bs l" by (rule delivers_skip_put [OF bs(1)])
  then have "delivers e (b # bs) (m @ map Got (frame e b) @ Put ACK # l)"
    by (rule block [OF b(1)])
  moreover have "buf' = mem_write buf cnt (concat (b # bs))"
    using mem_write_step [of cnt b "concat bs" buf] delivers_128 [OF bs(1)] bs(2,3) b room
      length_concat_128 [of bs] by simp
  moreover have "128 * length (b # bs) \<le> len" using bs(2) b(2) by simp
  moreover have "retv = - 1 \<or> retv = int (cnt + 128 * length (b # bs)) \<and>
      (\<exists>m'. m @ map Got (frame e b) @ Put ACK # l = m' @ [Got EOT])"
    using bs(4) by (auto simp: Cons_eq_append_conv) 
  ultimately show ?thesis unfolding received_def by blast
qed

lemma receive_loop_traced:
  assumes "receive_loop (traced p) e cmd nak err cnt buf len x = Some ((retv, cmd', buf'), y)"
    and "pkt_wf (pkt_buf x)" and "cnt + len \<le> length buf"
  shows "pkt_wf (pkt_buf y) \<and> (0 \<le> retv \<longrightarrow> cmd' = ACK) \<and>
    (\<exists>l. snd (dev y) = snd (dev x) @ l \<and> received e cnt len buf retv buf' l \<and>
      (err < 5 \<longrightarrow> (\<exists>l'. l = Put cmd # l')))"
  using assms
proof (induction "((retv, cmd', buf'), y)" rule: receive_loop_induct)
  case (step f e cmd nak err cnt buf len x)
  have start: "received e cnt len buf (- 1) buf l" for l
    unfolding received_def by (rule exI [of _ "[]"]) (simp add: delivers.none mem_write_def)
  show ?case
  proof (cases "err < 5")
    case True
    then obtain st b x1 where
      r: "xmodem_read_pkt (traced p) e buf cnt len (xm_putc (traced p) cmd x) = Some ((st, b), x1)"
      using step(2) by (auto split: option.splits)
    have "pkt_wf (pkt_buf (xm_putc (traced p) cmd x))" using step(3) by (simp add: xm_putc_def)
    from read_pkt_traced [OF r this] obtain l where wf: "pkt_wf (pkt_buf x1)"
      and log: "snd (dev x1) = snd (dev x) @ Put cmd # l" and out: "rx_outcome e len buf cnt st b l"
      by (cases "dev x") (auto simp: xm_putc_def)
    note run = step(2) [unfolded r option.case prod.case if_P [OF True]]
    note again = step(1) [OF _ wf]
    from out show ?thesis
    proof cases
      case (accepted d)
      have len: "length b = length buf" using accepted step(4) by simp
      have "f (e + 1) ACK NAK 0 (cnt + 128) b (len - 128) x1 = Some ((retv, cmd', buf'), y)"
        using run accepted by simp
      from again [OF this] len accepted step(4) obtain l2 where "pkt_wf (pkt_buf y)"
        "0 \<le> retv \<longrightarrow> cmd' = ACK" "snd (dev y) = snd (dev x1) @ Put ACK # l2"
        "received (e + 1) (cnt + 128) (len - 128) b retv buf' (Put ACK # l2)" by auto
      with received_block [of e cnt len buf d retv buf' l2 "[Put cmd]"] accepted step(4)
      show ?thesis by (auto simp: log)
    next
      case (duplicate d)
      have "f e ACK nak err cnt buf len x1 = Some ((retv, cmd', buf'), y)"
        using run duplicate by simp
      from again [OF this step(4)] received_same [of e cnt len buf retv buf' _ "Put cmd # l"]
      show ?thesis by (auto simp: log)
    next
      case (refused d n)
      then have "y = x1" "retv = - 1" "buf' = buf" using run by auto
      then show ?thesis using wf log start by simp
    next
      case ended
      then have "y = x1" "retv = int cnt" "buf' = buf" "cmd' = ACK" using run by auto
      moreover have "received e cnt len buf (int cnt) buf (Put cmd # l)"
        unfolding received_def
        by (rule exI [of _ "[]"]) (simp add: ended delivers.none mem_write_def)
      ultimately show ?thesis using wf log by simp
    next
      case corrupt
      have "f e nak nak (err + 1) cnt buf len x1 = Some ((retv, cmd', buf'), y)"
        using run corrupt by simp
      from again [OF this step(4)] received_same [of e cnt len buf retv buf' _ "Put cmd # l"]
      show ?thesis by (auto simp: log)
    next
      case broken
      have "f e nak nak (err + 1) cnt buf len x1 = Some ((retv, cmd', buf'), y)"
        using run broken by simp
      from again [OF this step(4)] received_same [of e cnt len buf retv buf' _ "Put cmd # l"]
      show ?thesis by (auto simp: log)
    qed
  next
    case False
    then show ?thesis using step(2,3) start by auto
  qed
qed

lemma receive_package_traced:
  assumes "xmodem_receive_package (traced p) buf x = Some ((r, buf'), y)" and "pkt_wf (pkt_buf x)"
  shows "pkt_wf (pkt_buf y) \<and> (\<exists>l c. snd (dev y) = snd (dev x) @ Timeout TIMEOUT_STD # l @ [Put c] \<and>
    received 1 0 (length buf) buf r buf' l \<and> (0 \<le> r \<longrightarrow> c = ACK))"
proof -
  obtain rv cmd b x1 where
    1: "receive_loop (traced p) 1 char_C char_C 0 0 buf (length buf)
      (xm_set_timeout (traced p) TIMEOUT_STD x) = Some ((rv, cmd, b), x1)"
    and r: "r = rv" "buf' = b" "y = xm_putc (traced p) cmd x1"
    using assms(1) by (auto simp: xmodem_receive_package_def split: option.splits)
  have "pkt_buf y = pkt_buf x1" "snd (dev y) = snd (dev x1) @ [Put cmd]"
    by (cases "dev x1"; simp add: r xm_putc_def)+
  with receive_loop_traced [OF 1] assms(2) show ?thesis by (auto simp: r)
qed

text \<open>The length of the buffer and the well-formedness of the packet buffer, on any port.\<close>

lemma receive_keeps:
  assumes "xmodem_receive_package p buf x = Some ((r, buf'), y)" and "xm_wf x"
  shows "xm_wf y" and "length buf' = length buf" and "r = - 1 \<or> (0 \<le> r \<and> r \<le> int (length buf) \<and> 128 dvd r)"
proof -
  obtain l where "xmodem_receive_package (traced p) buf (with_log x []) = Some ((r, buf'), with_log y l)"
    by (rule receive_traced [OF assms(1)])
  from receive_package_traced [OF this] assms(2) obtain l' where
    wf: "pkt_wf (pkt_buf y)" and rec: "received 1 0 (length buf) buf r buf' l'"
    by (auto simp: xm_wf_def)
  then obtain bs where bs: "delivers 1 bs l'" "128 * length bs \<le> length buf"
    "buf' = mem_write buf 0 (concat bs)" "r = - 1 \<or> r = int (128 * length bs)"
    by (auto simp: received_def)
  show "xm_wf y" using wf by (simp add: xm_wf_def)
  show "length buf' = length buf"
    using bs(2) length_concat_128 [OF delivers_128 [OF bs(1)]] by (simp add: bs(3))
  show "r = - 1 \<or> (0 \<le> r \<and> r \<le> int (length buf) \<and> 128 dvd r)"
    using bs(2,4) by auto
qed

end
