(* ===== verification/Serial_Io.thy ===== *)
theory Serial_Io
  imports Xmodem_Port
begin

unbundle bit_operations_syntax

text \<open>
  The Unix serial port, src/qda/serial_io.c. The system calls are the parameter \<open>os\<close>; the
  two static variables and the outside world are the state. The flags of a \<open>termios\<close> are
  symbolic, as the program only names them.
\<close>

section \<open>Data\<close>

datatype cflag = CS8 | CREAD | CLOCAL

datatype baud = B0 | B1200 | B2400 | B4800 | B9600 | B19200 | B38400 | B57600 | B115200

record termios =
  c_iflag :: u32
  c_oflag :: u32
  c_cflag :: "cflag set"
  c_lflag :: u32
  c_vmin :: u8
  c_vtime :: u8
  c_ospeed :: baud
  c_ispeed :: baud

definition termios0 :: termios where
  "termios0 = \<lparr>c_iflag = 0, c_oflag = 0, c_cflag = {}, c_lflag = 0, c_vmin = 0, c_vtime = 0,
     c_ospeed = B0, c_ispeed = B0\<rparr>"

text \<open>
  The system calls: \<open>read(fd, &ch, 1)\<close> takes and returns the content of \<open>ch\<close>,
  \<open>tcgetattr\<close> and the modem line request \<open>TIOCMGET\<close> likewise. A path may be \<open>NULL\<close>.
\<close>

record 'w tty_os =
  os_read :: "int \<Rightarrow> u8 \<Rightarrow> 'w \<Rightarrow> (int \<times> u8) \<times> 'w"
  os_write :: "int \<Rightarrow> u8 \<Rightarrow> 'w \<Rightarrow> int \<times> 'w"
  os_open :: "string option \<Rightarrow> 'w \<Rightarrow> int \<times> 'w"
  os_isatty :: "int \<Rightarrow> 'w \<Rightarrow> int \<times> 'w"
  os_tcgetattr :: "int \<Rightarrow> termios \<Rightarrow> 'w \<Rightarrow> (int \<times> termios) \<times> 'w"
  os_tcsetattr :: "int \<Rightarrow> termios \<Rightarrow> 'w \<Rightarrow> int \<times> 'w"
  os_tiocmget :: "int \<Rightarrow> u32 \<Rightarrow> 'w \<Rightarrow> (int \<times> u32) \<times> 'w"
  os_tiocmset :: "int \<Rightarrow> u32 \<Rightarrow> 'w \<Rightarrow> int \<times> 'w"
  os_usleep :: "nat \<Rightarrow> 'w \<Rightarrow> 'w"
  os_signal :: "'w \<Rightarrow> 'w"
  os_close :: "int \<Rightarrow> 'w \<Rightarrow> int \<times> 'w"

record 'w serial =
  serial_handle :: int
  tio_initial :: termios
  world :: 'w

definition ETIMEDOUT :: int where "ETIMEDOUT = 110"
definition EIO :: int where "EIO = 5"

definition TIOCM_RTS :: u32 where "TIOCM_RTS = 0x004"

section \<open>The XMODEM I/O layer\<close>

definition xmodem_putc :: "'w tty_os \<Rightarrow> u8 \<Rightarrow> 'w serial \<Rightarrow> 'w serial" where
  "xmodem_putc os ch s = s\<lparr>world := snd (os_write os (serial_handle s) ch (world s))\<rparr>"

definition xmodem_getc :: "'w tty_os \<Rightarrow> u8 \<Rightarrow> 'w serial \<Rightarrow> (int \<times> u8) \<times> 'w serial" where
  "xmodem_getc os ch s =
     (case os_read os (serial_handle s) ch (world s) of
        ((retv, ch'), w) \<Rightarrow>
          ((if retv = 1 then 0 else if retv = 0 then - ETIMEDOUT else - EIO, ch'), s\<lparr>world := w\<rparr>))"

text \<open>\<open>VTIME\<close> is an \<open>unsigned char\<close>, in tenths of a second.\<close>

definition xmodem_set_timeout :: "'w tty_os \<Rightarrow> int \<Rightarrow> 'w serial \<Rightarrow> int \<times> 'w serial" where
  "xmodem_set_timeout os ms s =
     (case os_tcgetattr os (serial_handle s) termios0 (world s) of
        ((r, tio), w) \<Rightarrow>
          if r < 0 then (- 1, s\<lparr>world := w\<rparr>)
          else (case os_tcsetattr os (serial_handle s)
                       (tio\<lparr>c_vtime := word_of_int (sgn ms * (\<bar>ms\<bar> div 100))\<rparr>) w of
                  (r, w) \<Rightarrow> (r, s\<lparr>world := w\<rparr>)))"

definition serial_xport :: "'w tty_os \<Rightarrow> 'w serial xport" where
  "serial_xport os = \<lparr>x_getc = xmodem_getc os, x_putc = xmodem_putc os,
     x_set_timeout = xmodem_set_timeout os\<rparr>"

section \<open>Opening, detaching, closing\<close>

definition baud_of_speed :: "int \<Rightarrow> baud option" where
  "baud_of_speed speed =
    (if speed = 1200 then Some B1200
     else if speed = 2400 then Some B2400
     else if speed = 4800 then Some B4800
     else if speed = 9600 then Some B9600
     else if speed = 19200 then Some B19200
     else if speed = 38400 then Some B38400
     else if speed = 57600 then Some B57600
     else if speed = 115200 then Some B115200
     else None)"

definition serial_tio :: termios where
  "serial_tio = termios0\<lparr>c_iflag := 0, c_oflag := 0, c_cflag := {CS8, CREAD, CLOCAL},
     c_lflag := 0, c_vmin := 0, c_vtime := 30\<rparr>"

definition serial_io_open :: "'w tty_os \<Rightarrow> string option \<Rightarrow> int \<Rightarrow> 'w serial \<Rightarrow> int \<times> 'w serial" where
  "serial_io_open os path speed s =
     (case os_open os path (world s) of (h, w) \<Rightarrow>
      let s = s\<lparr>serial_handle := h, world := w\<rparr> in
      if h = - 1 then (- 1, s) else
      case os_isatty os h (world s) of (r, w) \<Rightarrow>
      let s = s\<lparr>world := w\<rparr> in
      if r \<noteq> 1 then (- 1, s) else
      case os_tcgetattr os h (tio_initial s) (world s) of ((r, t), w) \<Rightarrow>
      let s = s\<lparr>tio_initial := t, world := w\<rparr> in
      if r \<noteq> 0 then (- 1, s) else
      let s = s\<lparr>world := os_signal os (world s)\<rparr> in
      case baud_of_speed speed of None \<Rightarrow> (- 1, s) | Some b \<Rightarrow>
      case os_tcsetattr os h (serial_tio\<lparr>c_ospeed := b, c_ispeed := b\<rparr>) (world s) of (r, w) \<Rightarrow>
      let s = s\<lparr>world := w\<rparr> in
      if r < 0 then (- 1, s) else (serial_handle s, s))"

definition serial_detach :: "'w tty_os \<Rightarrow> 'w serial \<Rightarrow> int \<times> 'w serial" where
  "serial_detach os s =
     (case os_tiocmget os (serial_handle s) 0 (world s) of ((ret, status), w) \<Rightarrow>
      if ret < 0 then (ret, s\<lparr>world := w\<rparr>) else
      let status = status OR TIOCM_RTS in
      case os_tiocmset os (serial_handle s) status w of (ret, w) \<Rightarrow>
      if ret < 0 then (ret, s\<lparr>world := w\<rparr>) else
      let w = os_usleep os 100000 w; status = status AND NOT TIOCM_RTS in
      case os_tiocmset os (serial_handle s) status w of (ret, w) \<Rightarrow> (ret, s\<lparr>world := w\<rparr>))"

definition serial_io_close :: "'w tty_os \<Rightarrow> 'w serial \<Rightarrow> int \<times> 'w serial" where
  "serial_io_close os s =
     (if serial_handle s = - 1 then (- 1, s) else
      case os_tcsetattr os (serial_handle s) (tio_initial s) (world s) of (r, w) \<Rightarrow>
      if r \<noteq> 0 then (- 1, s\<lparr>world := w\<rparr>)
      else case os_close os (serial_handle s) w of (r, w) \<Rightarrow> (r, s\<lparr>world := w\<rparr>))"

text \<open>The handler of \<open>SIGINT\<close>: the line settings are restored before the program ends.\<close>

definition signal_handler :: "'w tty_os \<Rightarrow> int \<Rightarrow> ('w serial, unit) prog" where
  "signal_handler os sig s = (case serial_io_close os s of (_, s) \<Rightarrow> Some (Exit (128 + sig), s))"

section \<open>The contract of the system calls\<close>

text \<open>
  What POSIX says of the calls and serial_io.c relies on: \<open>read\<close> stores a byte only when it
  returns 1; \<open>tcgetattr\<close> stores the attributes of the line, \<open>tcsetattr\<close> sets them when it
  succeeds, and no other call changes them. \<open>attrs\<close> observes the attributes.
\<close>

locale posix_tty =
  fixes os :: "'w tty_os" and attrs :: "'w \<Rightarrow> termios"
  assumes read_keep: "os_read os fd ch w = ((n, ch'), w') \<Longrightarrow> n \<noteq> 1 \<Longrightarrow> ch' = ch"
    and read_attrs: "attrs (snd (os_read os fd ch w)) = attrs w"
    and write_attrs: "attrs (snd (os_write os fd b w)) = attrs w"
    and open_attrs: "attrs (snd (os_open os path w)) = attrs w"
    and isatty_attrs: "attrs (snd (os_isatty os fd w)) = attrs w"
    and signal_attrs: "attrs (os_signal os w) = attrs w"
    and usleep_attrs: "attrs (os_usleep os us w) = attrs w"
    and close_attrs: "attrs (snd (os_close os fd w)) = attrs w"
    and tiocmget_attrs: "attrs (snd (os_tiocmget os fd m w)) = attrs w"
    and tiocmset_attrs: "attrs (snd (os_tiocmset os fd m w)) = attrs w"
    and getattr: "os_tcgetattr os fd t w = ((r, t'), w') \<Longrightarrow> attrs w' = attrs w \<and> (r = 0 \<longrightarrow> t' = attrs w)"
    and setattr: "os_tcsetattr os fd t w = (r, w') \<Longrightarrow> attrs w' = (if r = 0 then t else attrs w)"
    and setattr_code: "fst (os_tcsetattr os fd t w) \<le> 0"
begin

lemma serial_getc_code: "xmodem_getc os ch s = ((r, ch'), t) \<Longrightarrow> r \<le> 0"
  by (auto simp: xmodem_getc_def ETIMEDOUT_def EIO_def split: prod.splits if_splits)

lemma serial_getc_keep: "xmodem_getc os ch s = ((r, ch'), t) \<Longrightarrow> r < 0 \<Longrightarrow> ch' = ch"
  by (auto simp: xmodem_getc_def split: prod.splits if_splits dest: read_keep)

end

text \<open>Such a port keeps the contract of the XMODEM I/O layer.\<close>

sublocale posix_tty \<subseteq> serial: xport_laws "serial_xport os"
  by unfold_locales (auto simp: serial_xport_def dest: serial_getc_code serial_getc_keep)

context posix_tty
begin

text \<open>Opening keeps the attributes for \<open>serial_io_close\<close> to restore.\<close>

lemma open_saves:
  assumes "serial_io_open os path speed s = (h, t)" and "0 \<le> h"
  shows "tio_initial t = attrs (world s)" and "serial_handle t = h"
    and "\<exists>b. baud_of_speed speed = Some b \<and>
      attrs (world t) = serial_tio\<lparr>c_ospeed := b, c_ispeed := b\<rparr>"
proof -
  obtain fd w1 where 1: "os_open os path (world s) = (fd, w1)" by fastforce
  obtain r2 w2 where 2: "os_isatty os fd w1 = (r2, w2)" by fastforce
  obtain r3 t3 w3 where 3: "os_tcgetattr os fd (tio_initial s) w2 = ((r3, t3), w3)"
    by (metis surj_pair)
  have ok: "fd \<noteq> - 1" "r2 = 1" "r3 = 0"
    using assms by (auto simp: serial_io_open_def Let_def 1 2 3 split: if_splits)
  then obtain b where b: "baud_of_speed speed = Some b"
    using assms by (cases "baud_of_speed speed") (auto simp: serial_io_open_def Let_def 1 2 3)
  obtain r4 w4 where
    4: "os_tcsetattr os fd (serial_tio\<lparr>c_ospeed := b, c_ispeed := b\<rparr>) (os_signal os w3) = (r4, w4)"
    by fastforce
  have t: "\<not> r4 < 0" "h = fd" "t = s\<lparr>serial_handle := fd, tio_initial := t3, world := w4\<rparr>"
    using assms ok by (auto simp: serial_io_open_def Let_def 1 2 3 4 b split: if_splits)
  have "r4 \<le> 0" using setattr_code [of fd _ "os_signal os w3"] 4 by (metis fst_conv)
  then have "r4 = 0" using t(1) by simp
  then show "\<exists>b. baud_of_speed speed = Some b \<and>
      attrs (world t) = serial_tio\<lparr>c_ospeed := b, c_ispeed := b\<rparr>"
    using setattr [OF 4] b by (simp add: t(3))
  have "attrs w2 = attrs (world s)"
    using open_attrs [of path "world s"] isatty_attrs [of fd w1] by (simp add: 1 2)
  then show "tio_initial t = attrs (world s)" using getattr [OF 3] ok by (simp add: t(3))
  show "serial_handle t = h" by (simp add: t)
qed

lemma close_restores:
  assumes "serial_io_close os s = (r, t)" and "r = 0"
  shows "attrs (world t) = tio_initial s"
proof -
  obtain r1 w1 where 1: "os_tcsetattr os (serial_handle s) (tio_initial s) (world s) = (r1, w1)"
    by fastforce
  obtain r2 w2 where 2: "os_close os (serial_handle s) w1 = (r2, w2)" by fastforce
  have "r1 = 0" "t = s\<lparr>world := w2\<rparr>"
    using assms by (auto simp: serial_io_close_def 1 2 split: if_splits)
  with setattr [OF 1] close_attrs [of "serial_handle s" w1] show ?thesis by (simp add: 2)
qed

end

end
