(* ===== verification/Tty_Script.thy ===== *)
theory Tty_Script
  imports Serial_Io
begin

text \<open>
  A terminal with documented behaviour as an instance of the system calls that serial_io.c
  is written against: a list of what successive reads deliver (\<open>None\<close> is a read that times
  out, as are all reads after the list), and a record of what was written and set. It shows
  that the hypotheses about the system calls can hold and is where witnesses run.
\<close>

record tty =
  tty_rx :: "u8 option list"
  tty_tx :: "u8 list"
  tty_attrs :: termios
  tty_modem :: u32
  tty_lines :: "u32 list"

definition tty_path :: string where
  "tty_path = ''/dev/ttyUSB0''"

definition tty_fd :: int where
  "tty_fd = 3"

definition script_os :: "tty tty_os" where
  "script_os = \<lparr>
     os_read = (\<lambda>fd ch w. if fd \<noteq> tty_fd then ((- 1, ch), w) else
       case tty_rx w of [] \<Rightarrow> ((0, ch), w)
       | o1 # rest \<Rightarrow> (case o1 of None \<Rightarrow> (0, ch) | Some b \<Rightarrow> (1, b), w\<lparr>tty_rx := rest\<rparr>)),
     os_write = (\<lambda>fd b w. if fd \<noteq> tty_fd then (- 1, w) else (1, w\<lparr>tty_tx := tty_tx w @ [b]\<rparr>)),
     os_open = (\<lambda>path w. if path = Some tty_path then (tty_fd, w) else (- 1, w)),
     os_isatty = (\<lambda>fd w. (if fd = tty_fd then 1 else 0, w)),
     os_tcgetattr = (\<lambda>fd t w. if fd = tty_fd then ((0, tty_attrs w), w) else ((- 1, t), w)),
     os_tcsetattr = (\<lambda>fd t w. if fd = tty_fd then (0, w\<lparr>tty_attrs := t\<rparr>) else (- 1, w)),
     os_tiocmget = (\<lambda>fd m w. if fd = tty_fd then ((0, tty_modem w), w) else ((- 1, m), w)),
     os_tiocmset = (\<lambda>fd m w. if fd = tty_fd
       then (0, w\<lparr>tty_modem := m, tty_lines := tty_lines w @ [m]\<rparr>) else (- 1, w)),
     os_usleep = (\<lambda>n w. w),
     os_signal = (\<lambda>w. w),
     os_close = (\<lambda>fd w. (0, w))\<rparr>"

text \<open>The port opened on a script, and XMODEM on it with an empty packet buffer.\<close>

definition script_serial :: "u8 option list \<Rightarrow> tty serial" where
  "script_serial rx = \<lparr>serial_handle = tty_fd, tio_initial = termios0, world =
     \<lparr>tty_rx = rx, tty_tx = [], tty_attrs = termios0, tty_modem = 0, tty_lines = []\<rparr>\<rparr>"

lemma script_os_simps [simp]:
  "os_read script_os fd ch w = (if fd \<noteq> tty_fd then ((- 1, ch), w) else
     case tty_rx w of [] \<Rightarrow> ((0, ch), w)
     | o1 # rest \<Rightarrow> (case o1 of None \<Rightarrow> (0, ch) | Some b \<Rightarrow> (1, b), w\<lparr>tty_rx := rest\<rparr>))"
  "os_write script_os fd b w = (if fd \<noteq> tty_fd then (- 1, w) else (1, w\<lparr>tty_tx := tty_tx w @ [b]\<rparr>))"
  "os_open script_os path w = (if path = Some tty_path then (tty_fd, w) else (- 1, w))"
  "os_isatty script_os fd w = (if fd = tty_fd then 1 else 0, w)"
  "os_tcgetattr script_os fd t w = (if fd = tty_fd then ((0, tty_attrs w), w) else ((- 1, t), w))"
  "os_tcsetattr script_os fd t w = (if fd = tty_fd then (0, w\<lparr>tty_attrs := t\<rparr>) else (- 1, w))"
  "os_tiocmget script_os fd m w = (if fd = tty_fd then ((0, tty_modem w), w) else ((- 1, m), w))"
  "os_tiocmset script_os fd m w = (if fd = tty_fd
     then (0, w\<lparr>tty_modem := m, tty_lines := tty_lines w @ [m]\<rparr>) else (- 1, w))"
  "os_usleep script_os n w = w" "os_signal script_os w = w" "os_close script_os fd w = (0, w)"
  by (simp_all add: script_os_def)

interpretation script_tty: posix_tty script_os tty_attrs
  by unfold_locales (auto simp: split: if_splits list.splits option.splits)

end
