(* ===== verification/Xmodem_Link.thy ===== *)
theory Xmodem_Link
  imports Xmodem_Rx Tty_Script
begin

unbundle bit_operations_syntax

text \<open>
  The two ends together, and when the receiver returns: the byte stream the sender writes,
  with its retransmissions, is read back by the receiver as the data; a line that falls
  silent makes the receiver return; a line that never does may not.
\<close>

section \<open>A line that delivers given bytes\<close>

text \<open>
  \<open>inp\<close> is what the next reads deliver: a byte, or \<open>None\<close> where a read fails. Nothing is said
  of reads after the end of the list.
\<close>

locale fed_port =
  fixes p :: "'s xport" and inp :: "'s \<Rightarrow> u8 option list"
  assumes fed_getc: "inp s = Some b # l \<Longrightarrow> \<exists>t. x_getc p ch s = ((0, b), t) \<and> inp t = l"
    and fed_timeout: "inp s = None # l \<Longrightarrow> \<exists>r t. x_getc p ch s = ((r, ch), t) \<and> r < 0 \<and> inp t = l"
    and fed_putc: "inp (x_putc p c s) = inp s"
    and fed_set_timeout: "inp (snd (x_set_timeout p ms s)) = inp s"
begin

lemma fed_xm_getc:
  assumes "inp (dev x) = Some b # l"
  obtains y where "xm_getc p ch x = ((0, b), y)" and "inp (dev y) = l" and "pkt_buf y = pkt_buf x"
  using fed_getc [OF assms, of ch] by (auto simp: xm_getc_def)

lemma fed_xm_timeout:
  assumes "inp (dev x) = None # l"
  obtains r y where "xm_getc p ch x = ((r, ch), y)" and "r < 0" and "inp (dev y) = l"
    and "pkt_buf y = pkt_buf x"
  using fed_timeout [OF assms, of ch] by (auto simp: xm_getc_def)

lemma fed_xm_putc [simp]: "inp (dev (xm_putc p c x)) = inp (dev x)" "pkt_buf (xm_putc p c x) = pkt_buf x"
  by (simp_all add: xm_putc_def fed_putc)

lemma fed_xm_set_timeout [simp]:
  "inp (dev (xm_set_timeout p ms x)) = inp (dev x)" "pkt_buf (xm_set_timeout p ms x) = pkt_buf x"
  by (simp_all add: xm_set_timeout_def fed_set_timeout)

lemma fed_fold_putc [simp]:
  "inp (dev (fold (xm_putc p) bs x)) = inp (dev x)" "pkt_buf (fold (xm_putc p) bs x) = pkt_buf x"
  by (induction bs arbitrary: x) simp_all

lemma read_rest_fed:
  assumes "inp (dev x) = map Some bs @ rest" and "pkt_wf (pkt_buf x)" and "i + length bs \<le> pkt_size"
  obtains y where "read_rest p i (length bs) x = (True, y)" and "inp (dev y) = rest"
    and "pkt_wf (pkt_buf y)" and "pkt_bytes (pkt_buf y) = mem_write (pkt_bytes (pkt_buf x)) i bs"
  using assms
proof (induction bs arbitrary: i x thesis)
  case (Cons b bs)
  obtain x1 where 1: "xm_getc p (pkt_bytes (pkt_buf x) ! i) x = ((0, b), x1)"
      "inp (dev x1) = map Some bs @ rest" "pkt_buf x1 = pkt_buf x"
    using Cons.prems(2) by (auto elim: fed_xm_getc)
  define x2 where "x2 = x1\<lparr>pkt_buf := pkt_poke i b (pkt_buf x1)\<rparr>"
  have i: "i < pkt_size" using Cons.prems(4) by simp
  note k = pkt_poke [OF Cons.prems(3) i, of b]
  have x2: "inp (dev x2) = map Some bs @ rest" "pkt_wf (pkt_buf x2)"
    "pkt_bytes (pkt_buf x2) = (pkt_bytes (pkt_buf x))[i := b]"
    using 1 k by (simp_all add: x2_def)
  have "Suc i + length bs \<le> pkt_size" using Cons.prems(4) by simp
  with x2 obtain y where y: "read_rest p (Suc i) (length bs) x2 = (True, y)" "inp (dev y) = rest"
    "pkt_wf (pkt_buf y)" "pkt_bytes (pkt_buf y) = mem_write ((pkt_bytes (pkt_buf x))[i := b]) (Suc i) bs"
    using Cons.IH by metis
  have "mem_write (c[i := b]) (Suc i) bs = mem_write c i (b # bs)" if "i < length c" for c
    using that by (simp add: mem_write_def take_Suc_conv_app_nth upd_conv_take_nth_drop min_absorb2
        add.commute)
  moreover have "read_rest p i (length (b # bs)) x = (True, y)"
    using 1(1) y(1) by (simp add: Let_def x2_def)
  ultimately show ?case
    using Cons.prems(1) y i by (simp add: length_pkt_bytes [OF Cons.prems(3)])
qed (auto simp: mem_write_def)

text \<open>Reading one frame.\<close>

lemma read_pkt_fed:
  assumes "inp (dev x) = map Some (frame n b) @ rest" and "pkt_wf (pkt_buf x)" and "length b = 128"
    and st: "st = (if n = e - 1 \<and> e \<noteq> 0 then DUP else if n \<noteq> e \<or> len < 128 then CAN else SOH)"
  obtains y where "xmodem_read_pkt p e buf off len x =
      Some ((st, if st = SOH then mem_write buf off b else buf), y)"
    and "inp (dev y) = rest" and "pkt_wf (pkt_buf y)"
proof -
  obtain x1 where 1: "xm_getc p ERR x = ((0, SOH), x1)" "inp (dev x1) = map Some (tl (frame n b)) @ rest"
      "pkt_buf x1 = pkt_buf x"
    by (rule fed_xm_getc [of x SOH "map Some (tl (frame n b)) @ rest"]) (use assms(1) in \<open>auto simp: frame_def\<close>)
  have l: "length (tl (frame n b)) = pkt_size - 1"
    using assms(3) by (simp add: frame_def pkt_size_def)
  have "1 + length (tl (frame n b)) \<le> pkt_size"
    using assms(3) by (simp add: pkt_size_def length_frame)
  then obtain y where y: "read_rest p 1 (pkt_size - 1) x1 = (True, y)" "inp (dev y) = rest"
      "pkt_wf (pkt_buf y)"
      "pkt_bytes (pkt_buf y) = mem_write (pkt_bytes (pkt_buf x)) 1 (tl (frame n b))"
    using read_rest_fed [OF 1(2)] assms(2) 1(3) by (metis l)
  have tl: "tl (pkt_bytes (pkt_buf y)) = tl (frame n b)"
    using l length_pkt_bytes [OF assms(2)]
    by (simp add: y(4) mem_write_def pkt_size_def) (simp add: pkt_bytes_def)
  note f = frame_fields [OF y(3) tl assms(3)]
  have "seq_no (pkt_buf y) = NOT (seq_no_inv (pkt_buf y)) \<and>
      pkt_crc_recv (pkt_buf y) = crc_xmodem (pkt_data (pkt_buf y))"
    using check_pkt_frame [OF y(3)] f tl by simp
  then have c: "check_pkt e len (pkt_buf y) = st"
    using f by (auto simp: check_pkt_def Let_def uint_pred st)
  show thesis
    by (rule that [OF _ y(2,3)]) (use y(1) c f(2) 1(1) in \<open>simp add: xmodem_read_pkt_def Let_def\<close>)
qed

text \<open>Any number of repetitions of the packet before the expected one is acknowledged.\<close>

lemma receive_loop_dups:
  assumes "inp (dev x) = map Some (concat (replicate k (frame (e - 1) b))) @ rest" and "e \<noteq> 0"
    and "pkt_wf (pkt_buf x)" and "length b = 128" and "err < 5"
  obtains c y where "receive_loop p e cmd nak err cnt buf len x = receive_loop p e c nak err cnt buf len y"
    and "inp (dev y) = rest" and "pkt_wf (pkt_buf y)"
  using assms
proof (induction k arbitrary: x cmd thesis)
  case (Suc k)
  have "inp (dev (xm_putc p cmd x)) = map Some (frame (e - 1) b) @ map Some (concat (replicate k (frame (e - 1) b))) @ rest"
    using Suc.prems(2) by simp
  then obtain y where y: "xmodem_read_pkt p e buf cnt len (xm_putc p cmd x) = Some ((DUP, buf), y)"
    "inp (dev y) = map Some (concat (replicate k (frame (e - 1) b))) @ rest" "pkt_wf (pkt_buf y)"
    by (rule read_pkt_fed [where st = DUP and off = cnt and e = e and buf = buf and len = len])
      (use Suc.prems in auto)
  have "receive_loop p e cmd nak err cnt buf len x = receive_loop p e ACK nak err cnt buf len y"
    using Suc.prems(6) by (subst receive_loop.simps) (simp add: y(1))
  with Suc.IH [OF _ y(2) Suc.prems(3) y(3) Suc.prems(5,6)] Suc.prems(1) show ?case by metis
qed auto

text \<open>One block sent \<open>k + 1\<close> times is stored once.\<close>

lemma receive_loop_block:
  assumes "inp (dev x) = map Some (concat (replicate (Suc k) (frame e b))) @ rest" and "e + 1 \<noteq> 0"
    and "pkt_wf (pkt_buf x)" and "length b = 128" and "err < 5" and "128 \<le> len"
  obtains c y where "receive_loop p e cmd nak err cnt buf len x =
      receive_loop p (e + 1) c NAK 0 (cnt + 128) (mem_write buf cnt b) (len - 128) y"
    and "inp (dev y) = rest" and "pkt_wf (pkt_buf y)"
proof -
  have "inp (dev (xm_putc p cmd x)) = map Some (frame e b) @ map Some (concat (replicate k (frame e b))) @ rest"
    using assms(1) by simp
  then obtain y where y: "xmodem_read_pkt p e buf cnt len (xm_putc p cmd x) =
      Some ((SOH, mem_write buf cnt b), y)"
    "inp (dev y) = map Some (concat (replicate k (frame e b))) @ rest" "pkt_wf (pkt_buf y)"
    by (rule read_pkt_fed [where st = SOH and off = cnt and e = e and buf = buf and len = len])
      (use assms in auto)
  have "receive_loop p e cmd nak err cnt buf len x =
      receive_loop p (e + 1) ACK NAK 0 (cnt + 128) (mem_write buf cnt b) (len - 128) y"
    using assms(5) by (subst receive_loop.simps) (simp add: y(1))
  moreover obtain c z where "receive_loop p (e + 1) ACK NAK 0 (cnt + 128) (mem_write buf cnt b) (len - 128) y
      = receive_loop p (e + 1) c NAK 0 (cnt + 128) (mem_write buf cnt b) (len - 128) z"
    "inp (dev z) = rest" "pkt_wf (pkt_buf z)"
    by (rule receive_loop_dups [where e = "e + 1" and b = b and k = k and x = y and err = 0])
      (use y assms in auto)
  ultimately show thesis using that by simp
qed

lemma receive_loop_fed:
  assumes "inp (dev x) = map Some (repeated ks (frames e bs)) @ Some EOT # rest"
    and "length ks = length bs" and "uint e + int (length bs) \<le> 255" and "\<forall>b \<in> set bs. length b = 128"
    and "pkt_wf (pkt_buf x)" and "err < 5" and "128 * length bs \<le> len" and "cnt + len \<le> length buf"
  shows "\<exists>y. receive_loop p e cmd nak err cnt buf len x =
      Some ((int (cnt + 128 * length bs), ACK, mem_write buf cnt (concat bs)), y)
    \<and> inp (dev y) = rest \<and> pkt_wf (pkt_buf y)"
  using assms
proof (induction bs arbitrary: ks e x cmd nak err cnt buf len)
  case Nil
  then have "inp (dev (xm_putc p cmd x)) = Some EOT # rest" by (simp add: repeated_def)
  then obtain y where y: "xm_getc p ERR (xm_putc p cmd x) = ((0, EOT), y)" "inp (dev y) = rest"
    "pkt_buf y = pkt_buf x" by (rule fed_xm_getc [of _ _ _ ERR]) auto
  then have "xmodem_read_pkt p e buf cnt len (xm_putc p cmd x) = Some ((EOT, buf), y)"
    by (simp add: xmodem_read_pkt_def)
  then show ?case using Nil y
    by (subst receive_loop.simps) (simp add: mem_write_def)
next
  case (Cons b bs)
  then obtain k ks' where ks: "ks = k # ks'" by (cases ks) auto
  have e: "uint (e + 1) = uint e + 1" using Cons.prems(3) by (simp add: uint_plus_if_size word_size)
  then have "0 < uint (e + 1)" using uint_ge_0 [of e] by linarith
  then have e1: "e + 1 \<noteq> 0" by (metis less_irrefl unsigned_0)
  define r where "r = map Some (repeated ks' (frames (e + 1) bs)) @ Some EOT # rest"
  have "inp (dev x) = map Some (concat (replicate (Suc k) (frame e b))) @ r"
    using Cons.prems(1) by (simp add: ks r_def repeated_def)
  then obtain c y where y: "receive_loop p e cmd nak err cnt buf len x =
      receive_loop p (e + 1) c NAK 0 (cnt + 128) (mem_write buf cnt b) (len - 128) y"
      "inp (dev y) = r" "pkt_wf (pkt_buf y)"
    by (rule receive_loop_block [where cmd = cmd and nak = nak and err = err and cnt = cnt
          and buf = buf and len = len]) (use Cons.prems e1 in auto)
  have b: "length b = 128" and rest: "\<forall>b \<in> set bs. length b = 128" using Cons.prems(4) by auto
  have fit: "cnt + 128 + (len - 128) \<le> length (mem_write buf cnt b)"
    using Cons.prems(7,8) b by simp
  have IHp: "length ks' = length bs" "uint (e + 1) + int (length bs) \<le> 255" "128 * length bs \<le> len - 128"
    using Cons.prems(2,3,7) e by (auto simp: ks)
  from Cons.IH [OF y(2) [unfolded r_def] IHp(1,2) rest y(3) _ IHp(3) fit, of 0 c NAK] obtain z where
    z: "receive_loop p (e + 1) c NAK 0 (cnt + 128) (mem_write buf cnt b) (len - 128) y =
      Some ((int (cnt + 128 + 128 * length bs), ACK,
        mem_write (mem_write buf cnt b) (cnt + 128) (concat bs)), z)"
    "inp (dev z) = rest" "pkt_wf (pkt_buf z)" by auto
  have "mem_write (mem_write buf cnt b) (cnt + 128) (concat bs) = mem_write buf cnt (concat (b # bs))"
    using mem_write_step [of cnt b "concat bs" buf] length_concat_128 [of bs] rest b Cons.prems(7,8)
    by simp
  with y(1) z show ?case by simp
qed

lemma receive_fed:
  assumes "inp (dev x) = map Some (repeated ks (frames 1 bs)) @ Some EOT # rest"
    and "length ks = length bs" and "length bs \<le> 254" and "\<forall>b \<in> set bs. length b = 128"
    and "xm_wf x" and "128 * length bs \<le> length buf"
  obtains y where "xmodem_receive_package p buf x =
      Some ((int (128 * length bs), mem_write buf 0 (concat bs)), y)"
    and "inp (dev y) = rest" and "xm_wf y"
proof -
  have "\<exists>y. receive_loop p 1 char_C char_C 0 0 buf (length buf) (xm_set_timeout p TIMEOUT_STD x) =
      Some ((int (0 + 128 * length bs), ACK, mem_write buf 0 (concat bs)), y)
    \<and> inp (dev y) = rest \<and> pkt_wf (pkt_buf y)"
    by (rule receive_loop_fed) (use assms in \<open>auto simp: xm_wf_def\<close>)
  then show thesis using that by (auto simp: xmodem_receive_package_def xm_wf_def)
qed

end

section \<open>A transfer that breaks off\<close>

context fed_port
begin

lemma receive_loop_timeouts:
  assumes "inp (dev x) = replicate (5 - err) None @ rest" and "pkt_wf (pkt_buf x)" and "err \<le> 5"
  shows "\<exists>c y. receive_loop p e cmd nak err cnt buf len x = Some ((- 1, c, buf), y) \<and>
    inp (dev y) = rest \<and> pkt_wf (pkt_buf y)"
  using assms
proof (induction "5 - err" arbitrary: err cmd x)
  case 0
  then show ?case by (simp add: receive_loop.simps)
next
  case (Suc n)
  then have n: "n = 5 - (err + 1)" "err + 1 \<le> 5" "err < 5" by simp_all
  then have "5 - err = Suc (5 - (err + 1))" by simp
  then have "inp (dev (xm_putc p cmd x)) = None # replicate (5 - (err + 1)) None @ rest"
    using Suc.prems(1) by simp
  then obtain r y where y: "xm_getc p ERR (xm_putc p cmd x) = ((r, ERR), y)" "r < 0"
    "inp (dev y) = replicate (5 - (err + 1)) None @ rest" "pkt_buf y = pkt_buf x"
    by (rule fed_xm_timeout [of _ _ ERR]) auto
  then have "xmodem_read_pkt p e buf cnt len (xm_putc p cmd x) = Some ((ERR, buf), y)"
    by (simp add: xmodem_read_pkt_def)
  then have "receive_loop p e cmd nak err cnt buf len x = receive_loop p e nak nak (err + 1) cnt buf len y"
    using n(3) by (subst receive_loop.simps) simp
  then show ?case using Suc.hyps(1) [OF n(1) y(3) _ n(2)] y(4) Suc.prems(2) by simp
qed

text \<open>One packet arrives, and then the sender is lost: the packet stays in the buffer.\<close>

lemma receive_unfinished:
  assumes "inp (dev x) = map Some (frame 1 b) @ replicate 5 None @ rest" and "length b = 128"
    and "xm_wf x" and "128 \<le> length buf"
  obtains y where "xmodem_receive_package p buf x = Some ((- 1, mem_write buf 0 b), y)"
    and "inp (dev y) = rest" and "xm_wf y"
proof -
  define x1 where "x1 = xm_set_timeout p TIMEOUT_STD x"
  have x1: "inp (dev x1) = map Some (concat (replicate (Suc 0) (frame 1 b))) @ replicate 5 None @ rest"
    "pkt_wf (pkt_buf x1)" using assms(1,3) by (simp_all add: x1_def xm_wf_def)
  obtain c y where y: "receive_loop p 1 char_C char_C 0 0 buf (length buf) x1 =
      receive_loop p (1 + 1) c NAK 0 (0 + 128) (mem_write buf 0 b) (length buf - 128) y"
    "inp (dev y) = replicate 5 None @ rest" "pkt_wf (pkt_buf y)"
    by (rule receive_loop_block [OF x1(1) _ x1(2), where cmd = char_C
          and nak = char_C and err = 0 and cnt = 0 and buf = buf and len = "length buf"])
      (use assms(2,4) in auto)
  have "inp (dev y) = replicate (5 - 0) None @ rest" using y(2) by simp
  from receive_loop_timeouts [OF this y(3), of "1 + 1" c NAK "0 + 128" "mem_write buf 0 b" "length buf - 128"]
  obtain c' z where z: "receive_loop p (1 + 1) c NAK 0 (0 + 128) (mem_write buf 0 b) (length buf - 128) y
      = Some ((- 1, c', mem_write buf 0 b), z)" "inp (dev z) = rest" "pkt_wf (pkt_buf z)" by auto
  show thesis
    by (rule that [of "xm_putc p c' z"])
      (use y(1) z in \<open>simp_all add: xmodem_receive_package_def xm_wf_def flip: x1_def\<close>)
qed

end

section \<open>A line that acknowledges\<close>

text \<open>The number of packets, and what comes back for a transfer without an error.\<close>

definition packets :: "nat \<Rightarrow> nat" where
  "packets n = (n + 127) div 128"

definition acks :: "nat \<Rightarrow> u8 option list" where
  "acks n = Some char_C # replicate (packets n + 1) (Some ACK)"

lemma packets_0 [simp]: "packets 0 = 0"
  by (simp add: packets_def)

lemma packets_step:
  assumes "0 < n" and "m = (if 128 \<le> n then 128 else n)"
  shows "packets n = Suc (packets (n - m))"
proof (cases "128 \<le> n")
  case True
  then have "n + 127 = (n - m + 127) + 128" using assms by simp
  then show ?thesis by (simp add: packets_def)
next
  case lt: False
  moreover have "Suc 0 \<le> n" using assms(1) by simp
  ultimately have "packets n = 1" unfolding packets_def by (intro div_nat_eqI) auto
  with lt assms(2) show ?thesis by simp
qed

context fed_port
begin

lemma fed_send_pkt:
  assumes "pkt_wf (pkt_buf x)" and "length data \<le> 128"
  obtains y where "xmodem_send_pkt p data n x = (0, y)" and "inp (dev y) = inp (dev x)"
    and "pkt_wf (pkt_buf y)"
  by (rule that [of "snd (xmodem_send_pkt p data n x)"])
    (use assms in \<open>auto simp: xmodem_send_pkt_def Let_def pkt_wf_def mem_write_def\<close>)

lemma transmit_loop_fed:
  assumes "inp (dev x) = replicate (packets (length data) + 1) (Some ACK) @ rest"
    and "pkt_wf (pkt_buf x)"
  shows "\<exists>y. transmit_loop p data n x = ((uint (n + of_nat (packets (length data))) - 1) * 128, y) \<and>
    inp (dev y) = rest \<and> pkt_wf (pkt_buf y)"
  using assms
proof (induction data arbitrary: n x rule: length_induct)
  case (1 data)
  show ?case
  proof (cases "data = []")
    case True
    then have "inp (dev (xm_putc p EOT x)) = Some ACK # rest" using 1(2) by simp
    then obtain y where "xm_getc p ERR (xm_putc p EOT x) = ((0, ACK), y)" "inp (dev y) = rest"
      "pkt_buf y = pkt_buf x" by (rule fed_xm_getc [of _ _ _ ERR]) auto
    then show ?thesis using True 1(3)
      by (simp add: transmit_loop.simps xmodem_send_byte_with_retry_def numeral_3_eq_3)
  next
    case False
    define m where "m = (if 128 \<le> length data then 128 else length data)"
    have k: "packets (length data) = Suc (packets (length (drop m data)))"
      using False packets_step [of "length data" m] by (simp add: m_def)
    have m: "length (take m data) \<le> 128" "length (drop m data) < length data"
      using False by (auto simp: m_def)
    obtain x1 where x1: "xmodem_send_pkt p (take m data) n x = (0, x1)" "inp (dev x1) = inp (dev x)"
      "pkt_wf (pkt_buf x1)" by (rule fed_send_pkt [OF 1(3) m(1)])
    have "inp (dev x1) = Some ACK # replicate (packets (length (drop m data)) + 1) (Some ACK) @ rest"
      using x1(2) 1(2) by (simp add: k)
    then obtain x2 where x2: "xm_getc p ERR x1 = ((0, ACK), x2)"
      "inp (dev x2) = replicate (packets (length (drop m data)) + 1) (Some ACK) @ rest"
      "pkt_buf x2 = pkt_buf x1" by (rule fed_xm_getc [of _ _ _ ERR])
    have "transmit_loop p data n x = transmit_loop p (drop m data) (n + 1) x2"
      using False x1(1) x2(1)
      by (simp add: transmit_loop.simps [of _ data] Let_def xmodem_send_pkt_with_retry_def
          numeral_3_eq_3 flip: m_def)
    moreover have "\<exists>y. transmit_loop p (drop m data) (n + 1) x2 =
        ((uint (n + 1 + of_nat (packets (length (drop m data)))) - 1) * 128, y) \<and>
        inp (dev y) = rest \<and> pkt_wf (pkt_buf y)"
      using 1(1) [rule_format, OF m(2) x2(2)] x2(3) x1(3) by simp
    ultimately show ?thesis by (simp add: k algebra_simps)
  qed
qed

lemma transmit_fed:
  assumes "inp (dev x) = acks (length data) @ rest" and "xm_wf x"
  obtains y where "xmodem_transmit_package p data x =
      ((uint (1 + of_nat (packets (length data)) :: u8) - 1) * 128, y)"
    and "inp (dev y) = rest" and "xm_wf y"
proof -
  have "inp (dev (xm_set_timeout p TIMEOUT_STD x)) =
      Some char_C # replicate (packets (length data) + 1) (Some ACK) @ rest"
    using assms(1) by (simp add: acks_def)
  then obtain x1 where x1: "xm_getc p ERR (xm_set_timeout p TIMEOUT_STD x) = ((0, char_C), x1)"
    "inp (dev x1) = replicate (packets (length data) + 1) (Some ACK) @ rest" "pkt_buf x1 = pkt_buf x"
    by (rule fed_xm_getc [of _ _ _ ERR]) auto
  have wf: "pkt_wf (pkt_buf x1)" using assms(2) x1(3) by (simp add: xm_wf_def)
  from transmit_loop_fed [OF x1(2) wf, of 1] x1(1) that show thesis
    by (auto simp: xmodem_transmit_package_def numeral_3_eq_3 xm_wf_def)
qed

end

section \<open>A line that falls silent\<close>

text \<open>
  \<open>left\<close> bounds the bytes that are still to come. Then no loop of xmodem.c runs forever:
  what may not return on an arbitrary port returns on this one.
\<close>

locale finite_port =
  fixes p :: "'s xport" and left :: "'s \<Rightarrow> nat"
  assumes left_getc: "x_getc p ch s = ((r, ch'), t) \<Longrightarrow>
      (if 0 \<le> r then left t < left s else left t \<le> left s)"
    and left_putc: "left (x_putc p b s) \<le> left s"
    and left_set_timeout: "left (snd (x_set_timeout p ms s)) \<le> left s"
begin

lemma left_xm_getc:
  assumes "xm_getc p ch x = ((r, b), y)"
  shows "left (dev y) \<le> left (dev x)" and "0 \<le> r \<Longrightarrow> left (dev y) < left (dev x)"
  using assms left_getc [of ch "dev x"]
  by (fastforce simp: xm_getc_def split: prod.splits if_splits)+

lemma left_xm_putc: "left (dev (xm_putc p b x)) \<le> left (dev x)"
  by (simp add: xm_putc_def left_putc)

lemma left_xm_set_timeout: "left (dev (xm_set_timeout p ms x)) \<le> left (dev x)"
  by (simp add: xm_set_timeout_def left_set_timeout)

lemma drain_returns: "\<exists>y. drain p c x = Some y \<and> left (dev y) \<le> left (dev x)"
proof (induction "left (dev x)" arbitrary: c x rule: less_induct)
  case less
  obtain r b x1 where 1: "xm_getc p c x = ((r, b), x1)" by (metis surj_pair)
  show ?case
  proof (cases "0 \<le> r")
    case True
    with left_xm_getc [OF 1] have "left (dev x1) < left (dev x)" by simp
    from less [OF this, of b] this show ?thesis
      using True by (subst drain.simps) (auto simp: 1 intro: order.trans less_imp_le)
  next
    case False
    then show ?thesis using left_xm_getc [OF 1] by (subst drain.simps) (simp add: 1)
  qed
qed

lemma read_rest_left: "read_rest p i n x = (ok, y) \<Longrightarrow> left (dev y) \<le> left (dev x)"
proof (induction n arbitrary: i x)
  case (Suc n)
  obtain r b x1 where 1: "xm_getc p (pkt_bytes (pkt_buf x) ! i) x = ((r, b), x1)"
    by (metis surj_pair)
  then show ?case
    using Suc.prems Suc.IH [of "Suc i" "x1\<lparr>pkt_buf := pkt_poke i b (pkt_buf x1)\<rparr>"]
      left_xm_getc(1) [OF 1]
    by (auto simp: Let_def split: if_splits)
qed simp

text \<open>A call of \<open>xmodem_read_pkt\<close> returns, and all but \<open>ERR\<close> have read a byte.\<close>

lemma read_pkt_returns:
  "\<exists>st buf' y. xmodem_read_pkt p e buf off len x = Some ((st, buf'), y) \<and>
     left (dev y) \<le> left (dev x) \<and> (st \<noteq> ERR \<longrightarrow> left (dev y) < left (dev x))"
proof -
  obtain r c x1 where 1: "xm_getc p ERR x = ((r, c), x1)" by (metis surj_pair)
  note g = left_xm_getc [OF 1]
  obtain ok x2 where 2: "read_rest p 1 (pkt_size - 1) x1 = (ok, x2)" by fastforce
  note l2 = read_rest_left [OF 2]
  obtain x3 where 3: "drain p c (xm_set_timeout p TIMEOUT_ERR x1) = Some x3"
    "left (dev x3) \<le> left (dev (xm_set_timeout p TIMEOUT_ERR x1))"
    using drain_returns by blast
  have l3: "left (dev (xm_set_timeout p TIMEOUT_STD x3)) \<le> left (dev x1)"
    using 3(2) left_xm_set_timeout order.trans by metis
  show ?thesis
    using g l2 l3 by (cases "r < 0"; cases "c = SOH"; cases ok)
      (auto simp: xmodem_read_pkt_def 1 2 [simplified] 3(1) Let_def)
qed

lemma receive_loop_returns: "\<exists>r. receive_loop p e cmd nak err cnt buf len x = Some r"
proof (induction "6 * left (dev x) + (5 - err)" arbitrary: x e cmd nak err cnt buf len
    rule: less_induct)
  case less
  show ?case
  proof (cases "err < 5")
    case True
    obtain st buf' y where r: "xmodem_read_pkt p e buf cnt len (xm_putc p cmd x) = Some ((st, buf'), y)"
      and le': "left (dev y) \<le> left (dev (xm_putc p cmd x))"
      and lt': "st \<noteq> ERR \<longrightarrow> left (dev y) < left (dev (xm_putc p cmd x))"
      using read_pkt_returns by blast
    have le: "left (dev y) \<le> left (dev x)" and lt: "st \<noteq> ERR \<longrightarrow> left (dev y) < left (dev x)"
      using le' lt' left_xm_putc [of cmd x] by auto
    have "\<exists>r. receive_loop p e' cmd' nak' err' cnt' buf'' len' y = Some r"
      if "st \<noteq> ERR \<or> err' = err + 1" for e' cmd' nak' err' cnt' buf'' len'
    proof (rule less)
      show "6 * left (dev y) + (5 - err') < 6 * left (dev x) + (5 - err)"
        using that True le lt by (cases "st = ERR") auto
    qed
    then show ?thesis using True by (subst receive_loop.simps) (auto simp: r)
  qed (simp add: receive_loop.simps)
qed

lemma receive_returns: "\<exists>r y. xmodem_receive_package p buf x = Some (r, y)"
  using receive_loop_returns [of 1 char_C char_C 0 0 buf "length buf" "xm_set_timeout p TIMEOUT_STD x"]
  by (auto simp: xmodem_receive_package_def)

end

section \<open>The serial port on a line with known input\<close>

text \<open>
  System calls over a line of which we know what it delivers: \<open>rx w\<close>, where \<open>None\<close> is a read
  that times out. On it serial_io.c provides both contracts.
\<close>

locale line_tty = posix_tty os attrs for os :: "'w tty_os" and attrs +
  fixes fd :: int and rx :: "'w \<Rightarrow> u8 option list"
  assumes rx_byte: "rx w = Some b # l \<Longrightarrow> \<exists>w'. os_read os fd ch w = ((1, b), w') \<and> rx w' = l"
    and rx_timeout: "rx w = None # l \<Longrightarrow> \<exists>n w'. os_read os fd ch w = ((n, ch), w') \<and> n \<noteq> 1 \<and> rx w' = l"
    and rx_read: "os_read os fd' ch w = ((n, ch'), w') \<Longrightarrow>
      (if n = 1 then length (rx w') < length (rx w) else length (rx w') \<le> length (rx w))"
    and rx_write: "rx (snd (os_write os fd' b w)) = rx w"
    and rx_getattr: "rx (snd (os_tcgetattr os fd' t w)) = rx w"
    and rx_setattr: "rx (snd (os_tcsetattr os fd' t w)) = rx w"

text \<open>What the reads of the open port deliver.\<close>

definition line_input :: "int \<Rightarrow> ('w \<Rightarrow> u8 option list) \<Rightarrow> 'w serial \<Rightarrow> u8 option list" where
  "line_input fd rx s = (if serial_handle s = fd then rx (world s) else [])"

context line_tty
begin

lemma serial_fed_getc:
  assumes "line_input fd rx s = Some b # l"
  shows "\<exists>t. xmodem_getc os ch s = ((0, b), t) \<and> line_input fd rx t = l"
proof -
  from assms have "rx (world s) = Some b # l" and h: "serial_handle s = fd"
    by (auto simp: line_input_def split: if_splits)
  from rx_byte [OF this(1), of ch] h show ?thesis
    by (auto simp: xmodem_getc_def line_input_def)
qed

lemma serial_fed_timeout:
  assumes "line_input fd rx s = None # l"
  shows "\<exists>r t. xmodem_getc os ch s = ((r, ch), t) \<and> r < 0 \<and> line_input fd rx t = l"
proof -
  from assms have "rx (world s) = None # l" and h: "serial_handle s = fd"
    by (auto simp: line_input_def split: if_splits)
  from rx_timeout [OF this(1), of ch] obtain n w' where
    r: "os_read os fd ch (world s) = ((n, ch), w')" "n \<noteq> 1" "rx w' = l" by blast
  show ?thesis
    by (rule exI [of _ "if n = 0 then - ETIMEDOUT else - EIO"], rule exI [of _ "s\<lparr>world := w'\<rparr>"])
      (use r h in \<open>simp add: xmodem_getc_def line_input_def ETIMEDOUT_def EIO_def\<close>)
qed

lemma serial_set_timeout_rx:
  "rx (world (snd (xmodem_set_timeout os ms s))) = rx (world s)"
  "serial_handle (snd (xmodem_set_timeout os ms s)) = serial_handle s"
  using rx_getattr [of "serial_handle s" termios0 "world s"]
    rx_setattr [of "serial_handle s"]
  by (auto simp: xmodem_set_timeout_def split: prod.splits) (metis snd_conv)

lemma serial_left_getc:
  assumes "xmodem_getc os ch s = ((r, b), t)"
  shows "if 0 \<le> r then length (rx (world t)) < length (rx (world s))
    else length (rx (world t)) \<le> length (rx (world s))"
  using assms rx_read [of "serial_handle s" ch "world s"]
  by (fastforce simp: xmodem_getc_def ETIMEDOUT_def EIO_def split: prod.splits if_splits)

end

sublocale line_tty \<subseteq> fed: fed_port "serial_xport os" "line_input fd rx"
proof
  show "line_input fd rx (x_putc (serial_xport os) c s) = line_input fd rx s" for c s
    by (simp add: serial_xport_def line_input_def xmodem_putc_def rx_write)
  show "line_input fd rx (snd (x_set_timeout (serial_xport os) ms s)) = line_input fd rx s" for ms s
    by (simp add: serial_xport_def line_input_def serial_set_timeout_rx)
qed (simp_all add: serial_xport_def serial_fed_getc serial_fed_timeout)

sublocale line_tty \<subseteq> finite: finite_port "serial_xport os" "\<lambda>s. length (rx (world s))"
  by unfold_locales (auto simp: serial_xport_def xmodem_putc_def rx_write serial_set_timeout_rx
      dest: serial_left_getc)

interpretation script_line: line_tty script_os tty_attrs tty_fd tty_rx
  by unfold_locales (auto split: if_splits list.splits option.splits)

section \<open>XMODEM on a script\<close>

text \<open>
  \<open>on_script pk rx tx at\<close>: the packet buffer is \<open>pk\<close>, \<open>rx\<close> is to be read, \<open>tx\<close> was written,
  the line has the attributes \<open>at\<close>. The equations run the model symbolically: the bytes of
  a packet are not computed.
\<close>

definition on_script ::
  "xmodem_packet \<Rightarrow> u8 option list \<Rightarrow> u8 list \<Rightarrow> termios \<Rightarrow> tty serial xm" where
  "on_script pk rx tx at = \<lparr>pkt_buf = pk, dev = \<lparr>serial_handle = tty_fd, tio_initial = termios0,
     world = \<lparr>tty_rx = rx, tty_tx = tx, tty_attrs = at, tty_modem = 0, tty_lines = []\<rparr>\<rparr>\<rparr>"

lemma on_script_getc:
  "xm_getc (serial_xport script_os) ch (on_script pk (a # rx) tx at) =
     (case a of None \<Rightarrow> ((- 110, ch), on_script pk rx tx at) | Some b \<Rightarrow> ((0, b), on_script pk rx tx at))"
  "xm_getc (serial_xport script_os) ch (on_script pk [] tx at) = ((- 110, ch), on_script pk [] tx at)"
  by (simp_all add: xm_getc_def serial_xport_def xmodem_getc_def on_script_def ETIMEDOUT_def
      split: option.splits)

lemma on_script_putc:
  "xm_putc (serial_xport script_os) b (on_script pk rx tx at) = on_script pk rx (tx @ [b]) at"
  by (simp add: xm_putc_def serial_xport_def xmodem_putc_def on_script_def)

lemma on_script_fold_putc:
  "fold (xm_putc (serial_xport script_os)) bs (on_script pk rx tx at) = on_script pk rx (tx @ bs) at"
  by (induction bs arbitrary: tx) (simp_all add: on_script_putc)

lemma on_script_set_timeout:
  "xm_set_timeout (serial_xport script_os) ms (on_script pk rx tx at) =
     on_script pk rx tx (at\<lparr>c_vtime := word_of_int (sgn ms * (\<bar>ms\<bar> div 100))\<rparr>)"
  by (simp add: xm_set_timeout_def serial_xport_def xmodem_set_timeout_def on_script_def)

lemma on_script_buf [simp]:
  "pkt_buf (on_script pk rx tx at) = pk" "(on_script pk rx tx at)\<lparr>pkt_buf := pk'\<rparr> = on_script pk' rx tx at"
  by (simp_all add: on_script_def)

lemma on_script_input [simp]:
  "line_input tty_fd tty_rx (dev (on_script pk rx tx at)) = rx"
  "tty_rx (world (dev (on_script pk rx tx at))) = rx"
  by (simp_all add: on_script_def line_input_def)

text \<open>An intact packet, numbered 1.\<close>

definition zero_packet :: xmodem_packet where
  "zero_packet = \<lparr>soh = SOH, seq_no = 1, seq_no_inv = 0xFE, pkt_data = replicate 128 0, crc_u8 = [0, 0]\<rparr>"

text \<open>The packet that \<open>xmodem_send_pkt\<close> makes of what the buffer holds.\<close>

definition filled :: "u8 list \<Rightarrow> u8 \<Rightarrow> xmodem_packet \<Rightarrow> xmodem_packet" where
  "filled data n pk = pkt_buf (snd (xmodem_send_pkt (serial_xport script_os) data n
     (on_script pk [] [] termios0)))"

lemma on_script_send_pkt:
  "xmodem_send_pkt (serial_xport script_os) data n (on_script pk rx tx at) =
     (0, on_script (filled data n pk) rx (tx @ pkt_bytes (filled data n pk)) at)"
  by (simp add: filled_def xmodem_send_pkt_def Let_def on_script_fold_putc del: fold_simps)

lemmas on_script_run = on_script_getc on_script_putc on_script_set_timeout on_script_send_pkt
  xmodem_send_pkt_with_retry_def xmodem_send_byte_with_retry_def numeral_3_eq_3

text \<open>A reception of one packet, sent twice, on a script.\<close>

lemma on_script_receive:
  assumes "length b = 128" and "128 \<le> length buf" and "pkt_wf pk"
  shows "\<exists>y. xmodem_receive_package (serial_xport script_os) buf
      (on_script pk (map Some (repeated [k] (frames 1 [b])) @ [Some EOT]) [] termios0) =
    Some ((128, mem_write buf 0 b), y)"
  by (rule script_line.fed.receive_fed [where ks = "[k]" and bs = "[b]" and buf = buf and rest = "[]"
        and x = "on_script pk (map Some (repeated [k] (frames 1 [b])) @ [Some EOT]) [] termios0"])
    (use assms in \<open>auto simp del: frames.simps map_append simp: xm_wf_def\<close>)

section \<open>A silent line\<close>

text \<open>Nothing comes: every read fails.\<close>

context line_tty
begin

lemma silent_getc:
  assumes "rx (world s) = []"
  shows "\<exists>r t. xmodem_getc os ch s = ((r, ch), t) \<and> r < 0 \<and> rx (world t) = []"
proof -
  obtain n ch' w where 1: "os_read os (serial_handle s) ch (world s) = ((n, ch'), w)"
    by (metis surj_pair)
  from rx_read [OF this] assms have n: "n \<noteq> 1" and "rx w = []" by (auto split: if_splits)
  with read_keep [OF 1 n] show ?thesis
    by (auto simp: xmodem_getc_def 1 ETIMEDOUT_def EIO_def)
qed

end

locale silent_port =
  fixes p :: "'s xport" and silent :: "'s \<Rightarrow> bool"
  assumes silent_getc: "silent s \<Longrightarrow> \<exists>r t. x_getc p ch s = ((r, ch), t) \<and> r < 0 \<and> silent t"
    and silent_putc: "silent s \<Longrightarrow> silent (x_putc p b s)"
    and silent_set_timeout: "silent s \<Longrightarrow> silent (snd (x_set_timeout p ms s))"
begin

text \<open>The log: a first \<open>C\<close> and one more after each of the five failed attempts.\<close>

lemma silent_loop:
  assumes "silent (fst (dev x))" and "err \<le> 5"
  shows "\<exists>y. receive_loop (traced p) e char_C char_C err cnt buf len x = Some ((- 1, char_C, buf), y) \<and>
    snd (dev y) = snd (dev x) @ concat (replicate (5 - err) [Put char_C, NoByte])"
  using assms
proof (induction "5 - err" arbitrary: err x)
  case 0
  then show ?case by (simp add: receive_loop.simps)
next
  case (Suc n)
  define x1 where "x1 = xm_putc (traced p) char_C x"
  obtain s l where d: "dev x = (s, l)" by fastforce
  have s: "silent (x_putc p char_C s)" using Suc.prems d by (simp add: silent_putc)
  obtain r t where g: "x_getc p ERR (x_putc p char_C s) = ((r, ERR), t)" "r < 0" "silent t"
    using silent_getc [OF s] by blast
  then obtain y where y: "xmodem_read_pkt (traced p) e buf cnt len x1 = Some ((ERR, buf), y)"
    "dev y = (t, l @ [Put char_C, NoByte])"
    by (auto simp: xmodem_read_pkt_def x1_def xm_putc_def xm_getc_def d traced_def)
  have n: "n = 5 - (err + 1)" "err + 1 \<le> 5" "err < 5" using Suc.hyps(2) by auto
  obtain z where z: "receive_loop (traced p) e char_C char_C (err + 1) cnt buf len y =
      Some ((- 1, char_C, buf), z)"
    "snd (dev z) = snd (dev y) @ concat (replicate (5 - (err + 1)) [Put char_C, NoByte])"
    using Suc.hyps(1) [OF n(1) _ n(2), of y] g(3) y(2) by auto
  have "5 - err = Suc (5 - (err + 1))" using n by simp
  then show ?case using z y n(3) d
    by (subst receive_loop.simps) (simp flip: x1_def)
qed

lemma silent_receive:
  assumes "silent (dev x)"
  shows "\<exists>y. xmodem_receive_package (traced p) buf (with_log x []) = Some ((- 1, buf), with_log y
    (Timeout TIMEOUT_STD # concat (replicate 5 [Put char_C, NoByte]) @ [Put char_C]))"
proof -
  define x1 where "x1 = xm_set_timeout (traced p) TIMEOUT_STD (with_log x [])"
  have x1: "silent (fst (dev x1))" "snd (dev x1) = [Timeout TIMEOUT_STD]"
    using assms by (auto simp: x1_def xm_set_timeout_def traced_set_timeout silent_set_timeout)
  from silent_loop [OF x1(1), of 0 1 0 buf "length buf"] obtain y where
    "receive_loop (traced p) 1 char_C char_C 0 0 buf (length buf) x1 = Some ((- 1, char_C, buf), y)"
    "snd (dev y) = Timeout TIMEOUT_STD # concat (replicate 5 [Put char_C, NoByte])"
    by (auto simp: x1(2))
  moreover from this(2) have "xm_putc (traced p) char_C y =
      with_log \<lparr>pkt_buf = pkt_buf y, dev = x_putc p char_C (fst (dev y))\<rparr>
        (Timeout TIMEOUT_STD # concat (replicate 5 [Put char_C, NoByte]) @ [Put char_C])"
    by (cases "dev y") (simp add: xm_putc_def with_log_def)
  ultimately show ?thesis
    by (auto simp: xmodem_receive_package_def simp flip: x1_def)
qed

end

sublocale line_tty \<subseteq> silent: silent_port "serial_xport os" "\<lambda>s. rx (world s) = []"
  by unfold_locales (simp_all add: serial_xport_def silent_getc xmodem_putc_def rx_write
      serial_set_timeout_rx)

text \<open>What the contracts give for the serial port.\<close>

context line_tty
begin

lemmas serial_receive_returns = finite.receive_returns
lemmas serial_receive_silent = silent.silent_receive
lemmas serial_receive_fed = fed.receive_fed

end

section \<open>A line that never falls silent\<close>

lemma drain_noise:
  assumes noise: "\<And>ch s. \<exists>t. x_getc p ch s = ((0, b), t)"
  shows "drain p c x = None"
proof -
  have "False" if "drain p c x = Some y" for c x y
    using that
  proof (induction rule: drain_induct)
    case (step f c x y)
    obtain t where "x_getc p c (dev x) = ((0, b), t)" using noise by blast
    then show ?case using step by (auto simp: xm_getc_def)
  qed
  then show ?thesis by fastforce
qed

end
