(* ===== verification/Xmodem_Props.thy ===== *)
theory Xmodem_Props
  imports Xmodem_Link
begin

unbundle bit_operations_syntax

text \<open>
  The properties of XMODEM, each with a run of the model it applies to: what the sender puts
  on the line, what the receiver accepts, the two together, the checksum, and when the
  functions return.
\<close>

section \<open>The checksum\<close>

text \<open>C15: the two loops of \<open>crc_xmodem\<close>, on a 32 bit accumulator with the message bits
  appended at the bottom and sixteen zero bits after them, compute CRC-16/XMODEM: the 16 bit
  shift register with polynomial 0x1021, initial value 0 and no final inversion.\<close>

theorem crc_xmodem_refines: "crc_xmodem data = crc16 data"
  by (rule crc_xmodem_crc16)

text \<open>C17: an intact packet in which a burst of at most sixteen bits of the payload and the
  checksum is altered, or just one of the two sequence number bytes, is answered with
  \<open>ERR\<close> whatever number is expected: \<open>check_pkt\<close>, the tests of \<open>xmodem_read_pkt\<close>, never takes
  it for data.\<close>

theorem corrupt_packet_rejected:
  assumes "pkt_wf k" and "pkt_wf k'" and "check_pkt e len k \<noteq> ERR"
    and "msg_bits (pkt_data k @ crc_u8 k) = p @ u @ s"
    and "msg_bits (pkt_data k' @ crc_u8 k') = p @ v @ s"
    and "length u = length v" and "length v \<le> 16"
    and "u \<noteq> v \<or> (seq_no k = seq_no k') \<noteq> (seq_no_inv k = seq_no_inv k')"
  shows "check_pkt e' len' k' = ERR"
proof (rule ccontr)
  assume ok': "check_pkt e' len' k' \<noteq> ERR"
  have valid: "seq_no c = NOT (seq_no_inv c) \<and> crc_xmodem (pkt_data c @ crc_u8 c) = 0"
    if ok: "check_pkt f n c \<noteq> ERR" and wf: "pkt_wf c" for c f n
  proof -
    obtain h l where "crc_u8 c = [h, l]" using wf
      by (auto simp: pkt_wf_def numeral_2_eq_2 length_Suc_conv)
    moreover have "seq_no c = NOT (seq_no_inv c)" and "pkt_crc_recv c = crc_xmodem (pkt_data c)"
      using ok by (auto simp only: check_pkt_def Let_def split: if_splits)
    ultimately show ?thesis using crc_residue [of "pkt_data c" h l]
      by (simp only: pkt_crc_recv_def nth_Cons_0 nth_Cons_Suc One_nat_def)
  qed
  note v = valid [OF assms(3,1)] and v' = valid [OF ok' assms(2)]
  have "crc_xmodem (pkt_data k @ crc_u8 k) \<noteq> crc_xmodem (pkt_data k' @ crc_u8 k')" if "u \<noteq> v"
    by (rule crc_xmodem_window [OF assms(4-7) that])
  moreover have "(seq_no k = seq_no k') = (seq_no_inv k = seq_no_inv k')" using v v' by auto
  ultimately show False using v v' assms(8) by auto
qed

theorem corrupt_packet_rejected_witness:
  "check_pkt 1 128 zero_packet = SOH \<and>
   check_pkt 1 128 (zero_packet\<lparr>crc_u8 := [0x80, 0]\<rparr>) = ERR"
proof
  show ok: "check_pkt 1 128 zero_packet = SOH"
    by (simp add: check_pkt_def zero_packet_def pkt_crc_recv_def crc_xmodem_zeros)
  show "check_pkt 1 128 (zero_packet\<lparr>crc_u8 := [0x80, 0]\<rparr>) = ERR"
    by (rule corrupt_packet_rejected [of zero_packet _ 1 128 "msg_bits (replicate 128 0)"
          "byte_bits 0" "byte_bits 0" "byte_bits 0x80"])
      (use ok in \<open>simp_all add: pkt_wf_def zero_packet_def byte_bits_inj\<close>, simp_all add: msg_bits_def)
qed

text \<open>C23: the verdict of \<open>xmodem_read_pkt\<close> on a packet that has arrived complete, expected
  number \<open>e\<close> and \<open>len\<close> bytes of room: \<open>ERR\<close> unless the bytes are a frame, the code for a
  repetition of the packet before (which number 0 does not have), \<open>CAN\<close> for any other number
  or without room, and the payload is accepted otherwise.\<close>

theorem check_pkt_verdict:
  assumes "pkt_wf k"
  shows "check_pkt e len k =
    (if tl (pkt_bytes k) \<noteq> tl (frame (seq_no k) (pkt_data k)) then ERR
     else if seq_no k = e - 1 \<and> e \<noteq> 0 then DUP
     else if seq_no k \<noteq> e \<or> len < 128 then CAN else SOH)"
proof (cases "tl (pkt_bytes k) = tl (frame (seq_no k) (pkt_data k))")
  case True
  then show ?thesis using check_pkt_frame [OF assms] by (simp add: check_pkt_def Let_def uint_pred)
next
  case False
  then have "\<not> (seq_no k = NOT (seq_no_inv k) \<and> pkt_crc_recv k = crc_xmodem (pkt_data k))"
    using check_pkt_frame [OF assms] by simp
  with False show ?thesis by (auto simp: check_pkt_def Let_def)
qed

text \<open>Packet 255 again, when 0 is expected: an intact repetition is refused.\<close>

theorem check_pkt_verdict_witness:
  "check_pkt 0 128 (zero_packet\<lparr>seq_no := 255, seq_no_inv := 0\<rparr>) = CAN \<and>
   check_pkt 2 128 zero_packet = DUP"
  using check_pkt_verdict [of "zero_packet\<lparr>seq_no := 255, seq_no_inv := 0\<rparr>" 0 128]
    check_pkt_verdict [of zero_packet 2 128]
  by (simp add: zero_packet_def pkt_wf_def pkt_bytes_def frame_def crc_xmodem_zeros)

section \<open>The sender\<close>

text \<open>C11: over any I/O layer that keeps the contract of xmodem.c, a call of
  \<open>xmodem_transmit_package\<close> sets the timeout, reads at most three times for \<open>C\<close>, and then
  writes the packets of the data in order, numbered from 1, each at most three times, going
  on only after an \<open>ACK\<close>, and \<open>EOT\<close> at the end; it fails, with -1, exactly when \<open>C\<close> did not
  come or three attempts were left unacknowledged. The blocks are the data, the last one
  filled up. The number it returns for success wraps at 255 packets.\<close>

theorem transmit_protocol:
  assumes "xport_laws p" and "xm_wf x" and "xmodem_transmit_package p data x = (r, y)"
  shows "\<exists>bs l. concat bs = data @ drop (length data) (concat bs) \<and>
    length bs = (length data + 127) div 128 \<and> (\<forall>b \<in> set bs. length b = 128) \<and>
    xmodem_transmit_package (traced p) data (with_log x []) = (r, with_log y l) \<and>
    transfer_log bs r l"
proof -
  define bs where "bs = blocks (pkt_data (pkt_buf x)) data"
  have pad: "length (pkt_data (pkt_buf x)) = 128" using assms(2) by (simp add: xm_wf_def pkt_wf_def)
  obtain l where "xmodem_transmit_package (traced p) data (with_log x []) = (r, with_log y l)"
      "transfer_log bs r l"
    by (rule xport_laws.transmit_package_log [OF assms bs_def])
  moreover have "concat bs = data @ drop (length data) (concat bs)"
    using concat_blocks [OF pad, of data] by (metis append_take_drop_id bs_def)
  ultimately show ?thesis
    using blocks_128 [OF pad, of _ data] length_blocks [of "pkt_data (pkt_buf x)" data]
    unfolding bs_def by blast
qed

theorem transmit_protocol_witness:
  "\<exists>y. xmodem_transmit_package (serial_xport script_os) [0x41]
       (on_script zero_packet [Some char_C, Some NAK, Some ACK, None, Some ACK] [] termios0) = (128, y) \<and>
     (\<exists>bs l. concat bs = [0x41] @ drop 1 (concat bs) \<and> length bs = 1 \<and> transfer_log bs 128 l)"
proof -
  obtain y where y: "xmodem_transmit_package (serial_xport script_os) [0x41]
       (on_script zero_packet [Some char_C, Some NAK, Some ACK, None, Some ACK] [] termios0) = (128, y)"
    by (simp add: xmodem_transmit_package_def on_script_run transmit_loop.simps)
  have "xm_wf (on_script zero_packet rx tx at)" for rx tx at
    by (simp add: xm_wf_def zero_packet_def pkt_wf_def)
  from transmit_protocol [OF script_tty.serial.xport_laws_axioms this y] y
  show ?thesis by auto
qed

text \<open>C39: the block counter of the sender is 8 bits wide. A transfer of 255 packets (32513 to
  32640 bytes) reports -1 or -128, that is failure, also when every packet and the \<open>EOT\<close>
  were acknowledged; the caller cannot tell.\<close>

theorem transmit_255_packets:
  assumes "xport_laws p" and "xm_wf x" and "(length data + 127) div 128 = 255"
    and "xmodem_transmit_package p data x = (r, y)"
  shows "r = - 1 \<or> r = - 128"
proof -
  obtain l where "transfer_log (blocks (pkt_data (pkt_buf x)) data) r l"
    by (rule xport_laws.transmit_package_log [OF assms(1,2,4) refl])
  then show ?thesis by (auto simp: transfer_log_def length_blocks assms(3))
qed

theorem transmit_255_packets_witness:
  "\<exists>y. xmodem_transmit_package (serial_xport script_os) (replicate 32640 0)
     (on_script zero_packet (Some char_C # replicate 256 (Some ACK)) [] termios0) = (- 128, y)"
proof -
  have wf: "xm_wf (on_script zero_packet (Some char_C # replicate 256 (Some ACK)) [] termios0)"
    by (simp add: xm_wf_def zero_packet_def pkt_wf_def)
  obtain y where y: "xmodem_transmit_package (serial_xport script_os) (replicate 32640 0)
      (on_script zero_packet (Some char_C # replicate 256 (Some ACK)) [] termios0) = (- 128, y)"
    by (rule script_line.fed.transmit_fed [OF _ wf, of "replicate 32640 0" "[]"])
      (auto simp: acks_def packets_def)
  from transmit_255_packets [OF script_tty.serial.xport_laws_axioms wf _ y] y
  show ?thesis by auto
qed

section \<open>The receiver\<close>

text \<open>C12: whatever comes over the line, the buffer that \<open>xmodem_receive_package\<close> was given
  changes only by the payloads of packets 1, 2, 3 and so on that arrived complete and with
  the right checksum, in this order and each acknowledged by \<open>ACK\<close>; a result other than -1
  is their total length and was followed by an \<open>EOT\<close> that was acknowledged; and nothing is
  written past the buffer.\<close>

theorem receive_delivers:
  assumes "xm_wf x" and "xmodem_receive_package p buf x = Some ((r, buf'), y)"
  shows "\<exists>bs l c.
    xmodem_receive_package (traced p) buf (with_log x []) =
      Some ((r, buf'), with_log y (Timeout TIMEOUT_STD # l @ [Put c])) \<and>
    delivers 1 bs l \<and> 128 * length bs \<le> length buf \<and> buf' = mem_write buf 0 (concat bs) \<and>
    xm_wf y \<and> length buf' = length buf \<and>
    (r = - 1 \<or> r = 128 * int (length bs) \<and> c = ACK \<and> (\<exists>m. l = m @ [Got EOT]))"
proof -
  obtain l where l: "xmodem_receive_package (traced p) buf (with_log x []) = Some ((r, buf'), with_log y l)"
    by (rule receive_traced [OF assms(2)])
  from receive_package_traced [OF this] assms(1) obtain l' c where
    "l = Timeout TIMEOUT_STD # l' @ [Put c]" "received 1 0 (length buf) buf r buf' l'"
    "0 \<le> r \<longrightarrow> c = ACK" by (auto simp: xm_wf_def)
  with l receive_keeps [OF assms(2,1)] show ?thesis
    by (fastforce simp: received_def)
qed

theorem receive_delivers_witness:
  "\<exists>bs l. delivers 1 bs l \<and> 128 * length bs = 128 \<and>
     mem_write (replicate 200 7) 0 (replicate 128 0) = mem_write (replicate 200 7) 0 (concat bs)"
proof -
  have wf: "pkt_wf zero_packet" by (simp add: pkt_wf_def zero_packet_def)
  obtain y where y: "xmodem_receive_package (serial_xport script_os) (replicate 200 7)
      (on_script zero_packet (map Some (repeated [1] (frames 1 [replicate 128 0])) @ [Some EOT]) [] termios0) =
    Some ((128, mem_write (replicate 200 7) 0 (replicate 128 0)), y)"
    using on_script_receive [of "replicate 128 0" "replicate 200 7" zero_packet 1, OF _ _ wf] by auto
  have "xm_wf (on_script zero_packet rx tx at)" for rx tx at using wf by (simp add: xm_wf_def)
  from receive_delivers [OF this y] show ?thesis
    by auto
qed

text \<open>C24: the serial port of serial_io.c on a line that will deliver only finitely many bytes:
  no loop of the receiver runs on, \<open>xmodem_receive_package\<close> returns. The comment in xmodem.h that
  it does not time out is not what it does: it gives up after five reads that fail.\<close>

theorem receive_terminates:
  assumes "line_tty os attrs fd rx"
  shows "\<exists>r y. xmodem_receive_package (serial_xport os) buf x = Some (r, y)"
  by (rule line_tty.serial_receive_returns [OF assms])

theorem receive_terminates_witness:
  "\<exists>r y. xmodem_receive_package (serial_xport script_os) [1, 2, 3]
     (on_script zero_packet [Some 0x55, Some SOH, None, Some SOH, Some 1] [] termios0) = Some (r, y)"
  by (rule receive_terminates [OF script_line.line_tty_axioms])

text \<open>When nothing answers, \<open>xmodem_receive_package\<close> asks five times with \<open>C\<close>, waiting
  out the timeout each time, and gives up with -1, the buffer untouched.\<close>

lemma receive_silent_line:
  assumes "line_tty os attrs fd rx" and "rx (world (dev x)) = []"
  shows "\<exists>y. xmodem_receive_package (traced (serial_xport os)) buf (with_log x []) =
    Some ((- 1, buf), with_log y
      (Timeout TIMEOUT_STD # concat (replicate 5 [Put char_C, NoByte]) @ [Put char_C]))"
  by (rule line_tty.serial_receive_silent [OF assms])

lemma receive_silent_line_example:
  "\<exists>y. xmodem_receive_package (traced (serial_xport script_os)) [1, 2, 3]
      (with_log (on_script zero_packet [] [] termios0) []) =
    Some ((- 1, [1, 2, 3]), with_log y
      (Timeout TIMEOUT_STD # concat (replicate 5 [Put char_C, NoByte]) @ [Put char_C]))"
  using receive_silent_line [OF script_line.line_tty_axioms,
      of "on_script zero_packet [] [] termios0" "[1, 2, 3]"]
  by simp

text \<open>C40: a line that keeps delivering a byte that starts no packet makes
  \<open>xmodem_receive_package\<close> run forever: the loop that discards input until the sender is
  silent has no bound.\<close>

theorem receive_noise_diverges:
  assumes "\<And>ch s. \<exists>t. x_getc p ch s = ((0, b), t)" and "b \<noteq> SOH" and "b \<noteq> EOT"
  shows "xmodem_receive_package p buf x = None"
proof -
  have "xmodem_read_pkt p e buf off len z = None" for e buf off len z
  proof -
    obtain t where "x_getc p ERR (dev z) = ((0, b), t)" using assms(1) by blast
    then show ?thesis
      using assms(2,3) by (simp add: xmodem_read_pkt_def xm_getc_def drain_noise [OF assms(1)])
  qed
  then show ?thesis
    by (simp add: xmodem_receive_package_def receive_loop.simps)
qed

definition noise_os :: "tty tty_os" where
  "noise_os = script_os\<lparr>os_read := (\<lambda>fd ch w. ((1, 0x55), w))\<rparr>"

theorem receive_noise_diverges_witness:
  "xmodem_receive_package (serial_xport noise_os) [1, 2, 3] (on_script zero_packet [] [] termios0) = None"
  by (rule receive_noise_diverges [where b = "0x55"])
    (simp_all add: serial_xport_def xmodem_getc_def noise_os_def)

section \<open>The two ends\<close>

text \<open>C7: what the sender wrote, with all the repetitions its line made it send, is read by
  the receiver as the data it was given, filled up to whole packets: both ends report the
  same number of bytes. Up to 254 packets, the range in which the sender's count is right.\<close>

theorem xmodem_link:
  assumes "xport_laws p" and "xm_wf x" and "xmodem_transmit_package p data x = (r, x')"
    and "0 \<le> r" and "length data \<le> 254 * 128" and "r \<le> int (length buf)"
    and "xmodem_transmit_package (traced p) data (with_log x []) = (r, with_log x' l)"
    and "fed_port q inp" and "xm_wf y" and "inp (dev y) = map Some (puts l)"
  shows "\<exists>buf' y'. xmodem_receive_package q buf y = Some ((r, buf'), y') \<and>
    r = 128 * int ((length data + 127) div 128) \<and>
    take (length data) buf' = data \<and> drop (nat r) buf' = drop (nat r) buf"
proof -
  define bs where "bs = blocks (pkt_data (pkt_buf x)) data"
  have pad: "length (pkt_data (pkt_buf x)) = 128" using assms(2) by (simp add: xm_wf_def pkt_wf_def)
  have lb: "length bs = (length data + 127) div 128" by (simp add: bs_def length_blocks)
  have b254: "length bs \<le> 254" unfolding lb using assms(5) by (simp add: less_Suc_eq_le [symmetric] div_less_iff_less_mult)
  obtain l' where "xmodem_transmit_package (traced p) data (with_log x []) = (r, with_log x' l')"
    and "transfer_log bs r l'"
    by (rule xport_laws.transmit_package_log [OF assms(1-3) bs_def])
  then have "transfer_log bs r l" using assms(7) by (simp add: with_log_def)
  then obtain ks rest where ks: "length ks = length bs" "puts l = repeated ks (frames 1 bs) @ EOT # rest"
    and r: "r = 128 * int (length bs)"
    using assms(4) b254 by (rule transfer_log_puts)
  have b128: "\<forall>b \<in> set bs. length b = 128" using blocks_128 [OF pad] by (simp add: bs_def)
  have fit: "128 * length bs \<le> length buf" using assms(6) r by simp
  obtain y' where y': "xmodem_receive_package q buf y =
      Some ((int (128 * length bs), mem_write buf 0 (concat bs)), y')"
    by (rule fed_port.receive_fed [OF assms(8) _ ks(1) b254 b128 assms(9) fit])
      (use assms(10) ks(2) in auto)
  have lc: "length (concat bs) = 128 * length bs" using length_concat_128 b128 by blast
  have "length data \<le> length (concat bs)" using lb lc by simp
  then have "take (length data) (mem_write buf 0 (concat bs)) = data"
    using concat_blocks [OF pad, of data] by (simp add: mem_write_def bs_def)
  moreover have "drop (nat r) (mem_write buf 0 (concat bs)) = drop (nat r) buf"
    using lc r by (simp add: mem_write_def nat_mult_distrib)
  ultimately show ?thesis using y' r lb by auto
qed

theorem xmodem_link_witness:
  "\<exists>l buf' y'. xmodem_receive_package (serial_xport script_os) (replicate 200 7)
      (on_script zero_packet (map Some (puts l)) [] termios0) = Some ((128, buf'), y') \<and>
    take 1 buf' = [0x41] \<and> drop 128 buf' = replicate 72 7"
proof -
  let ?p = "serial_xport script_os" and ?x = "on_script zero_packet [Some char_C, None, Some ACK, Some ACK] [] termios0"
  have law: "xport_laws ?p" by (rule script_tty.serial.xport_laws_axioms)
  have wf: "xm_wf (on_script zero_packet rx tx at)" for rx tx at
    by (simp add: xm_wf_def zero_packet_def pkt_wf_def)
  obtain x' where x': "xmodem_transmit_package ?p [0x41] ?x = (128, x')"
    by (simp add: xmodem_transmit_package_def on_script_run transmit_loop.simps)
  obtain l where l: "xmodem_transmit_package (traced ?p) [0x41] (with_log ?x []) = (128, with_log x' l)"
    by (rule transmit_traced [OF x'])
  from xmodem_link [OF law wf x' _ _ _ l script_line.fed.fed_port_axioms wf, of "replicate 200 7"]
  have "\<exists>buf' y'. xmodem_receive_package ?p (replicate 200 7)
      (on_script zero_packet (map Some (puts l)) [] termios0) = Some ((128, buf'), y') \<and>
    take 1 buf' = [0x41] \<and> drop 128 buf' = drop 128 (replicate 200 7)"
    by simp
  then show ?thesis by (intro exI [of _ l]) simp
qed

end
