(* ===== verification/Quirks.thy ===== *)
theory Quirks
  imports Dfu_Prelude
begin

unbundle bit_operations_syntax

text \<open>
  The table of devices with known defects, src/quirks.c.
\<close>

definition QUIRK_POLLTIMEOUT :: u16 where "QUIRK_POLLTIMEOUT = 1"
definition QUIRK_FORCE_DFU11 :: u16 where "QUIRK_FORCE_DFU11 = 2"

definition get_quirks :: "u16 \<Rightarrow> u16 \<Rightarrow> u16 \<Rightarrow> u16" where
  "get_quirks vendor product bcdDevice =
     (let quirks = 0;
          quirks = (if (vendor = 0x1d50 \<or> vendor = 0x1457) \<and> 0x5117 \<le> product \<and> product \<le> 0x5126
                    then quirks OR QUIRK_POLLTIMEOUT else quirks);
          quirks = (if vendor = 0x16c0 \<and> product = 0x076b then quirks OR QUIRK_POLLTIMEOUT else quirks);
          quirks = (if vendor = 0x1eaf \<and> product = 0x0003 \<and> bcdDevice = 0x0200
                    then quirks OR QUIRK_FORCE_DFU11 else quirks);
          quirks = (if vendor = 0x0908 \<and> (product = 0x02c4 \<or> product = 0x02c5) \<and> bcdDevice = 0
                    then quirks OR QUIRK_POLLTIMEOUT else quirks);
          quirks = (if vendor = 0x0763 \<and> product = 0x2806 then quirks OR QUIRK_POLLTIMEOUT else quirks)
      in quirks)"

text \<open>The two quirks exclude each other, and both leave the vendor of the Quark
  microcontrollers alone.\<close>

lemma quirks_exclusive:
  "get_quirks v p d \<in> {0, QUIRK_POLLTIMEOUT, QUIRK_FORCE_DFU11} \<and> get_quirks 0x8086 p d = 0"
  by (simp add: get_quirks_def QUIRK_POLLTIMEOUT_def QUIRK_FORCE_DFU11_def)

end
