(* ===== verification/Serial_Props.thy ===== *)
theory Serial_Props
  imports Xmodem_Link
begin

text \<open>
  The serial port over its life: what XMODEM never changes, and that the settings of the line
  come back when the port is closed, at the end or from the signal handler.
\<close>

section \<open>Invariants of a port under XMODEM\<close>

text \<open>
  A property of the port's state that its three operations keep is kept by a transfer in
  either direction: the port simulates itself on the states that have it.
\<close>

locale port_inv =
  fixes p :: "'s xport" and I :: "'s \<Rightarrow> bool"
  assumes inv_getc: "I s \<Longrightarrow> I (snd (x_getc p ch s))"
    and inv_putc: "I s \<Longrightarrow> I (x_putc p b s)"
    and inv_set_timeout: "I s \<Longrightarrow> I (snd (x_set_timeout p ms s))"

sublocale port_inv \<subseteq> self: port_sim p p "\<lambda>s t. s = t \<and> I s"
  by unfold_locales (auto simp: inv_getc inv_putc inv_set_timeout)

context port_inv
begin

lemma rel_self: "xm_rel (\<lambda>s t. s = t \<and> I s) x x \<longleftrightarrow> I (dev x)"
  by (simp add: xm_rel_def)

lemma transmit_inv: "xmodem_transmit_package p data x = (r, y) \<Longrightarrow> I (dev x) \<Longrightarrow> I (dev y)"
  using self.sim_transmit [of x x data] by (auto simp: res_rel_def xm_rel_def)

lemma receive_inv: "xmodem_receive_package p buf x = Some (r, y) \<Longrightarrow> I (dev x) \<Longrightarrow> I (dev y)"
  using self.sim_receive [of buf x r y x] by (auto simp: xm_rel_def)

end

text \<open>The two static variables of serial_io.c.\<close>

definition serial_statics :: "int \<Rightarrow> termios \<Rightarrow> 'w serial \<Rightarrow> bool" where
  "serial_statics h a s \<longleftrightarrow> serial_handle s = h \<and> tio_initial s = a"

section \<open>A session\<close>

text \<open>Any number of transfers in either direction and of detach pulses, successful or not.\<close>

inductive port_session :: "'s xport \<Rightarrow> ('s \<Rightarrow> int \<times> 's) \<Rightarrow> 's xm \<Rightarrow> 's xm \<Rightarrow> bool"
  for p :: "'s xport" and det :: "'s \<Rightarrow> int \<times> 's" where
  start: "port_session p det x x"
| transmit: "port_session p det x y \<Longrightarrow> xmodem_transmit_package p data y = (r, z) \<Longrightarrow> port_session p det x z"
| receive: "port_session p det x y \<Longrightarrow> xmodem_receive_package p buf y = Some (r, z) \<Longrightarrow> port_session p det x z"
| detach: "port_session p det x y \<Longrightarrow> det (dev y) = (r, s) \<Longrightarrow> port_session p det x (y\<lparr>dev := s\<rparr>)"

context port_inv
begin

lemma session_inv:
  assumes "port_session p det x y" and "\<And>s. I s \<Longrightarrow> I (snd (det s))" and "I (dev x)"
  shows "I (dev y)"
  using assms(1,3)
proof (induction rule: port_session.induct)
  case (detach x y r s)
  then show ?case using assms(2) [of "dev y"] by simp
qed (auto intro: transmit_inv receive_inv)

end

interpretation statics: port_inv "serial_xport os" "serial_statics h a" for os h a
  by unfold_locales (auto simp: serial_statics_def serial_xport_def xmodem_getc_def xmodem_putc_def
      xmodem_set_timeout_def split: prod.splits)

abbreviation session :: "'w tty_os \<Rightarrow> 'w serial xm \<Rightarrow> 'w serial xm \<Rightarrow> bool" where
  "session os \<equiv> port_session (serial_xport os) (serial_detach os)"

lemma session_statics:
  assumes "session os x y" and "serial_statics h a (dev x)"
  shows "serial_statics h a (dev y)"
  by (rule statics.session_inv [OF assms(1) _ assms(2)])
    (auto simp: serial_statics_def serial_detach_def Let_def split: prod.splits if_splits)

text \<open>C25: a port opened by \<open>serial_io_open\<close>, used for any number of XMODEM transfers and
  detach pulses with any outcome, and closed by \<open>serial_io_close\<close>, leaves the line with the
  attributes it had before it was opened.\<close>

theorem session_restores_line:
  assumes "posix_tty os attrs" and "serial_io_open os path speed s = (h, t)" and "0 \<le> h"
    and "session os \<lparr>pkt_buf = k, dev = t\<rparr> y" and "serial_io_close os (dev y) = (0, u)"
  shows "attrs (world u) = attrs (world s)"
proof -
  have "serial_statics h (attrs (world s)) t"
    using posix_tty.open_saves [OF assms(1-3)] by (simp add: serial_statics_def)
  then have "serial_statics h (attrs (world s)) (dev y)"
    using session_statics [OF assms(4)] by simp
  then show ?thesis
    using posix_tty.close_restores [OF assms(1,5)] by (simp add: serial_statics_def)
qed

theorem session_restores_line_witness:
  "\<exists>t z u. serial_io_open script_os (Some tty_path) 115200
      (dev (on_script zero_packet [Some char_C, Some ACK, Some ACK] [] termios0)) = (3, t) \<and>
    xmodem_transmit_package (serial_xport script_os) [0x41] \<lparr>pkt_buf = zero_packet, dev = t\<rparr> = (128, z) \<and>
    c_vtime (tty_attrs (world t)) = 30 \<and>
    serial_io_close script_os (dev z) = (0, u) \<and> c_vtime (tty_attrs (world u)) = 0"
proof -
  let ?rx = "[Some char_C, Some ACK, Some ACK]"
  let ?s = "dev (on_script zero_packet ?rx [] termios0)"
  let ?a = "serial_tio\<lparr>c_ospeed := B115200, c_ispeed := B115200\<rparr>"
  let ?t = "dev (on_script zero_packet ?rx [] ?a)"
  have o1: "serial_io_open script_os (Some tty_path) 115200 ?s = (3, ?t)"
    by (simp add: serial_io_open_def on_script_def tty_fd_def baud_of_speed_def Let_def)
  have eq: "\<lparr>pkt_buf = zero_packet, dev = ?t\<rparr> = on_script zero_packet ?rx [] ?a" by (simp add: on_script_def)
  obtain k tx at where o2: "xmodem_transmit_package (serial_xport script_os) [0x41] \<lparr>pkt_buf = zero_packet, dev = ?t\<rparr>
      = (128, on_script k [] tx at)"
    unfolding eq by (simp add: xmodem_transmit_package_def on_script_run transmit_loop.simps)
  obtain u where o3: "serial_io_close script_os (dev (on_script k [] tx at)) = (0, u)"
    by (simp add: serial_io_close_def on_script_def tty_fd_def)
  have "session script_os \<lparr>pkt_buf = zero_packet, dev = ?t\<rparr> (on_script k [] tx at)"
    by (rule port_session.transmit [OF port_session.start o2])
  from session_restores_line [OF script_tty.posix_tty_axioms o1 _ this o3]
  have "tty_attrs (world u) = termios0" by (simp add: on_script_def)
  with o1 o2 o3 show ?thesis
    by (intro exI [of _ ?t] exI [of _ "on_script k [] tx at"] exI [of _ u])
      (simp add: on_script_def serial_tio_def termios0_def)
qed

text \<open>C26: the handler of \<open>SIGINT\<close> ends the program with 128 plus the signal number; when the
  terminal accepts its old settings, they are in force again.\<close>

theorem signal_restores_line:
  assumes "posix_tty os attrs" and "serial_io_open os path speed s = (h, t)" and "0 \<le> h"
    and "session os \<lparr>pkt_buf = k, dev = t\<rparr> y"
    and "fst (os_tcsetattr os h (attrs (world s)) (world (dev y))) = 0"
  shows "\<exists>u. signal_handler os sig (dev y) = Some (Exit (128 + sig), u) \<and> attrs (world u) = attrs (world s)"
proof -
  have "serial_statics h (attrs (world s)) t"
    using posix_tty.open_saves [OF assms(1-3)] by (simp add: serial_statics_def)
  then have st: "serial_handle (dev y) = h" "tio_initial (dev y) = attrs (world s)"
    using session_statics [OF assms(4)] by (simp_all add: serial_statics_def)
  obtain w where 1: "os_tcsetattr os h (attrs (world s)) (world (dev y)) = (0, w)"
    using assms(5) by (metis prod.collapse)
  obtain r w' where 2: "os_close os h w = (r, w')" by fastforce
  have "attrs w' = attrs (world s)"
    using posix_tty.setattr [OF assms(1) 1] posix_tty.close_attrs [OF assms(1), of h w] 2 by simp
  then show ?thesis using assms(3) by (simp add: signal_handler_def serial_io_close_def st 1 2)
qed

theorem signal_restores_line_witness:
  "\<exists>t u. serial_io_open script_os (Some tty_path) 9600 (dev (on_script zero_packet [] [] termios0)) = (3, t) \<and>
    c_vtime (tty_attrs (world t)) = 30 \<and>
    signal_handler script_os 2 t = Some (Exit 130, u) \<and> c_vtime (tty_attrs (world u)) = 0"
proof -
  let ?t = "dev (on_script zero_packet [] [] (serial_tio\<lparr>c_ospeed := B9600, c_ispeed := B9600\<rparr>))"
  have o1: "serial_io_open script_os (Some tty_path) 9600 (dev (on_script zero_packet [] [] termios0)) = (3, ?t)"
    by (simp add: serial_io_open_def on_script_def tty_fd_def baud_of_speed_def Let_def)
  have "\<exists>u. signal_handler script_os 2 (dev \<lparr>pkt_buf = zero_packet, dev = ?t\<rparr>) = Some (Exit (128 + 2), u) \<and>
      tty_attrs (world u) = termios0"
    using signal_restores_line [OF script_tty.posix_tty_axioms o1 _ port_session.start, where sig = 2]
    by (simp add: on_script_def tty_fd_def)
  then show ?thesis using o1
    by (auto simp: on_script_def serial_tio_def termios0_def)
qed

end
