(* ===== verification/Serial_Windows.thy ===== *)
theory Serial_Windows
  imports Serial_Props
begin

unbundle bit_operations_syntax

text \<open>
  The Windows serial port, src/qda/serial_io_windows.c, which a build for Windows has in the
  place of serial_io.c. The calls of the Windows API are the parameter \<open>os\<close>; the two static
  variables and the outside world are the state. Functions that serial_io.c has too end in
  \<open>_win\<close>.
\<close>

section \<open>Data\<close>

text \<open>The control block of a port and its timeouts, as the API defines them.\<close>

record dcb =
  DCBlength :: u32
  BaudRate :: u32
  dcb_flags :: u32
  XonLim :: u16
  XoffLim :: u16
  ByteSize :: u8
  Parity :: u8
  StopBits :: u8
  dcb_chars :: "u8 list"

definition dcb0 :: dcb where
  "dcb0 = \<lparr>DCBlength = 0, BaudRate = 0, dcb_flags = 0, XonLim = 0, XoffLim = 0, ByteSize = 0,
     Parity = 0, StopBits = 0, dcb_chars = [0, 0, 0, 0, 0]\<rparr>"

record comm_timeouts =
  ReadIntervalTimeout :: u32
  ReadTotalTimeoutMultiplier :: u32
  ReadTotalTimeoutConstant :: u32
  WriteTotalTimeoutMultiplier :: u32
  WriteTotalTimeoutConstant :: u32

text \<open>
  The calls: \<open>ReadFile(h, ch, 1, &n, NULL)\<close> with \<open>n\<close> and the content of \<open>ch\<close> as values,
  \<open>CreateFile\<close> with the constant arguments left out. A \<open>HANDLE\<close> is a number, a \<open>BOOL\<close> a
  truth value.
\<close>

record 'w win_os =
  w_read :: "int \<Rightarrow> u32 \<Rightarrow> u8 \<Rightarrow> 'w \<Rightarrow> (u32 \<times> u8) \<times> 'w"
  w_write :: "int \<Rightarrow> u8 \<Rightarrow> 'w \<Rightarrow> 'w"
  w_set_timeouts :: "int \<Rightarrow> comm_timeouts \<Rightarrow> 'w \<Rightarrow> bool \<times> 'w"
  w_create :: "string \<Rightarrow> 'w \<Rightarrow> int \<times> 'w"
  w_get_state :: "int \<Rightarrow> dcb \<Rightarrow> 'w \<Rightarrow> (bool \<times> dcb) \<times> 'w"
  w_set_state :: "int \<Rightarrow> dcb \<Rightarrow> 'w \<Rightarrow> bool \<times> 'w"
  w_escape :: "int \<Rightarrow> u32 \<Rightarrow> 'w \<Rightarrow> bool \<times> 'w"
  w_usleep :: "nat \<Rightarrow> 'w \<Rightarrow> 'w"
  w_close :: "int \<Rightarrow> 'w \<Rightarrow> bool \<times> 'w"

record 'w win_serial =
  win_handle :: int
  serial_initial_params :: dcb
  win_world :: 'w

definition INVALID_HANDLE_VALUE :: int where "INVALID_HANDLE_VALUE = - 1"
definition SETRTS :: u32 where "SETRTS = 3"
definition CLRRTS :: u32 where "CLRRTS = 4"
definition MAX_COM_PATH_LEN :: nat where "MAX_COM_PATH_LEN = 11"

definition COM_PATH_ESPACE_PREFIX :: string where
  "COM_PATH_ESPACE_PREFIX = [CHR 0x5C, CHR 0x5C, CHR ''.'', CHR 0x5C]"

section \<open>The XMODEM I/O layer\<close>

definition xmodem_putc_win :: "'w win_os \<Rightarrow> u8 \<Rightarrow> 'w win_serial \<Rightarrow> 'w win_serial" where
  "xmodem_putc_win os ch s = s\<lparr>win_world := w_write os (win_handle s) ch (win_world s)\<rparr>"

definition xmodem_getc_win :: "'w win_os \<Rightarrow> u8 \<Rightarrow> 'w win_serial \<Rightarrow> (int \<times> u8) \<times> 'w win_serial" where
  "xmodem_getc_win os ch s =
     (case w_read os (win_handle s) 0 ch (win_world s) of ((n_bytes_read, ch'), w) \<Rightarrow>
        ((if n_bytes_read = 1 then 0 else if n_bytes_read = 0 then - ETIMEDOUT else - EIO, ch'), s\<lparr>win_world := w\<rparr>))"

definition xmodem_set_timeout_win :: "'w win_os \<Rightarrow> int \<Rightarrow> 'w win_serial \<Rightarrow> int \<times> 'w win_serial" where
  "xmodem_set_timeout_win os ms s =
     (let timeouts = \<lparr>ReadIntervalTimeout = word_of_int ms, ReadTotalTimeoutMultiplier = 0,
        ReadTotalTimeoutConstant = word_of_int ms, WriteTotalTimeoutMultiplier = 0,
        WriteTotalTimeoutConstant = word_of_int ms\<rparr> in
      case w_set_timeouts os (win_handle s) timeouts (win_world s) of (ok, w) \<Rightarrow>
        if \<not> ok then (- 1, s\<lparr>win_world := snd (w_close os (win_handle s) w)\<rparr>)
        else (0, s\<lparr>win_world := w\<rparr>))"

definition win_xport :: "'w win_os \<Rightarrow> 'w win_serial xport" where
  "win_xport os = \<lparr>x_getc = xmodem_getc_win os, x_putc = xmodem_putc_win os,
     x_set_timeout = xmodem_set_timeout_win os\<rparr>"

section \<open>Opening, detaching, closing\<close>

text \<open>The constants \<open>CBR_\<close>\<open>n\<close> are the speeds themselves.\<close>

definition cbr_of_speed :: "int \<Rightarrow> u32 option" where
  "cbr_of_speed speed =
    (if speed = 1200 then Some 1200
     else if speed = 2400 then Some 2400
     else if speed = 4800 then Some 4800
     else if speed = 9600 then Some 9600
     else if speed = 19200 then Some 19200
     else if speed = 38400 then Some 38400
     else if speed = 57600 then Some 57600
     else if speed = 115200 then Some 115200
     else None)"

text \<open>
  A path that is \<open>NULL\<close> is no argument for \<open>%s\<close>. \<open>snprintf\<close> returns the length the whole
  string has.
\<close>

definition serial_io_open_win :: "'w win_os \<Rightarrow> string option \<Rightarrow> int \<Rightarrow> ('w win_serial, int) prog" where
  "serial_io_open_win os path speed s = (case path of None \<Rightarrow> undefp s | Some path \<Rightarrow>
     let escaped_path = COM_PATH_ESPACE_PREFIX @ path in
     if MAX_COM_PATH_LEN \<le> length escaped_path then retp (- 1) s else
     case w_create os escaped_path (win_world s) of (h, w) \<Rightarrow>
     let s = s\<lparr>win_handle := h, win_world := w\<rparr> in
     if h = INVALID_HANDLE_VALUE then retp (- 1) s else
     case w_get_state os h (serial_initial_params s) (win_world s) of ((ok, d), w) \<Rightarrow>
     let s = s\<lparr>serial_initial_params := d, win_world := w\<rparr> in
     if \<not> ok then retp (- 1) (s\<lparr>win_world := snd (w_close os h (win_world s))\<rparr>) else
     let serial_params = dcb0\<lparr>ByteSize := 8, StopBits := 0, Parity := 0\<rparr> in
     case cbr_of_speed speed of None \<Rightarrow> retp (- 1) s | Some b \<Rightarrow>
     case w_set_state os h (serial_params\<lparr>BaudRate := b\<rparr>) (win_world s) of (ok, w) \<Rightarrow>
     let s = s\<lparr>win_world := w\<rparr> in
     if \<not> ok then retp (- 1) (s\<lparr>win_world := snd (w_close os h (win_world s))\<rparr>) else retp 0 s)"

definition serial_detach_win :: "'w win_os \<Rightarrow> 'w win_serial \<Rightarrow> int \<times> 'w win_serial" where
  "serial_detach_win os s =
     (case w_escape os (win_handle s) SETRTS (win_world s) of (ok, w) \<Rightarrow>
      if \<not> ok then (- 1, s\<lparr>win_world := w\<rparr>) else
      let w = w_usleep os 100000 w in
      case w_escape os (win_handle s) CLRRTS w of (ok, w) \<Rightarrow>
      (if \<not> ok then - 1 else 0, s\<lparr>win_world := w\<rparr>))"

definition serial_io_close_win :: "'w win_os \<Rightarrow> 'w win_serial \<Rightarrow> int \<times> 'w win_serial" where
  "serial_io_close_win os s =
     (if win_handle s = INVALID_HANDLE_VALUE then (- 1, s) else
      case w_set_state os (win_handle s) (serial_initial_params s) (win_world s) of (ok, w) \<Rightarrow>
      if \<not> ok then (- 1, s\<lparr>win_world := w\<rparr>)
      else case w_close os (win_handle s) w of (ok, w) \<Rightarrow> (if \<not> ok then - 1 else 0, s\<lparr>win_world := w\<rparr>))"

section \<open>The contract of the API\<close>

text \<open>
  What is documented of the calls and the file relies on: \<open>ReadFile\<close> reports at most the one
  byte asked for and stores it only then; \<open>GetCommState\<close> stores the control block of the
  port, \<open>SetCommState\<close> sets it when it succeeds, and no other call changes it. \<open>state\<close>
  observes the control block.
\<close>

locale win_port =
  fixes os :: "'w win_os" and state :: "'w \<Rightarrow> dcb"
  assumes read_count: "w_read os h 0 ch w = ((n, ch'), w') \<Longrightarrow> n = 0 \<and> ch' = ch \<or> n = 1"
    and read_state: "state (snd (w_read os h n ch w)) = state w"
    and write_state: "state (w_write os h b w) = state w"
    and timeouts_state: "state (snd (w_set_timeouts os h t w)) = state w"
    and create_state: "state (snd (w_create os p w)) = state w"
    and escape_state: "state (snd (w_escape os h c w)) = state w"
    and usleep_state: "state (w_usleep os us w) = state w"
    and close_state: "state (snd (w_close os h w)) = state w"
    and get_state: "w_get_state os h d w = ((ok, d'), w') \<Longrightarrow> state w' = state w \<and> (ok \<longrightarrow> d' = state w)"
    and set_state: "w_set_state os h d w = (ok, w') \<Longrightarrow> state w' = (if ok then d else state w)"
begin

lemma win_getc_code: "xmodem_getc_win os ch s = ((r, ch'), t) \<Longrightarrow> r \<le> 0"
  by (auto simp: xmodem_getc_win_def ETIMEDOUT_def EIO_def split: prod.splits if_splits)

lemma win_getc_keep: "xmodem_getc_win os ch s = ((r, ch'), t) \<Longrightarrow> r < 0 \<Longrightarrow> ch' = ch"
  by (auto simp: xmodem_getc_win_def split: prod.splits if_splits dest: read_count)

end

sublocale win_port \<subseteq> win: xport_laws "win_xport os"
  by unfold_locales (auto simp: win_xport_def dest: win_getc_code win_getc_keep)

text \<open>Opening takes paths of at most six characters and keeps the control block for closing.\<close>

context win_port
begin

lemma open_win_saves:
  assumes "serial_io_open_win os path speed s = Some (Ret 0, t)"
  shows "serial_initial_params t = state (win_world s)" and "win_handle t \<noteq> INVALID_HANDLE_VALUE"
    and "\<exists>p b. path = Some p \<and> length p \<le> 6 \<and> cbr_of_speed speed = Some b \<and>
      state (win_world t) = dcb0\<lparr>ByteSize := 8, StopBits := 0, Parity := 0, BaudRate := b\<rparr>"
proof -
  obtain p where p: "path = Some p" using assms by (cases path) (auto simp: serial_io_open_win_def undefp_def)
  obtain h w1 where 1: "w_create os (COM_PATH_ESPACE_PREFIX @ p) (win_world s) = (h, w1)" by fastforce
  obtain ok2 d w2 where 2: "w_get_state os h (serial_initial_params s) w1 = ((ok2, d), w2)" by (metis surj_pair)
  have l: "length COM_PATH_ESPACE_PREFIX = 4" by (simp add: COM_PATH_ESPACE_PREFIX_def)
  have ok: "\<not> MAX_COM_PATH_LEN \<le> 4 + length p" "h \<noteq> INVALID_HANDLE_VALUE" "ok2"
    using assms by (auto simp: serial_io_open_win_def Let_def p 1 2 l retp_def split: if_splits)
  then obtain b where b: "cbr_of_speed speed = Some b"
    using assms by (cases "cbr_of_speed speed") (auto simp: serial_io_open_win_def Let_def p 1 2 l retp_def split: if_splits)
  obtain ok3 w3 where 3: "w_set_state os h (dcb0\<lparr>ByteSize := 8, StopBits := 0, Parity := 0, BaudRate := b\<rparr>) w2 = (ok3, w3)"
    by fastforce
  have t: "ok3" "t = s\<lparr>win_handle := h, serial_initial_params := d, win_world := w3\<rparr>"
    using assms ok by (auto simp: serial_io_open_win_def Let_def p 1 2 3 b l retp_def split: if_splits)
  have "state w1 = state (win_world s)" using create_state [of "COM_PATH_ESPACE_PREFIX @ p" "win_world s"] 1 by simp
  then show "serial_initial_params t = state (win_world s)" using get_state [OF 2] ok t by simp
  show "win_handle t \<noteq> INVALID_HANDLE_VALUE" using ok t by simp
  show "\<exists>p b. path = Some p \<and> length p \<le> 6 \<and> cbr_of_speed speed = Some b \<and>
      state (win_world t) = dcb0\<lparr>ByteSize := 8, StopBits := 0, Parity := 0, BaudRate := b\<rparr>"
    using ok p b t set_state [OF 3] by (auto simp: MAX_COM_PATH_LEN_def)
qed

lemma close_win_restores:
  assumes "serial_io_close_win os s = (0, t)"
  shows "state (win_world t) = serial_initial_params s"
proof -
  obtain ok1 w1 where 1: "w_set_state os (win_handle s) (serial_initial_params s) (win_world s) = (ok1, w1)"
    by fastforce
  obtain ok2 w2 where 2: "w_close os (win_handle s) w1 = (ok2, w2)" by fastforce
  have "ok1" "t = s\<lparr>win_world := w2\<rparr>" using assms by (auto simp: serial_io_close_win_def 1 2 split: if_splits)
  with set_state [OF 1] close_state [of "win_handle s" w1] show ?thesis by (simp add: 2)
qed

end

text \<open>The static variables, which no transfer and no detach pulse changes.\<close>

definition win_statics :: "int \<Rightarrow> dcb \<Rightarrow> 'w win_serial \<Rightarrow> bool" where
  "win_statics h d s \<longleftrightarrow> win_handle s = h \<and> serial_initial_params s = d"

interpretation win_statics: port_inv "win_xport os" "win_statics h d" for os h d
  by unfold_locales (auto simp: win_statics_def win_xport_def xmodem_getc_win_def xmodem_putc_win_def
      xmodem_set_timeout_win_def Let_def split: prod.splits)

lemma detach_win_statics: "win_statics h d s \<Longrightarrow> win_statics h d (snd (serial_detach_win os s))"
  by (auto simp: win_statics_def serial_detach_win_def Let_def split: prod.splits)

section \<open>A port on a script\<close>

text \<open>The counterpart of the terminal script, with a port \<open>COM1\<close>.\<close>

record com =
  com_rx :: "u8 option list"
  com_tx :: "u8 list"
  com_state :: dcb
  com_times :: "comm_timeouts list"

definition com_handle :: int where
  "com_handle = 7"

definition script_win :: "com win_os" where
  "script_win = \<lparr>
     w_read = (\<lambda>h n ch w. if h \<noteq> com_handle then ((0, ch), w) else
       case com_rx w of [] \<Rightarrow> ((0, ch), w)
       | o1 # rest \<Rightarrow> (case o1 of None \<Rightarrow> (0, ch) | Some b \<Rightarrow> (1, b), w\<lparr>com_rx := rest\<rparr>)),
     w_write = (\<lambda>h b w. if h \<noteq> com_handle then w else w\<lparr>com_tx := com_tx w @ [b]\<rparr>),
     w_set_timeouts = (\<lambda>h t w. (h = com_handle, w\<lparr>com_times := com_times w @ [t]\<rparr>)),
     w_create = (\<lambda>p w. (if p = COM_PATH_ESPACE_PREFIX @ ''COM1'' then com_handle else INVALID_HANDLE_VALUE, w)),
     w_get_state = (\<lambda>h d w. ((h = com_handle, if h = com_handle then com_state w else d), w)),
     w_set_state = (\<lambda>h d w. if h = com_handle then (True, w\<lparr>com_state := d\<rparr>) else (False, w)),
     w_escape = (\<lambda>h c w. (h = com_handle, w)),
     w_usleep = (\<lambda>n w. w),
     w_close = (\<lambda>h w. (h = com_handle, w))\<rparr>"

lemma script_win_simps [simp]:
  "w_read script_win h n ch w = (if h \<noteq> com_handle then ((0, ch), w) else
     case com_rx w of [] \<Rightarrow> ((0, ch), w)
     | o1 # rest \<Rightarrow> (case o1 of None \<Rightarrow> (0, ch) | Some b \<Rightarrow> (1, b), w\<lparr>com_rx := rest\<rparr>))"
  "w_write script_win h b w = (if h \<noteq> com_handle then w else w\<lparr>com_tx := com_tx w @ [b]\<rparr>)"
  "w_set_timeouts script_win h t w = (h = com_handle, w\<lparr>com_times := com_times w @ [t]\<rparr>)"
  "w_create script_win p w =
     (if p = COM_PATH_ESPACE_PREFIX @ ''COM1'' then com_handle else INVALID_HANDLE_VALUE, w)"
  "w_get_state script_win h d w = ((h = com_handle, if h = com_handle then com_state w else d), w)"
  "w_set_state script_win h d w = (if h = com_handle then (True, w\<lparr>com_state := d\<rparr>) else (False, w))"
  "w_escape script_win h c w = (h = com_handle, w)" "w_usleep script_win us w = w"
  "w_close script_win h w = (h = com_handle, w)"
  by (simp_all add: script_win_def)

interpretation script_win: win_port script_win com_state
  by unfold_locales (auto split: if_splits list.splits option.splits)

definition on_com :: "u8 option list \<Rightarrow> u8 list \<Rightarrow> dcb \<Rightarrow> comm_timeouts list \<Rightarrow> com win_serial" where
  "on_com rx tx d ts = \<lparr>win_handle = com_handle, serial_initial_params = dcb0,
     win_world = \<lparr>com_rx = rx, com_tx = tx, com_state = d, com_times = ts\<rparr>\<rparr>"

section \<open>Both ports to the same device\<close>

text \<open>
  The device at the other end of the line, with the line: \<open>recv t\<close> is what a reader gets who
  waits up to \<open>t\<close> milliseconds for a byte, \<open>send b\<close> is the arrival of a byte that was
  written. Time counts for the device while a reader waits.

  A POSIX line with such a device: the calls on the open terminal succeed, and \<open>read\<close> in
  non-canonical mode with \<open>MIN\<close> 0 waits for one byte up to \<open>TIME\<close> tenths of a second. \<open>far\<close>
  observes the device.
\<close>

locale posix_line = posix_tty os attrs for os :: "'w tty_os" and attrs +
  fixes fd :: int and far :: "'w \<Rightarrow> 'd"
    and recv :: "nat \<Rightarrow> 'd \<Rightarrow> u8 option \<times> 'd" and send :: "u8 \<Rightarrow> 'd \<Rightarrow> 'd"
  assumes line_read: "c_lflag (attrs w) = 0 \<Longrightarrow> c_vmin (attrs w) = 0 \<Longrightarrow>
      recv (100 * unat (c_vtime (attrs w))) (far w) = (got, d) \<Longrightarrow>
      fst (os_read os fd ch w) = (case got of None \<Rightarrow> (0, ch) | Some b \<Rightarrow> (1, b)) \<and>
      far (snd (os_read os fd ch w)) = d"
    and line_write: "far (snd (os_write os fd b w)) = send b (far w)"
    and line_getattr: "fst (fst (os_tcgetattr os fd t w)) = 0 \<and> far (snd (os_tcgetattr os fd t w)) = far w"
    and line_setattr: "fst (os_tcsetattr os fd t w) = 0 \<and> far (snd (os_tcsetattr os fd t w)) = far w"

text \<open>
  A Windows line with the device: the calls on the open port succeed, and \<open>ReadFile\<close> waits
  for one byte up to the total timeout that was set, unless that is 0, which means no timeout.
  \<open>tmo\<close> observes the timeouts.
\<close>

definition read_total :: "comm_timeouts \<Rightarrow> nat" where
  "read_total t = unat (ReadTotalTimeoutMultiplier t) + unat (ReadTotalTimeoutConstant t)"

locale win_line = win_port os state for os :: "'w win_os" and state +
  fixes hnd :: int and tmo :: "'w \<Rightarrow> comm_timeouts" and far :: "'w \<Rightarrow> 'd"
    and recv :: "nat \<Rightarrow> 'd \<Rightarrow> u8 option \<times> 'd" and send :: "u8 \<Rightarrow> 'd \<Rightarrow> 'd"
  assumes win_line_read: "0 < read_total (tmo w) \<Longrightarrow>
      recv (read_total (tmo w)) (far w) = (got, d) \<Longrightarrow>
      fst (w_read os hnd 0 ch w) = (case got of None \<Rightarrow> (0, ch) | Some b \<Rightarrow> (1, b)) \<and>
      far (snd (w_read os hnd 0 ch w)) = d"
    and win_read_tmo: "tmo (snd (w_read os hnd 0 ch w)) = tmo w"
    and win_line_write: "far (w_write os hnd b w) = send b (far w) \<and> tmo (w_write os hnd b w) = tmo w"
    and win_set_tmo: "fst (w_set_timeouts os hnd t w) \<and> tmo (snd (w_set_timeouts os hnd t w)) = t \<and>
      far (snd (w_set_timeouts os hnd t w)) = far w"

text \<open>
  Both ports are open on a line to the device, which is in the same state, the terminal in the
  mode \<open>serial_io_open\<close> sets. During a transfer both wait equally long too.
\<close>

definition same_device :: "int \<Rightarrow> ('v \<Rightarrow> termios) \<Rightarrow> ('v \<Rightarrow> 'd) \<Rightarrow> int \<Rightarrow> ('w \<Rightarrow> 'd) \<Rightarrow>
    'v serial \<Rightarrow> 'w win_serial \<Rightarrow> bool" where
  "same_device fd attrs far hnd far' s t \<longleftrightarrow> serial_handle s = fd \<and> win_handle t = hnd \<and>
     far (world s) = far' (win_world t) \<and> c_lflag (attrs (world s)) = 0 \<and> c_vmin (attrs (world s)) = 0"

locale both_lines =
  unix: posix_line osu attrs fd far recv send + windows: win_line osw state hnd tmo far' recv send
  for osu :: "'v tty_os" and attrs and fd and far :: "'v \<Rightarrow> 'd" and recv and send
    and osw :: "'w win_os" and state and hnd and tmo and far'
begin

definition same_wait :: "'v serial \<Rightarrow> 'w win_serial \<Rightarrow> bool" where
  "same_wait s t \<longleftrightarrow> same_device fd attrs far hnd far' s t \<and>
     100 * unat (c_vtime (attrs (world s))) = read_total (tmo (win_world t)) \<and>
     0 < read_total (tmo (win_world t))"

lemma getc_same:
  assumes "same_wait s t"
  shows "fst (x_getc (serial_xport osu) ch s) = fst (x_getc (win_xport osw) ch t) \<and>
    same_wait (snd (x_getc (serial_xport osu) ch s)) (snd (x_getc (win_xport osw) ch t))"
proof -
  from assms have st: "serial_handle s = fd" "win_handle t = hnd" "far (world s) = far' (win_world t)"
      "c_lflag (attrs (world s)) = 0" "c_vmin (attrs (world s)) = 0"
      "100 * unat (c_vtime (attrs (world s))) = read_total (tmo (win_world t))"
      "0 < read_total (tmo (win_world t))"
    by (simp_all add: same_wait_def same_device_def)
  obtain got d where "recv (read_total (tmo (win_world t))) (far (world s)) = (got, d)" by fastforce
  then have u: "fst (os_read osu fd ch (world s)) = (case got of None \<Rightarrow> (0, ch) | Some b \<Rightarrow> (1, b))"
      "far (snd (os_read osu fd ch (world s))) = d"
    and w: "fst (w_read osw hnd 0 ch (win_world t)) = (case got of None \<Rightarrow> (0, ch) | Some b \<Rightarrow> (1, b))"
      "far' (snd (w_read osw hnd 0 ch (win_world t))) = d"
    using unix.line_read [of "world s" got d ch] windows.win_line_read [of "win_world t" got d ch] st
    by simp_all
  have "attrs (snd (os_read osu fd ch (world s))) = attrs (world s)"
      "tmo (snd (w_read osw hnd 0 ch (win_world t))) = tmo (win_world t)"
    by (simp_all add: unix.read_attrs windows.win_read_tmo)
  with u w st show ?thesis
    by (cases got) (auto simp: serial_xport_def win_xport_def xmodem_getc_def xmodem_getc_win_def
        same_wait_def same_device_def split: prod.splits)
qed

lemma set_timeout_same:
  assumes "same_device fd attrs far hnd far' s t" and ms: "ms \<in> {3000, 300}"
  shows "fst (x_set_timeout (serial_xport osu) ms s) = fst (x_set_timeout (win_xport osw) ms t) \<and>
    same_wait (snd (x_set_timeout (serial_xport osu) ms s)) (snd (x_set_timeout (win_xport osw) ms t))"
proof -
  from assms(1) have st: "serial_handle s = fd" "win_handle t = hnd" "far (world s) = far' (win_world t)"
      "c_lflag (attrs (world s)) = 0" "c_vmin (attrs (world s)) = 0"
    by (simp_all add: same_device_def)
  obtain a w1 where 1: "os_tcgetattr osu fd termios0 (world s) = ((0, a), w1)" "far w1 = far (world s)"
    using unix.line_getattr [of termios0 "world s"] by (metis prod.collapse)
  have a: "a = attrs (world s)" using unix.getattr [OF 1(1)] by simp
  define v :: u8 where "v = word_of_int (sgn ms * (\<bar>ms\<bar> div 100))"
  let ?a = "a\<lparr>c_vtime := v\<rparr>"
  obtain w2 where 2: "os_tcsetattr osu fd ?a w1 = (0, w2)" "far w2 = far (world s)"
    using unix.line_setattr [of ?a w1] 1(2) by (metis prod.collapse)
  have at: "attrs w2 = ?a" using unix.setattr [OF 2(1)] by simp
  let ?t = "\<lparr>ReadIntervalTimeout = word_of_int ms, ReadTotalTimeoutMultiplier = 0,
    ReadTotalTimeoutConstant = word_of_int ms, WriteTotalTimeoutMultiplier = 0,
    WriteTotalTimeoutConstant = word_of_int ms\<rparr> :: comm_timeouts"
  obtain w3 where 3: "w_set_timeouts osw hnd ?t (win_world t) = (True, w3)" "tmo w3 = ?t"
      "far' w3 = far' (win_world t)"
    using windows.win_set_tmo [of ?t "win_world t"] by (metis (full_types) prod.collapse)
  have "100 * unat v = read_total ?t" "0 < read_total ?t"
    using ms by (auto simp: read_total_def v_def)
  moreover have "xmodem_set_timeout osu ms s = (0, s\<lparr>world := w2\<rparr>)"
    unfolding xmodem_set_timeout_def st(1) 1 v_def [symmetric] prod.case 2 by simp
  moreover have "xmodem_set_timeout_win osw ms t = (0, t\<lparr>win_world := w3\<rparr>)"
    by (simp add: xmodem_set_timeout_win_def st(2) 3)
  ultimately show ?thesis
    using st a by (simp add: serial_xport_def win_xport_def 2 3 at same_wait_def same_device_def)
qed

end

sublocale both_lines \<subseteq> lines: port_sim "serial_xport osu" "win_xport osw" same_wait
proof
  show "same_wait (x_putc (serial_xport osu) b s) (x_putc (win_xport osw) b t)" if "same_wait s t" for s t b
    using that unix.line_write [of b "world s"] unix.write_attrs [of fd b "world s"]
      windows.win_line_write [of b "win_world t"]
    by (simp add: serial_xport_def win_xport_def xmodem_putc_def xmodem_putc_win_def same_wait_def same_device_def)
qed (use getc_same set_timeout_same in \<open>auto simp: same_wait_def\<close>)

context both_lines
begin

lemma start_same:
  assumes "same_device fd attrs far hnd far' (dev x) (dev y)" and "pkt_buf x = pkt_buf y"
  shows "xm_rel same_wait (xm_set_timeout (serial_xport osu) TIMEOUT_STD x) (xm_set_timeout (win_xport osw) TIMEOUT_STD y)"
  using assms(2) set_timeout_same [OF assms(1), of TIMEOUT_STD] by (simp add: xm_rel_def xm_set_timeout_def)

lemmas transmit_same = lines.sim_transmit_from [OF start_same]
lemmas receive_same = lines.sim_receive_both [OF start_same]

end

section \<open>Lines to any device\<close>

text \<open>Both contracts hold with any device at the other end; the terminal is open as \<open>tty_fd\<close>,
  the Windows port as \<open>com_handle\<close>.\<close>

record 'd unix_end =
  ue_dev :: 'd
  ue_attrs :: termios

record 'd win_end =
  we_dev :: 'd
  we_times :: comm_timeouts
  we_state :: dcb

definition got_byte :: "'n \<Rightarrow> 'n \<Rightarrow> u8 \<Rightarrow> u8 option \<Rightarrow> 'n \<times> u8" where
  "got_byte none one ch got = (case got of None \<Rightarrow> (none, ch) | Some b \<Rightarrow> (one, b))"

definition unix_to :: "(nat \<Rightarrow> 'd \<Rightarrow> u8 option \<times> 'd) \<Rightarrow> (u8 \<Rightarrow> 'd \<Rightarrow> 'd) \<Rightarrow> 'd unix_end tty_os" where
  "unix_to recv send = \<lparr>
     os_read = (\<lambda>fd ch w. if fd \<noteq> tty_fd then ((- 1, ch), w) else
       case recv (100 * unat (c_vtime (ue_attrs w))) (ue_dev w) of (got, d) \<Rightarrow>
         (got_byte 0 1 ch got, w\<lparr>ue_dev := d\<rparr>)),
     os_write = (\<lambda>fd b w. if fd \<noteq> tty_fd then (- 1, w) else (1, w\<lparr>ue_dev := send b (ue_dev w)\<rparr>)),
     os_open = (\<lambda>path w. if path = Some tty_path then (tty_fd, w) else (- 1, w)),
     os_isatty = (\<lambda>fd w. (if fd = tty_fd then 1 else 0, w)),
     os_tcgetattr = (\<lambda>fd t w. if fd = tty_fd then ((0, ue_attrs w), w) else ((- 1, t), w)),
     os_tcsetattr = (\<lambda>fd t w. if fd = tty_fd then (0, w\<lparr>ue_attrs := t\<rparr>) else (- 1, w)),
     os_tiocmget = (\<lambda>fd m w. ((- 1, m), w)), os_tiocmset = (\<lambda>fd m w. (- 1, w)),
     os_usleep = (\<lambda>n w. w), os_signal = (\<lambda>w. w), os_close = (\<lambda>fd w. (0, w))\<rparr>"

definition win_to :: "(nat \<Rightarrow> 'd \<Rightarrow> u8 option \<times> 'd) \<Rightarrow> (u8 \<Rightarrow> 'd \<Rightarrow> 'd) \<Rightarrow> 'd win_end win_os" where
  "win_to recv send = \<lparr>
     w_read = (\<lambda>h n ch w. if h \<noteq> com_handle then ((0, ch), w) else
       case recv (read_total (we_times w)) (we_dev w) of (got, d) \<Rightarrow>
         (got_byte 0 1 ch got, w\<lparr>we_dev := d\<rparr>)),
     w_write = (\<lambda>h b w. if h \<noteq> com_handle then w else w\<lparr>we_dev := send b (we_dev w)\<rparr>),
     w_set_timeouts = (\<lambda>h t w. if h \<noteq> com_handle then (False, w) else (True, w\<lparr>we_times := t\<rparr>)),
     w_create = (\<lambda>p w. (if p = COM_PATH_ESPACE_PREFIX @ ''COM1'' then com_handle else INVALID_HANDLE_VALUE, w)),
     w_get_state = (\<lambda>h d w. ((h = com_handle, if h = com_handle then we_state w else d), w)),
     w_set_state = (\<lambda>h d w. if h = com_handle then (True, w\<lparr>we_state := d\<rparr>) else (False, w)),
     w_escape = (\<lambda>h c w. (h = com_handle, w)),
     w_usleep = (\<lambda>n w. w),
     w_close = (\<lambda>h w. (h = com_handle, w))\<rparr>"

interpretation unix_to: posix_line "unix_to recv send" ue_attrs tty_fd ue_dev recv send for recv send
  by unfold_locales (auto simp: unix_to_def got_byte_def split: if_splits prod.splits option.splits)

interpretation win_to: win_line "win_to recv send" we_state com_handle we_times we_dev recv send for recv send
  by unfold_locales (auto simp: win_to_def got_byte_def split: if_splits prod.splits option.splits)

interpretation to_both: both_lines "unix_to recv send" ue_attrs tty_fd ue_dev recv send
    "win_to recv send" we_state com_handle we_times we_dev for recv send
  ..

text \<open>
  A device that talks slowly: the bytes to come, each with the milliseconds that pass before
  it, and the bytes that reached it.
\<close>

fun slow_recv :: "nat \<Rightarrow> (nat \<times> u8) list \<times> u8 list \<Rightarrow> u8 option \<times> (nat \<times> u8) list \<times> u8 list" where
  "slow_recv t ([], got) = (None, [], got)"
| "slow_recv t ((ms, b) # bs, got) = (if ms \<le> t then (Some b, bs, got) else (None, (ms - t, b) # bs, got))"

fun slow_send :: "u8 \<Rightarrow> (nat \<times> u8) list \<times> u8 list \<Rightarrow> (nat \<times> u8) list \<times> u8 list" where
  "slow_send b (bs, got) = (bs, got @ [b])"

definition no_timeouts :: comm_timeouts where
  "no_timeouts = \<lparr>ReadIntervalTimeout = 0, ReadTotalTimeoutMultiplier = 0, ReadTotalTimeoutConstant = 0,
     WriteTotalTimeoutMultiplier = 0, WriteTotalTimeoutConstant = 0\<rparr>"

text \<open>C27: over a Windows line to the device that a POSIX line is connected to, whatever the
  device does with the bytes and with the time a reader waits, a transfer in either direction
  goes as over the POSIX line: it returns in both cases or in neither, with the same result and
  the same data, and leaves the device in the same state, ready for the next transfer. The
  calls on both lines succeed; the terminal is in the mode \<open>serial_io_open\<close> sets.\<close>

theorem windows_same_transfer:
  assumes unix: "posix_line osu attrs fd far recv send"
    and windows: "win_line osw state hnd tmo far' recv send"
    and "same_device fd attrs far hnd far' (dev x) (dev y)" and "pkt_buf x = pkt_buf y"
  shows "(\<exists>n x' y'. xmodem_transmit_package (serial_xport osu) data x = (n, x') \<and>
      xmodem_transmit_package (win_xport osw) data y = (n, y') \<and>
      same_device fd attrs far hnd far' (dev x') (dev y')) \<and>
    ((xmodem_receive_package (serial_xport osu) buf x = None \<and>
        xmodem_receive_package (win_xport osw) buf y = None) \<or>
      (\<exists>r x' y'. xmodem_receive_package (serial_xport osu) buf x = Some (r, x') \<and>
        xmodem_receive_package (win_xport osw) buf y = Some (r, y') \<and>
        same_device fd attrs far hnd far' (dev x') (dev y')))"
proof -
  have b: "both_lines osu attrs fd far recv send osw state hnd tmo far'"
    by (rule both_lines.intro [OF unix windows])
  note wait = both_lines.same_wait_def [OF b]
  have "\<exists>n x' y'. xmodem_transmit_package (serial_xport osu) data x = (n, x') \<and>
      xmodem_transmit_package (win_xport osw) data y = (n, y') \<and>
      same_device fd attrs far hnd far' (dev x') (dev y')"
    using res_relE [OF both_lines.transmit_same [OF b assms(3,4), of data]] by (metis xm_rel_def wait)
  moreover have "(xmodem_receive_package (serial_xport osu) buf x = None \<and>
        xmodem_receive_package (win_xport osw) buf y = None) \<or>
      (\<exists>r x' y'. xmodem_receive_package (serial_xport osu) buf x = Some (r, x') \<and>
        xmodem_receive_package (win_xport osw) buf y = Some (r, y') \<and>
        same_device fd attrs far hnd far' (dev x') (dev y'))"
    using both_lines.receive_same [OF b assms(3,4), of buf]
    by (auto elim!: option.rel_cases res_relE simp: xm_rel_def wait)
  ultimately show ?thesis by simp
qed

text \<open>The device is silent for 4 seconds, so the first read of both ports, which waits 3
  seconds, times out and the request is sent again; then it ends the empty transfer.\<close>

theorem windows_same_transfer_witness:
  "\<exists>y'. xmodem_receive_package (win_xport (win_to slow_recv slow_send)) []
      \<lparr>pkt_buf = zero_packet, dev = \<lparr>win_handle = com_handle, serial_initial_params = dcb0,
        win_world = \<lparr>we_dev = ([(4000, EOT)], []), we_times = no_timeouts, we_state = dcb0\<rparr>\<rparr>\<rparr> = Some ((0, []), y') \<and>
    we_dev (win_world (dev y')) = ([], [char_C, char_C, ACK])"
proof -
  let ?x = "\<lparr>pkt_buf = zero_packet, dev = \<lparr>serial_handle = tty_fd, tio_initial = termios0,
    world = \<lparr>ue_dev = ([(4000, EOT)], []), ue_attrs = serial_tio\<rparr>\<rparr>\<rparr>"
  let ?y = "\<lparr>pkt_buf = zero_packet, dev = \<lparr>win_handle = com_handle, serial_initial_params = dcb0,
    win_world = \<lparr>we_dev = ([(4000, EOT)], []), we_times = no_timeouts, we_state = dcb0\<rparr>\<rparr>\<rparr>"
  let ?x' = "?x\<lparr>dev := dev ?x\<lparr>world := \<lparr>ue_dev = ([], [char_C, char_C, ACK]), ue_attrs = serial_tio\<rparr>\<rparr>\<rparr>"
  note defs = xm_set_timeout_def xm_getc_def xm_putc_def serial_xport_def xmodem_set_timeout_def
    xmodem_getc_def xmodem_putc_def unix_to_def got_byte_def serial_tio_def termios0_def
    xmodem_read_pkt_def ETIMEDOUT_def
  have x': "xmodem_receive_package (serial_xport (unix_to slow_recv slow_send)) [] ?x = Some ((0, []), ?x')"
    by (simp add: xmodem_receive_package_def defs, subst receive_loop.simps, simp add: defs,
        subst receive_loop.simps, simp add: defs)
  have "same_device tty_fd ue_attrs ue_dev com_handle we_dev (dev ?x) (dev ?y)" "pkt_buf ?x = pkt_buf ?y"
    by (simp_all add: same_device_def serial_tio_def termios0_def)
  note same = windows_same_transfer [OF unix_to.posix_line_axioms [of slow_recv slow_send]
      win_to.win_line_axioms [of slow_recv slow_send] this, where data = "[]" and buf = "[]"]
  obtain y' where y': "xmodem_receive_package (win_xport (win_to slow_recv slow_send)) [] ?y = Some ((0, []), y')"
      "same_device tty_fd ue_attrs ue_dev com_handle we_dev (dev ?x') (dev y')"
    using same [THEN conjunct2] unfolding x' by auto
  then have "we_dev (win_world (dev y')) = ([], [char_C, char_C, ACK])" by (simp add: same_device_def)
  with y'(1) show ?thesis by blast
qed

section \<open>A session\<close>

text \<open>A port opened by \<open>serial_io_open\<close>, whose path has at most six characters, used for any
  transfers and detach pulses and closed by \<open>serial_io_close\<close>, has the control block it had
  before, as on Unix.\<close>

lemma windows_session_restores:
  assumes "win_port os state" and "serial_io_open_win os path speed s = Some (Ret 0, t)"
    and "port_session (win_xport os) (serial_detach_win os) \<lparr>pkt_buf = k, dev = t\<rparr> y"
    and "serial_io_close_win os (dev y) = (0, u)"
  shows "state (win_world u) = state (win_world s) \<and> (\<exists>p. path = Some p \<and> length p \<le> 6)"
proof -
  note o = win_port.open_win_saves [OF assms(1,2)]
  have "win_statics (win_handle t) (state (win_world s)) (dev y)"
    by (rule win_statics.session_inv [OF assms(3) detach_win_statics]) (simp_all add: win_statics_def o(1))
  then show ?thesis
    using win_port.close_win_restores [OF assms(1,4)] o(3) by (auto simp: win_statics_def)
qed

lemma windows_session_restores_example:
  "\<exists>t u. serial_io_open_win script_win (Some ''COM1'') 9600 (on_com [] [] (dcb0\<lparr>BaudRate := 1200\<rparr>) []) = Some (Ret 0, t) \<and>
     BaudRate (com_state (win_world t)) = 9600 \<and>
     serial_io_close_win script_win (snd (serial_detach_win script_win t)) = (0, u) \<and>
     BaudRate (com_state (win_world u)) = 1200"
proof -
  let ?d = "dcb0\<lparr>BaudRate := 1200\<rparr>"
  let ?t = "(on_com [] [] (dcb0\<lparr>ByteSize := 8, BaudRate := 9600\<rparr>) [])\<lparr>serial_initial_params := ?d\<rparr>"
  have o: "serial_io_open_win script_win (Some ''COM1'') 9600 (on_com [] [] ?d []) = Some (Ret 0, ?t)"
    by (simp add: serial_io_open_win_def Let_def on_com_def cbr_of_speed_def retp_def dcb0_def
        MAX_COM_PATH_LEN_def COM_PATH_ESPACE_PREFIX_def com_handle_def INVALID_HANDLE_VALUE_def)
  have d: "serial_detach_win script_win ?t = (0, ?t)"
    by (simp add: serial_detach_win_def on_com_def)
  have c: "serial_io_close_win script_win ?t = (0, (on_com [] [] ?d [])\<lparr>serial_initial_params := ?d\<rparr>)"
    by (simp add: serial_io_close_win_def on_com_def com_handle_def INVALID_HANDLE_VALUE_def)
  have "port_session (win_xport script_win) (serial_detach_win script_win) \<lparr>pkt_buf = zero_packet, dev = ?t\<rparr>
      (\<lparr>pkt_buf = zero_packet, dev = ?t\<rparr>\<lparr>dev := ?t\<rparr>)"
    by (rule port_session.detach [OF port_session.start]) (simp add: d)
  from windows_session_restores [OF script_win.win_port_axioms o this, of "(on_com [] [] ?d [])\<lparr>serial_initial_params := ?d\<rparr>"]
  have "com_state (win_world ((on_com [] [] ?d [])\<lparr>serial_initial_params := ?d\<rparr>)) = ?d"
    using c by (simp add: on_com_def)
  then show ?thesis using o d c by (auto simp: on_com_def)
qed

end
