(* ===== verification/Crc32.thy ===== *)
theory Crc32
  imports Dfu_Prelude
begin

unbundle bit_operations_syntax

text \<open>
  The checksum of DFU files: the table and \<open>crc32_byte\<close> of src/dfu_file.c, shown equal to the
  bitwise CRC-32 with the reflected polynomial 0xEDB88320.
\<close>

section \<open>The code\<close>

definition crc32_table :: "u32 list" where
  "crc32_table = [
     0x00000000, 0x77073096, 0xee0e612c, 0x990951ba, 0x076dc419, 0x706af48f,
     0xe963a535, 0x9e6495a3, 0x0edb8832, 0x79dcb8a4, 0xe0d5e91e, 0x97d2d988,
     0x09b64c2b, 0x7eb17cbd, 0xe7b82d07, 0x90bf1d91, 0x1db71064, 0x6ab020f2,
     0xf3b97148, 0x84be41de, 0x1adad47d, 0x6ddde4eb, 0xf4d4b551, 0x83d385c7,
     0x136c9856, 0x646ba8c0, 0xfd62f97a, 0x8a65c9ec, 0x14015c4f, 0x63066cd9,
     0xfa0f3d63, 0x8d080df5, 0x3b6e20c8, 0x4c69105e, 0xd56041e4, 0xa2677172,
     0x3c03e4d1, 0x4b04d447, 0xd20d85fd, 0xa50ab56b, 0x35b5a8fa, 0x42b2986c,
     0xdbbbc9d6, 0xacbcf940, 0x32d86ce3, 0x45df5c75, 0xdcd60dcf, 0xabd13d59,
     0x26d930ac, 0x51de003a, 0xc8d75180, 0xbfd06116, 0x21b4f4b5, 0x56b3c423,
     0xcfba9599, 0xb8bda50f, 0x2802b89e, 0x5f058808, 0xc60cd9b2, 0xb10be924,
     0x2f6f7c87, 0x58684c11, 0xc1611dab, 0xb6662d3d, 0x76dc4190, 0x01db7106,
     0x98d220bc, 0xefd5102a, 0x71b18589, 0x06b6b51f, 0x9fbfe4a5, 0xe8b8d433,
     0x7807c9a2, 0x0f00f934, 0x9609a88e, 0xe10e9818, 0x7f6a0dbb, 0x086d3d2d,
     0x91646c97, 0xe6635c01, 0x6b6b51f4, 0x1c6c6162, 0x856530d8, 0xf262004e,
     0x6c0695ed, 0x1b01a57b, 0x8208f4c1, 0xf50fc457, 0x65b0d9c6, 0x12b7e950,
     0x8bbeb8ea, 0xfcb9887c, 0x62dd1ddf, 0x15da2d49, 0x8cd37cf3, 0xfbd44c65,
     0x4db26158, 0x3ab551ce, 0xa3bc0074, 0xd4bb30e2, 0x4adfa541, 0x3dd895d7,
     0xa4d1c46d, 0xd3d6f4fb, 0x4369e96a, 0x346ed9fc, 0xad678846, 0xda60b8d0,
     0x44042d73, 0x33031de5, 0xaa0a4c5f, 0xdd0d7cc9, 0x5005713c, 0x270241aa,
     0xbe0b1010, 0xc90c2086, 0x5768b525, 0x206f85b3, 0xb966d409, 0xce61e49f,
     0x5edef90e, 0x29d9c998, 0xb0d09822, 0xc7d7a8b4, 0x59b33d17, 0x2eb40d81,
     0xb7bd5c3b, 0xc0ba6cad, 0xedb88320, 0x9abfb3b6, 0x03b6e20c, 0x74b1d29a,
     0xead54739, 0x9dd277af, 0x04db2615, 0x73dc1683, 0xe3630b12, 0x94643b84,
     0x0d6d6a3e, 0x7a6a5aa8, 0xe40ecf0b, 0x9309ff9d, 0x0a00ae27, 0x7d079eb1,
     0xf00f9344, 0x8708a3d2, 0x1e01f268, 0x6906c2fe, 0xf762575d, 0x806567cb,
     0x196c3671, 0x6e6b06e7, 0xfed41b76, 0x89d32be0, 0x10da7a5a, 0x67dd4acc,
     0xf9b9df6f, 0x8ebeeff9, 0x17b7be43, 0x60b08ed5, 0xd6d6a3e8, 0xa1d1937e,
     0x38d8c2c4, 0x4fdff252, 0xd1bb67f1, 0xa6bc5767, 0x3fb506dd, 0x48b2364b,
     0xd80d2bda, 0xaf0a1b4c, 0x36034af6, 0x41047a60, 0xdf60efc3, 0xa867df55,
     0x316e8eef, 0x4669be79, 0xcb61b38c, 0xbc66831a, 0x256fd2a0, 0x5268e236,
     0xcc0c7795, 0xbb0b4703, 0x220216b9, 0x5505262f, 0xc5ba3bbe, 0xb2bd0b28,
     0x2bb45a92, 0x5cb36a04, 0xc2d7ffa7, 0xb5d0cf31, 0x2cd99e8b, 0x5bdeae1d,
     0x9b64c2b0, 0xec63f226, 0x756aa39c, 0x026d930a, 0x9c0906a9, 0xeb0e363f,
     0x72076785, 0x05005713, 0x95bf4a82, 0xe2b87a14, 0x7bb12bae, 0x0cb61b38,
     0x92d28e9b, 0xe5d5be0d, 0x7cdcefb7, 0x0bdbdf21, 0x86d3d2d4, 0xf1d4e242,
     0x68ddb3f8, 0x1fda836e, 0x81be16cd, 0xf6b9265b, 0x6fb077e1, 0x18b74777,
     0x88085ae6, 0xff0f6a70, 0x66063bca, 0x11010b5c, 0x8f659eff, 0xf862ae69,
     0x616bffd3, 0x166ccf45, 0xa00ae278, 0xd70dd2ee, 0x4e048354, 0x3903b3c2,
     0xa7672661, 0xd06016f7, 0x4969474d, 0x3e6e77db, 0xaed16a4a, 0xd9d65adc,
     0x40df0b66, 0x37d83bf0, 0xa9bcae53, 0xdebb9ec5, 0x47b2cf7f, 0x30b5ffe9,
     0xbdbdf21c, 0xcabac28a, 0x53b39330, 0x24b4a3a6, 0xbad03605, 0xcdd70693,
     0x54de5729, 0x23d967bf, 0xb3667a2e, 0xc4614ab8, 0x5d681b02, 0x2a6f2b94,
     0xb40bbe37, 0xc30c8ea1, 0x5a05df1b, 0x2d02ef8d]"

definition crc32_byte :: "u32 \<Rightarrow> u8 \<Rightarrow> u32" where
  "crc32_byte accum delta =
     crc32_table ! unat ((accum XOR ucast delta) AND 0xff) XOR drop_bit 8 accum"

section \<open>The reference\<close>

text \<open>One bit of the shift register, least significant bit first.\<close>

definition crc32_bit :: "u32 \<Rightarrow> u32" where
  "crc32_bit r = (if bit r 0 then drop_bit 1 r XOR 0xEDB88320 else drop_bit 1 r)"

definition crc32_ref :: "u32 \<Rightarrow> u8 \<Rightarrow> u32" where
  "crc32_ref r d = (crc32_bit ^^ 8) (r XOR ucast d)"

section \<open>Eight steps are linear\<close>

lemma crc32_bit_xor: "crc32_bit (a XOR c) = crc32_bit a XOR crc32_bit c"
proof -
  have p: "drop_bit 1 (a XOR c) = drop_bit 1 a XOR drop_bit 1 c"
    by (rule drop_bit_xor)
  show ?thesis
    unfolding crc32_bit_def p bit_xor_iff
    by (cases "bit a 0"; cases "bit c 0") (simp_all add: ac_simps)
qed

lemma crc32_pow_xor: "(crc32_bit ^^ n) (a XOR c) = (crc32_bit ^^ n) a XOR (crc32_bit ^^ n) c"
  by (induction n) (simp_all add: crc32_bit_xor)

text \<open>Bits above the byte are only shifted.\<close>

lemma crc32_pow_shift: "(\<And>i. i < n \<Longrightarrow> \<not> bit z i) \<Longrightarrow> (crc32_bit ^^ n) z = drop_bit n z"
proof (induction n)
  case (Suc n)
  then have "(crc32_bit ^^ n) z = drop_bit n z" and "\<not> bit (drop_bit n z) 0"
    by (auto simp: bit_simps)
  then have "(crc32_bit ^^ Suc n) z = crc32_bit (drop_bit n z)" and "\<not> bit (drop_bit n z) 0" by simp_all
  then show ?case unfolding crc32_bit_def by simp
qed simp

section \<open>The table\<close>

text \<open>
  Each doubling of the table adds one bit of the index, whose contribution is exclusive-ored
  to the first half.
\<close>

definition table_double :: "u32 list \<Rightarrow> u32 \<Rightarrow> u32 list" where
  "table_double xs c = xs @ map (\<lambda>x. x XOR c) xs"

definition table_of :: "nat \<Rightarrow> u32 list" where
  "table_of k = map (\<lambda>i. (crc32_bit ^^ 8) (of_nat i)) [0..<2 ^ k]"

lemma of_nat_add_bit:
  assumes "i < 2 ^ k" and "k < 32"
  shows "of_nat (2 ^ k + i) = of_nat i XOR (2 ^ k :: u32)"
proof -
  have "\<not> bit i k" using assms(1) by (simp add: bit_iff_odd)
  then have "of_nat i AND (2 ^ k :: u32) = 0"
    by (intro bit_word_eqI) (auto simp: bit_and_iff bit_of_nat_iff bit_exp_iff)
  then have "of_nat i + 2 ^ k = of_nat i XOR (2 ^ k :: u32)" by (rule disjunctive_add_eq_xor)
  then show ?thesis by (simp add: add.commute)
qed

lemma table_of_Suc:
  "k < 32 \<Longrightarrow> table_of (Suc k) = table_double (table_of k) ((crc32_bit ^^ 8) (2 ^ k))"
proof -
  assume k: "k < 32"
  have "[0..<2 ^ Suc k] = [0..<2 ^ k] @ map (\<lambda>i. i + 2 ^ k) [0..<2 ^ k]"
    using upt_add_eq_append [of 0 "2 ^ k" "2 ^ k"] by (simp add: mult_2 map_add_upt)
  then show ?thesis
    using k of_nat_add_bit [of _ k]
    by (simp add: table_of_def table_double_def crc32_pow_xor [symmetric] add.commute [of _ "2 ^ k"]
        del: of_nat_add)
qed

lemma pow8: "(f ^^ 8) x = f (f (f (f (f (f (f (f x)))))))"
  by (simp add: numeral_eq_Suc)

lemma crc32_basis:
  "map (crc32_bit ^^ 8) [0x01, 0x02, 0x04, 0x08, 0x10, 0x20, 0x40, 0x80] =
   [0x77073096, 0xee0e612c, 0x076dc419, 0x0edb8832, 0x1db71064, 0x3b6e20c8, 0x76dc4190, 0xedb88320]"
  by (simp add: crc32_bit_def pow8)

lemma crc32_table_doubled:
  "crc32_table = foldl table_double [0]
     [0x77073096, 0xee0e612c, 0x076dc419, 0x0edb8832, 0x1db71064, 0x3b6e20c8, 0x76dc4190, 0xedb88320]"
  by code_simp

lemma crc32_table_entries: "crc32_table = table_of 8"
proof -
  have n: "(8 :: nat) = Suc (Suc (Suc (Suc (Suc (Suc (Suc (Suc 0)))))))" by simp
  have z: "table_of 0 = [0]"
    using crc32_pow_shift [of 8 0] by (simp add: table_of_def)
  show ?thesis
    unfolding crc32_table_doubled crc32_basis [symmetric]
    by (simp only: n table_of_Suc z) simp
qed

section \<open>The byte step\<close>

lemma crc32_byte_ref: "crc32_byte r d = crc32_ref r d"
proof -
  define x where "x = r XOR ucast d"
  define b where "b = x AND 0xff"
  define z where "z = x XOR b"
  have b_bit: "bit b i \<longleftrightarrow> bit x i \<and> i < 8" for i
    by (auto simp: b_def and_ff bit_take_bit_iff)
  have x: "x = b XOR z" by (simp add: z_def xor.left_commute [of b])
  have z_low: "\<not> bit z i" if "i < 8" for i
    using that b_bit by (simp add: z_def bit_xor_iff)
  have "unat b < 256"
    using take_bit_nat_less_exp [of 8 "unat x"] by (simp only: b_def and_ff unsigned_take_bit_eq) simp
  then have "crc32_table ! unat b = (crc32_bit ^^ 8) b"
    by (simp add: crc32_table_entries table_of_def)
  moreover have "(crc32_bit ^^ 8) z = drop_bit 8 r"
  proof -
    have "(crc32_bit ^^ 8) z = drop_bit 8 z" by (rule crc32_pow_shift [OF z_low])
    also have "\<dots> = drop_bit 8 r"
    proof (rule bit_word_eqI)
      fix n :: nat
      have "\<not> bit d (8 + n)" using bit_imp_le_length [of d "8 + n"] by auto
      then show "bit (drop_bit 8 z) n = bit (drop_bit 8 r) n"
        using b_bit by (auto simp: z_def x_def bit_simps)
    qed
    finally show ?thesis .
  qed
  moreover have "(crc32_bit ^^ 8) x = (crc32_bit ^^ 8) b XOR (crc32_bit ^^ 8) z"
    using crc32_pow_xor [of 8 b z] x by simp
  ultimately show ?thesis
    by (simp add: crc32_byte_def crc32_ref_def x_def b_def)
qed

end
