(* ===== verification/Dfu_File.thy ===== *)
theory Dfu_File
  imports Crc32
begin

unbundle bit_operations_syntax

text \<open>
  Loading and storing DFU files, src/dfu_file.c. The file system calls are the parameter
  \<open>fs\<close>. A buffer obtained by \<open>malloc\<close> is the list of the bytes stored in it; sizes are C
  \<open>int\<close>s. Messages are left out: \<open>errx\<close> and \<open>err\<close> are \<open>Exit\<close> with their status, \<open>warnx\<close> and
  the verbose output have no effect.
\<close>

section \<open>Data\<close>

definition EX_USAGE :: int where "EX_USAGE = 64"
definition EX_SOFTWARE :: int where "EX_SOFTWARE = 70"
definition EX_IOERR :: int where "EX_IOERR = 74"

datatype suffix_req = NO_SUFFIX | NEEDS_SUFFIX | MAYBE_SUFFIX
datatype prefix_req = NO_PREFIX | NEEDS_PREFIX | MAYBE_PREFIX
datatype prefix_type = ZERO_PREFIX | LMDFU_PREFIX | LPCDFU_UNENCRYPTED_PREFIX

record dfu_file =
  file_name :: string
  firmware :: "u8 list"
  size_total :: int
  size_prefix :: int
  size_suffix :: int
  lmdfu_address :: u32
  file_prefix_type :: prefix_type
  dwCRC :: u32
  bcdDFU :: u16
  idVendor :: u16
  idProduct :: u16
  file_bcdDevice :: u16

abbreviation (input) DFU_SUFFIX_LENGTH :: int where "DFU_SUFFIX_LENGTH \<equiv> 16"
abbreviation (input) LMDFU_PREFIX_LENGTH :: int where "LMDFU_PREFIX_LENGTH \<equiv> 8"
abbreviation (input) LPCDFU_PREFIX_LENGTH :: int where "LPCDFU_PREFIX_LENGTH \<equiv> 16"
abbreviation (input) STDIN_CHUNK_SIZE :: nat where "STDIN_CHUNK_SIZE \<equiv> 65536"

text \<open>\<open>memset(&file, 0, sizeof(file))\<close>.\<close>

definition dfu_file0 :: dfu_file where
  "dfu_file0 = \<lparr>file_name = [], firmware = [], size_total = 0, size_prefix = 0, size_suffix = 0,
     lmdfu_address = 0, file_prefix_type = ZERO_PREFIX, dwCRC = 0, bcdDFU = 0, idVendor = 0,
     idProduct = 0, file_bcdDevice = 0\<rparr>"

text \<open>
  The calls: \<open>fs_read\<close> returns what it stored, as many bytes as \<open>read\<close> reports, or \<open>None\<close> for
  its -1; \<open>fs_seek_end\<close> the size, an \<open>off_t\<close>; \<open>fs_malloc\<close> whether memory of that size could be had; \<open>fs_fread\<close> reads standard
  input.
\<close>

record 'w file_os =
  fs_open_read :: "string \<Rightarrow> 'w \<Rightarrow> int \<times> 'w"
  fs_open_write :: "string \<Rightarrow> 'w \<Rightarrow> int \<times> 'w"
  fs_open_excl :: "string \<Rightarrow> 'w \<Rightarrow> int \<times> 'w"
  fs_seek_end :: "int \<Rightarrow> 'w \<Rightarrow> int \<times> 'w"
  fs_seek_start :: "int \<Rightarrow> 'w \<Rightarrow> int \<times> 'w"
  fs_read :: "int \<Rightarrow> int \<Rightarrow> 'w \<Rightarrow> u8 list option \<times> 'w"
  fs_write :: "int \<Rightarrow> u8 list \<Rightarrow> 'w \<Rightarrow> int \<times> 'w"
  fs_close :: "int \<Rightarrow> 'w \<Rightarrow> 'w"
  fs_malloc :: "int \<Rightarrow> 'w \<Rightarrow> bool \<times> 'w"
  fs_fread :: "nat \<Rightarrow> 'w \<Rightarrow> u8 list \<times> 'w"

text \<open>A call as a step of a program.\<close>

definition sysp :: "('w \<Rightarrow> 'a \<times> 'w) \<Rightarrow> ('w, 'a) prog" where
  "sysp f w = (case f w of (a, w') \<Rightarrow> Some (Ret a, w'))"

definition exit_if :: "bool \<Rightarrow> int \<Rightarrow> ('w, 'a) prog \<Rightarrow> ('w, 'a) prog" where
  "exit_if b c m = (if b then exitp c else m)"

definition dfu_malloc :: "'w file_os \<Rightarrow> int \<Rightarrow> ('w, unit) prog" where
  "dfu_malloc fs n = bindp (sysp (fs_malloc fs n)) (\<lambda>ok. exit_if (\<not> ok) EX_SOFTWARE (retp ()))"

section \<open>The prefix\<close>

definition probe_prefix :: "dfu_file \<Rightarrow> int \<times> dfu_file" where
  "probe_prefix f =
     (let prefix = firmware f in
      if size_total f < LMDFU_PREFIX_LENGTH then (1, f)
      else
        let f = (if prefix ! 0 = 0x01 \<and> prefix ! 1 = 0x00 then
                   f\<lparr>file_prefix_type := LMDFU_PREFIX, size_prefix := LMDFU_PREFIX_LENGTH,
                     lmdfu_address := 1024 * (push_bit 8 (ucast (prefix ! 3)) OR ucast (prefix ! 2))\<rparr>
                 else if prefix ! 0 AND 0x3f = 0x1a \<and> prefix ! 1 AND 0x3f = 0x3f then
                   f\<lparr>file_prefix_type := LPCDFU_UNENCRYPTED_PREFIX, size_prefix := LPCDFU_PREFIX_LENGTH\<rparr>
                 else f)
        in if size_total f < size_prefix f + size_suffix f then (1, f) else (0, f))"

section \<open>Loading\<close>

text \<open>
  Reading standard input in chunks, for as long as a whole chunk comes. The total is an
  \<open>int\<close>: adding a chunk past its range is undefined.
\<close>

partial_function (option) read_stdin ::
  "'w file_os \<Rightarrow> u8 list \<Rightarrow> nat \<Rightarrow> 'w \<Rightarrow> (u8 list res \<times> 'w) option" where
  "read_stdin fs buf read_bytes w =
     (if read_bytes = STDIN_CHUNK_SIZE then
        (if 2 ^ 31 \<le> length buf + STDIN_CHUNK_SIZE then Some (Undef, w)
         else case fs_malloc fs (int (length buf + STDIN_CHUNK_SIZE)) w of (ok, w) \<Rightarrow>
           if \<not> ok then Some (Exit EX_IOERR, w)
           else case fs_fread fs STDIN_CHUNK_SIZE w of (bs, w) \<Rightarrow>
             read_stdin fs (buf @ bs) (length bs) w)
      else Some (Ret buf, w))"

definition load_bytes :: "'w file_os \<Rightarrow> string \<Rightarrow> ('w, u8 list) prog" where
  "load_bytes fs name =
     (if name = ''-'' then
        bindp (dfu_malloc fs (int STDIN_CHUNK_SIZE)) (\<lambda>_.
        bindp (sysp (fs_fread fs STDIN_CHUNK_SIZE)) (\<lambda>bs.
        read_stdin fs bs (length bs)))
      else
        bindp (sysp (fs_open_read fs name)) (\<lambda>f. exit_if (f < 0) EX_IOERR (
        bindp (sysp (fs_seek_end fs f)) (\<lambda>offset.
        let total = sint (word_of_int offset :: u32) in
        exit_if (total < 0 \<or> total \<noteq> offset) EX_IOERR (
        bindp (sysp (fs_seek_start fs f)) (\<lambda>r. exit_if (r \<noteq> 0) EX_IOERR (
        bindp (dfu_malloc fs total) (\<lambda>_.
        bindp (sysp (fs_read fs f total)) (\<lambda>r. case r of
            None \<Rightarrow> exitp EX_IOERR
          | Some bs \<Rightarrow> exit_if (int (length bs) \<noteq> total) EX_IOERR (
              bindp (modifyp (fs_close fs f)) (\<lambda>_. retp bs)))))))))))"

text \<open>
  The suffix of a loaded file: the block of \<open>dfu_load_file\<close> that sets \<open>missing_suffix\<close>. Inside,
  \<open>Inl\<close> is an exit, \<open>Inr\<close> whether the suffix is missing and the file.
\<close>

definition DFU_CRC_INIT :: u32 where "DFU_CRC_INIT = 0xffffffff"

definition parse_suffix :: "dfu_file \<Rightarrow> int + bool \<times> dfu_file" where
  "parse_suffix f =
     (if size_total f < DFU_SUFFIX_LENGTH then Inr (True, f) else
      let dfusuffix = drop (nat (size_total f - DFU_SUFFIX_LENGTH)) (firmware f);
          crc = foldl crc32_byte DFU_CRC_INIT (take (nat (size_total f - 4)) (firmware f)) in
      if dfusuffix ! 10 \<noteq> 0x44 \<or> dfusuffix ! 9 \<noteq> 0x46 \<or> dfusuffix ! 8 \<noteq> 0x55 then Inr (True, f) else
      let f = f\<lparr>dwCRC := push_bit 24 (ucast (dfusuffix ! 15)) + push_bit 16 (ucast (dfusuffix ! 14)) +
            push_bit 8 (ucast (dfusuffix ! 13)) + ucast (dfusuffix ! 12)\<rparr> in
      if dwCRC f \<noteq> crc then Inr (True, f) else
      let f = f\<lparr>bcdDFU := push_bit 8 (ucast (dfusuffix ! 7)) + ucast (dfusuffix ! 6)\<rparr>;
          f = f\<lparr>size_suffix := uint (dfusuffix ! 11)\<rparr> in
      if size_suffix f < DFU_SUFFIX_LENGTH then Inl EX_IOERR else
      if size_total f < size_suffix f then Inl EX_IOERR else
      Inr (False, f\<lparr>idVendor := push_bit 8 (ucast (dfusuffix ! 5)) + ucast (dfusuffix ! 4),
        idProduct := push_bit 8 (ucast (dfusuffix ! 3)) + ucast (dfusuffix ! 2),
        file_bcdDevice := push_bit 8 (ucast (dfusuffix ! 1)) + ucast (dfusuffix ! 0)\<rparr>))"

definition check_suffix :: "suffix_req \<Rightarrow> dfu_file \<Rightarrow> int + dfu_file" where
  "check_suffix req f = (case parse_suffix f of Inl c \<Rightarrow> Inl c
     | Inr (missing_suffix, f) \<Rightarrow>
         if missing_suffix then (if req = NEEDS_SUFFIX then Inl EX_IOERR else Inr f)
         else (if req = NO_SUFFIX then Inl EX_SOFTWARE else Inr f))"

definition check_prefix :: "prefix_req \<Rightarrow> dfu_file \<Rightarrow> int + dfu_file" where
  "check_prefix req f = (case probe_prefix f of (res, f) \<Rightarrow>
     if (res \<noteq> 0 \<or> size_prefix f = 0) \<and> req = NEEDS_PREFIX then Inl EX_IOERR
     else if size_prefix f \<noteq> 0 \<and> req = NO_PREFIX then Inl EX_IOERR
     else Inr f)"

text \<open>The defaults when no valid suffix or prefix is found.\<close>

definition load_defaults :: "dfu_file \<Rightarrow> dfu_file" where
  "load_defaults f = f\<lparr>size_prefix := 0, size_suffix := 0, bcdDFU := 0, idVendor := 0xffff,
     idProduct := 0xffff, file_bcdDevice := 0xffff, lmdfu_address := 0\<rparr>"

definition parse_file :: "suffix_req \<Rightarrow> prefix_req \<Rightarrow> dfu_file \<Rightarrow> int + dfu_file" where
  "parse_file sreq preq f = (case check_suffix sreq f of Inl c \<Rightarrow> Inl c | Inr f \<Rightarrow> check_prefix preq f)"

definition dfu_load_file ::
  "'w file_os \<Rightarrow> dfu_file \<Rightarrow> suffix_req \<Rightarrow> prefix_req \<Rightarrow> ('w, dfu_file) prog" where
  "dfu_load_file fs f sreq preq =
     (let f = load_defaults f in
      bindp (load_bytes fs (file_name f)) (\<lambda>bs.
      let sreq = (if file_name f = ''-'' then MAYBE_SUFFIX else sreq) in
      case parse_file sreq preq (f\<lparr>firmware := bs, size_total := int (length bs)\<rparr>) of
        Inl c \<Rightarrow> exitp c | Inr f \<Rightarrow> retp f))"

section \<open>Storing\<close>

text \<open>The loop \<open>x != size\<close> reads \<open>n\<close> bytes from the pointer; with a negative size it would run
  past the buffer.\<close>

definition dfu_file_write_crc ::
  "'w file_os \<Rightarrow> int \<Rightarrow> u32 \<Rightarrow> u8 list \<Rightarrow> int \<Rightarrow> ('w, u32) prog" where
  "dfu_file_write_crc fs f crc buf n =
     (if n < 0 \<or> int (length buf) < n then undefp
      else let bs = take (nat n) buf; crc = foldl crc32_byte crc bs in
        bindp (sysp (fs_write fs f bs)) (\<lambda>r. exit_if (r \<noteq> n) EX_IOERR (retp crc)))"

definition lmdfu_prefix :: "dfu_file \<Rightarrow> u8 list" where
  "lmdfu_prefix file =
     (let addr = lmdfu_address file div 1024;
          len = word_of_int (size_total file - size_prefix file - size_suffix file) :: u32
      in [0x01, 0x00, ucast (addr AND 0xff), ucast (drop_bit 8 addr), ucast (len AND 0xff),
          ucast (drop_bit 8 len) AND 0xff, ucast (drop_bit 16 len) AND 0xff, ucast (drop_bit 24 len)])"

definition lpcdfu_prefix :: "dfu_file \<Rightarrow> u8 list" where
  "lpcdfu_prefix file =
     (let n = size_total file - size_suffix file + 511;
          len = word_of_int (sgn n * (\<bar>n\<bar> div 512)) :: u32
      in [0x1a, 0x3f, ucast (len AND 0xff), ucast (drop_bit 8 len AND 0xff)] @
         replicate 8 0 @ replicate 4 0xff)"

definition suffix_head :: "dfu_file \<Rightarrow> u8 list" where
  "suffix_head file =
     [ucast (file_bcdDevice file AND 0xff), ucast (drop_bit 8 (file_bcdDevice file)),
      ucast (idProduct file AND 0xff), ucast (drop_bit 8 (idProduct file)),
      ucast (idVendor file AND 0xff), ucast (drop_bit 8 (idVendor file)),
      ucast (bcdDFU file AND 0xff), ucast (drop_bit 8 (bcdDFU file)),
      0x55, 0x46, 0x44, 16]"

definition store_prefix :: "'w file_os \<Rightarrow> int \<Rightarrow> dfu_file \<Rightarrow> u32 \<Rightarrow> ('w, u32) prog" where
  "store_prefix fs f file crc =
     (if file_prefix_type file = LMDFU_PREFIX
      then dfu_file_write_crc fs f crc (lmdfu_prefix file) LMDFU_PREFIX_LENGTH
      else if file_prefix_type file = LPCDFU_UNENCRYPTED_PREFIX
      then dfu_file_write_crc fs f crc (lpcdfu_prefix file) LPCDFU_PREFIX_LENGTH
      else retp crc)"

definition store_suffix :: "'w file_os \<Rightarrow> int \<Rightarrow> dfu_file \<Rightarrow> u32 \<Rightarrow> ('w, u32) prog" where
  "store_suffix fs f file crc =
     bindp (dfu_file_write_crc fs f crc (suffix_head file) (DFU_SUFFIX_LENGTH - 4)) (\<lambda>crc.
     dfu_file_write_crc fs f crc (le32 crc) 4)"

definition dfu_store_file :: "'w file_os \<Rightarrow> dfu_file \<Rightarrow> bool \<Rightarrow> bool \<Rightarrow> ('w, unit) prog" where
  "dfu_store_file fs file write_suffix write_prefix =
     bindp (sysp (fs_open_write fs (file_name file))) (\<lambda>f. exit_if (f < 0) EX_IOERR (
     bindp (if write_prefix then store_prefix fs f file DFU_CRC_INIT else retp DFU_CRC_INIT) (\<lambda>crc.
     bindp (if size_prefix file < 0 \<or> int (length (firmware file)) < size_prefix file then undefp
        else dfu_file_write_crc fs f crc (drop (nat (size_prefix file)) (firmware file))
          (size_total file - size_prefix file - size_suffix file)) (\<lambda>crc.
     bindp (if write_suffix then store_suffix fs f file crc else retp crc) (\<lambda>_.
     modifyp (fs_close fs f))))))"

section \<open>The progress bar\<close>

text \<open>
  \<open>dfu_progress_bar\<close> with its static variables \<open>last_progress\<close> and \<open>last_time\<close>, in 64 bit
  arithmetic: what is printed, if anything, as the bar, the percentage and whether it is
  done. Division by zero is \<open>Undef\<close>.
\<close>

abbreviation (input) PROGRESS_BAR_WIDTH :: nat where "PROGRESS_BAR_WIDTH \<equiv> 25"

definition dfu_progress_bar ::
  "u64 \<Rightarrow> u64 \<Rightarrow> u64 \<Rightarrow> u64 \<times> u64 \<Rightarrow> ((string \<times> u64 \<times> bool) option) res \<times> (u64 \<times> u64)" where
  "dfu_progress_bar curr_time cur mx = (\<lambda>(last_progress, last_time).
     let mx = (if mx < cur then cur + 1 else mx);
         mx = (if mx = 0 \<and> cur = 0 then 1 else mx) in
     if mx = 0 then (Undef, (last_progress, last_time)) else
     let progress = (of_nat PROGRESS_BAR_WIDTH * cur) div mx;
         progress = (if of_nat PROGRESS_BAR_WIDTH < progress then of_nat PROGRESS_BAR_WIDTH else progress) in
     if progress = last_progress \<and> curr_time = last_time then (Ret None, (last_progress, last_time))
     else (Ret (Some (map (\<lambda>x. if of_nat x < progress then CHR ''='' else CHR '' '') [0..<PROGRESS_BAR_WIDTH],
              (100 * cur) div mx, progress = of_nat PROGRESS_BAR_WIDTH)), (progress, curr_time)))"

end
