(* ===== verification/Dfu_Options.thy ===== *)
theory Dfu_Options
  imports Dfu_File
begin

text \<open>
  The command line of src/main.c in its QDA build: the conversions of numbers, the device and
  serial number specifications, the option switch. What \<open>getopt_long\<close> makes of the arguments
  is the list of option characters with their arguments.
\<close>

section \<open>Numbers of the C library\<close>

text \<open>
  \<open>strtoul\<close>: the number and the remainder, which is the whole string when there is no digit;
  base 0 takes the base from the prefix, \<open>0x\<close> is skipped in base 16, a minus sign negates
  modulo 2^64, an overflow gives the largest number.
\<close>

definition is_space :: "char \<Rightarrow> bool" where
  "is_space c \<longleftrightarrow> (let n = of_char c :: nat in n = 32 \<or> 9 \<le> n \<and> n \<le> 13)"

definition digit_val :: "char \<Rightarrow> nat" where
  "digit_val c = (let n = of_char c :: nat in
     if 48 \<le> n \<and> n \<le> 57 then n - 48 else if 97 \<le> n \<and> n \<le> 122 then n - 87
     else if 65 \<le> n \<and> n \<le> 90 then n - 55 else 36)"

definition split_sign :: "string \<Rightarrow> bool \<times> string" where
  "split_sign t = (case t of [] \<Rightarrow> (False, t)
     | c # r \<Rightarrow> if c = CHR ''-'' then (True, r) else if c = CHR ''+'' then (False, r) else (False, t))"

definition split_base :: "nat \<Rightarrow> string \<Rightarrow> nat \<times> string" where
  "split_base base t =
     (if (base = 0 \<or> base = 16) \<and> 3 \<le> length t \<and> t ! 0 = CHR ''0'' \<and> t ! 1 \<in> {CHR ''x'', CHR ''X''} \<and>
         digit_val (t ! 2) < 16
      then (16, drop 2 t)
      else if base = 0 then (if t \<noteq> [] \<and> t ! 0 = CHR ''0'' then 8 else 10, t) else (base, t))"

definition digits_value :: "nat \<Rightarrow> string \<Rightarrow> nat" where
  "digits_value b ds = foldl (\<lambda>a c. a * b + digit_val c) 0 ds"

definition scan_number :: "nat \<Rightarrow> string \<Rightarrow> (bool \<times> nat \<times> string) option" where
  "scan_number base s =
     (case split_sign (dropWhile is_space s) of (neg, t) \<Rightarrow>
      case split_base base t of (b, t) \<Rightarrow>
      let ds = takeWhile (\<lambda>c. digit_val c < b) t in
      if ds = [] then None else Some (neg, digits_value b ds, dropWhile (\<lambda>c. digit_val c < b) t))"

definition strtoul :: "nat \<Rightarrow> string \<Rightarrow> nat \<times> string" where
  "strtoul base s = (case scan_number base s of None \<Rightarrow> (0, s)
     | Some (neg, v, r) \<Rightarrow>
         (if 2 ^ 64 \<le> v then 2 ^ 64 - 1 else if neg then (2 ^ 64 - v) mod 2 ^ 64 else v, r))"

text \<open>The conversion of an integer to \<open>int\<close>; \<open>atoi\<close> as \<open>strtol\<close> does it.\<close>

definition to_int :: "int \<Rightarrow> int" where
  "to_int v = sint (word_of_int v :: u32)"

definition atoi :: "string \<Rightarrow> int" where
  "atoi s = (case scan_number 10 s of None \<Rightarrow> 0
     | Some (neg, v, r) \<Rightarrow>
         to_int (if neg then - int (min v (2 ^ 63)) else int (min v (2 ^ 63 - 1))))"

section \<open>The options\<close>

datatype mode = MODE_NONE | MODE_VERSION | MODE_LIST | MODE_DETACH | MODE_UPLOAD | MODE_DOWNLOAD

text \<open>The global variables of main.c and the local ones of \<open>main\<close> that the switch sets.\<close>

record options =
  verbose :: int
  match_vendor :: int
  match_product :: int
  match_vendor_dfu :: int
  match_product_dfu :: int
  match_config_index :: int
  match_iface_index :: int
  match_iface_alt_index :: int
  match_iface_alt_name :: "string option"
  match_serial :: "string option"
  match_serial_dfu :: "string option"
  expected_size :: int
  transfer_size :: u32
  main_mode :: mode
  transfer_speed :: u32
  serial_device_path :: "string option"
  main_file :: dfu_file
  final_reset :: bool

definition options0 :: options where
  "options0 = \<lparr>verbose = 0, match_vendor = - 1, match_product = - 1, match_vendor_dfu = - 1,
     match_product_dfu = - 1, match_config_index = - 1, match_iface_index = - 1,
     match_iface_alt_index = - 1, match_iface_alt_name = None, match_serial = None,
     match_serial_dfu = None, expected_size = 0, transfer_size = 0, main_mode = MODE_NONE,
     transfer_speed = 115200, serial_device_path = None, main_file = dfu_file0, final_reset = False\<rparr>"

definition parse_match_value :: "string option \<Rightarrow> int \<Rightarrow> int" where
  "parse_match_value str default_value = (case str of None \<Rightarrow> default_value
     | Some s \<Rightarrow>
         if s \<noteq> [] \<and> s ! 0 = CHR ''*'' then - 1
         else if s \<noteq> [] \<and> s ! 0 = CHR ''-'' then 0x10000
         else (case strtoul 16 s of (v, remainder) \<Rightarrow>
                 if remainder = s then default_value else to_int (int v)))"

text \<open>The position of a character in a string.\<close>

definition strchr :: "string \<Rightarrow> char \<Rightarrow> nat option" where
  "strchr s c = (let i = length (takeWhile (\<lambda>d. d \<noteq> c) s) in if i < length s then Some i else None)"

text \<open>What follows the first colon, if any.\<close>

definition after_colon :: "string \<Rightarrow> string option" where
  "after_colon s = (case strchr s (CHR '':'') of None \<Rightarrow> None | Some i \<Rightarrow> Some (drop (i + 1) s))"

definition parse_vendprod :: "string \<Rightarrow> 'x options_scheme \<Rightarrow> 'x options_scheme" where
  "parse_vendprod str opts =
     (let opts = opts\<lparr>match_vendor := - 1, match_product := - 1, match_vendor_dfu := - 1, match_product_dfu := - 1\<rparr>;
          comma = strchr str (CHR '','');
          opts = (if comma = Some 0 then opts\<lparr>match_vendor := 0x10000, match_product := 0x10000\<rparr>
            else
              let colon = (case strchr str (CHR '':'') of None \<Rightarrow> None
                    | Some i \<Rightarrow> (case comma of Some j \<Rightarrow> if j < i + 1 then None else Some (drop (i + 1) str)
                                | None \<Rightarrow> Some (drop (i + 1) str)));
                  opts = opts\<lparr>match_vendor := parse_match_value (Some str) (match_vendor opts)\<rparr>;
                  opts = opts\<lparr>match_product := parse_match_value colon (match_product opts)\<rparr>
              in if comma = None then opts
                 else opts\<lparr>match_vendor_dfu := match_vendor opts, match_product_dfu := match_product opts\<rparr>)
      in case comma of None \<Rightarrow> opts
         | Some j \<Rightarrow>
             let dfu = drop (j + 1) str;
                 opts = opts\<lparr>match_vendor_dfu := parse_match_value (Some dfu) (match_vendor_dfu opts)\<rparr>
             in opts\<lparr>match_product_dfu := parse_match_value (after_colon dfu) (match_product_dfu opts)\<rparr>)"

definition parse_serial :: "string \<Rightarrow> 'x options_scheme \<Rightarrow> 'x options_scheme" where
  "parse_serial str opts =
     (let ne = (\<lambda>s. if s = [] then None else Some s) in
      case strchr str (CHR '','') of
        None \<Rightarrow> opts\<lparr>match_serial := ne str, match_serial_dfu := ne str\<rparr>
      | Some i \<Rightarrow> opts\<lparr>match_serial := ne (take i str), match_serial_dfu := ne (drop (i + 1) str)\<rparr>)"

text \<open>
  The options \<open>getopt_long\<close> is given: the short ones, with a colon after those that take an
  argument, and the long ones with their short value. What it can deliver is one of these
  values, or \<open>?\<close> for an option that is neither.
\<close>

definition short_opts :: string where
  "short_opts = ''hVvp:a:t:U:D:Rs:''"

definition long_opts :: "(string \<times> bool \<times> char) list" where
  "long_opts = [
     (''help'', False, CHR ''h''), (''version'', False, CHR ''V''), (''verbose'', False, CHR ''v''),
     (''list'', False, CHR ''l''), (''path'', True, CHR ''p''), (''altsetting'', True, CHR ''a''),
     (''alt'', True, CHR ''a''), (''transfer-size'', True, CHR ''t''), (''upload'', True, CHR ''U''),
     (''download'', True, CHR ''D''), (''reset'', False, CHR ''R''), (''speed'', True, CHR ''s'')]"

fun short_option :: "string \<Rightarrow> char \<Rightarrow> bool option" where
  "short_option [] c = None"
| "short_option (d # s) c =
     (if d = c \<and> c \<noteq> CHR '':'' then Some (s \<noteq> [] \<and> s ! 0 = CHR '':'') else short_option s c)"

definition delivered :: "char \<Rightarrow> bool" where
  "delivered c \<longleftrightarrow> short_option short_opts c \<noteq> None \<or> c \<in> set (map (snd \<circ> snd) long_opts) \<or> c = CHR ''?''"

text \<open>One turn of the option loop; \<open>help\<close> ends the program.\<close>

definition parse_option :: "char \<Rightarrow> string \<Rightarrow> 'x options_scheme \<Rightarrow> int + 'x options_scheme" where
  "parse_option c optarg opts =
     (if c = CHR ''h'' then Inl EX_USAGE
      else if c = CHR ''V'' then Inr (opts\<lparr>main_mode := MODE_VERSION\<rparr>)
      else if c = CHR ''v'' then Inr (opts\<lparr>verbose := verbose opts + 1\<rparr>)
      else if c = CHR ''l'' then Inr (opts\<lparr>main_mode := MODE_LIST\<rparr>)
      else if c = CHR ''e'' then
        Inr (opts\<lparr>main_mode := MODE_DETACH, match_iface_alt_index := 0, match_iface_index := 0\<rparr>)
      else if c = CHR ''d'' then Inr (parse_vendprod optarg opts)
      else if c = CHR ''p'' then Inr (opts\<lparr>serial_device_path := Some optarg\<rparr>)
      else if c = CHR ''c'' then Inr (opts\<lparr>serial_device_path := Some optarg\<rparr>)
      else if c = CHR ''i'' then Inr (opts\<lparr>match_iface_index := atoi optarg\<rparr>)
      else if c = CHR ''a'' then
        (case strtoul 0 optarg of (v, end_) \<Rightarrow>
           if end_ \<noteq> [] then Inr (opts\<lparr>match_iface_alt_name := Some optarg, match_iface_alt_index := - 1\<rparr>)
           else Inr (opts\<lparr>match_iface_alt_index := to_int (int v)\<rparr>))
      else if c = CHR ''S'' then Inr (parse_serial optarg opts)
      else if c = CHR ''t'' then Inr (opts\<lparr>transfer_size := word_of_int (atoi optarg)\<rparr>)
      else if c = CHR ''U'' then
        Inr (opts\<lparr>main_mode := MODE_UPLOAD, main_file := (main_file opts)\<lparr>file_name := optarg\<rparr>\<rparr>)
      else if c = CHR ''Z'' then Inr (opts\<lparr>expected_size := atoi optarg\<rparr>)
      else if c = CHR ''D'' then
        Inr (opts\<lparr>main_mode := MODE_DOWNLOAD, main_file := (main_file opts)\<lparr>file_name := optarg\<rparr>\<rparr>)
      else if c = CHR ''R'' then Inr (opts\<lparr>final_reset := True\<rparr>)
      else if c = CHR ''s'' then Inr (opts\<lparr>transfer_speed := word_of_int (atoi optarg)\<rparr>)
      else Inl EX_USAGE)"

primrec parse_options :: "(char \<times> string) list \<Rightarrow> options \<Rightarrow> int + options" where
  "parse_options [] opts = Inr opts"
| "parse_options (a # args) opts = (case parse_option (fst a) (snd a) opts of
     Inl c \<Rightarrow> Inl c | Inr opts \<Rightarrow> parse_options args opts)"

end
