(* ===== verification/Qda_Packets.thy ===== *)
theory Qda_Packets
  imports Dfu_Prelude
begin

unbundle bit_operations_syntax

text \<open>
  The packets of the Quark DFU adaptation, src/qda/qda_packets.h, and the structures of
  src/qda/qda.h and src/usb_dfu.h. A packed structure is the list of its bytes, with the
  fields in the order of their declaration and little-endian, as on the x86 hosts qda.c is
  written for. \<open>enc_req\<close> and \<open>enc_resp\<close> are the packets as a protocol: what a request and a
  response mean and which bytes they are.
\<close>

section \<open>Packet types\<close>

datatype qda_pkt_type =
  QDA_PKT_RESET | QDA_PKT_DEV_DESC_REQ | QDA_PKT_DFU_DESC_REQ | QDA_PKT_DFU_SET_ALT_SETTING
| QDA_PKT_DFU_DETACH | QDA_PKT_DFU_DNLOAD_REQ | QDA_PKT_DFU_UPLOAD_REQ | QDA_PKT_DFU_GETSTATUS_REQ
| QDA_PKT_DFU_CLRSTATUS | QDA_PKT_DFU_GETSTATE_REQ | QDA_PKT_DFU_ABORT
| QDA_PKT_ATTACH | QDA_PKT_DETACH | QDA_PKT_ACK | QDA_PKT_STALL | QDA_PKT_DEV_DESC_RESP
| QDA_PKT_DFU_DESC_RESP | QDA_PKT_DFU_UPLOAD_RESP | QDA_PKT_DFU_GETSTATUS_RESP
| QDA_PKT_DFU_GETSTATE_RESP

fun pkt_code :: "qda_pkt_type \<Rightarrow> u32" where
  "pkt_code QDA_PKT_RESET = 0x4D550000"
| "pkt_code QDA_PKT_DEV_DESC_REQ = 0x4D550005"
| "pkt_code QDA_PKT_DFU_DESC_REQ = 0x4D5501FF"
| "pkt_code QDA_PKT_DFU_SET_ALT_SETTING = 0x4D5501FE"
| "pkt_code QDA_PKT_DFU_DETACH = 0x4D550100"
| "pkt_code QDA_PKT_DFU_DNLOAD_REQ = 0x4D550101"
| "pkt_code QDA_PKT_DFU_UPLOAD_REQ = 0x4D550102"
| "pkt_code QDA_PKT_DFU_GETSTATUS_REQ = 0x4D550103"
| "pkt_code QDA_PKT_DFU_CLRSTATUS = 0x4D550104"
| "pkt_code QDA_PKT_DFU_GETSTATE_REQ = 0x4D550105"
| "pkt_code QDA_PKT_DFU_ABORT = 0x4D550106"
| "pkt_code QDA_PKT_ATTACH = 0x4D558001"
| "pkt_code QDA_PKT_DETACH = 0x4D558002"
| "pkt_code QDA_PKT_ACK = 0x4D558003"
| "pkt_code QDA_PKT_STALL = 0x4D558004"
| "pkt_code QDA_PKT_DEV_DESC_RESP = 0x4D558005"
| "pkt_code QDA_PKT_DFU_DESC_RESP = 0x4D5581FF"
| "pkt_code QDA_PKT_DFU_UPLOAD_RESP = 0x4D558102"
| "pkt_code QDA_PKT_DFU_GETSTATUS_RESP = 0x4D558103"
| "pkt_code QDA_PKT_DFU_GETSTATE_RESP = 0x4D558105"

text \<open>No two types share a code; a device response is never read as a host request.\<close>

lemma pkt_code_inj [simp]: "pkt_code a = pkt_code b \<longleftrightarrow> a = b"
  by (cases a; cases b; simp)

declare pkt_code.simps [simp del]

section \<open>Structures\<close>

record usb_dfu_func_descriptor =
  bLength :: u8
  bDescriptorType :: u8
  bmAttributes :: u8
  wDetachTimeOut :: u16
  wTransferSize :: u16
  bcdDFUVersion :: u16

record dfu_status =
  bStatus :: u8
  bwPollTimeout :: u32
  bState :: u8
  iString :: u8

record qda_if =
  func_dfu :: usb_dfu_func_descriptor
  vendor :: u16
  product :: u16
  bcdDevice :: u16
  interface :: u8
  altsetting :: u8
  bMaxPacketSize0 :: u8

text \<open>
  The conversion of qda.h, by way of a union: the bytes are put in order and read as the host
  does, which is little-endian too.
\<close>

definition libusb_cpu_to_le16 :: "u16 \<Rightarrow> u16" where
  "libusb_cpu_to_le16 x = get16 [ucast (x AND 0xff), ucast (drop_bit 8 x)] 0"

lemma libusb_cpu_to_le16 [simp]: "libusb_cpu_to_le16 x = x"
proof -
  have m: "(0xff :: u16) = mask 8" by (simp add: mask_eq_exp_minus_1)
  have "x AND 0xff = take_bit 8 x" by (simp only: m take_bit_eq_mask)
  then have "ucast (x AND 0xff) = (ucast x :: u8)"
    by (simp only:) (rule bit_word_eqI, simp add: bit_simps)
  then show ?thesis by (simp add: libusb_cpu_to_le16_def get16_def word16_split)
qed

section \<open>The protocol\<close>

datatype qda_req =
  Reset | Dev_Desc | Dfu_Desc | Set_Alt u8 | Dnload u16 "u8 list" | Upload u16 u16
| Get_Status | Clr_Status | Get_State | Abort

fun enc_req :: "qda_req \<Rightarrow> u8 list" where
  "enc_req Reset = le32 (pkt_code QDA_PKT_RESET)"
| "enc_req Dev_Desc = le32 (pkt_code QDA_PKT_DEV_DESC_REQ)"
| "enc_req Dfu_Desc = le32 (pkt_code QDA_PKT_DFU_DESC_REQ)"
| "enc_req (Set_Alt a) = le32 (pkt_code QDA_PKT_DFU_SET_ALT_SETTING) @ [a]"
| "enc_req (Dnload n bs) = le32 (pkt_code QDA_PKT_DFU_DNLOAD_REQ) @ le16 (of_nat (length bs)) @ le16 n @ bs"
| "enc_req (Upload n len) = le32 (pkt_code QDA_PKT_DFU_UPLOAD_REQ) @ le16 len @ le16 n"
| "enc_req Get_Status = le32 (pkt_code QDA_PKT_DFU_GETSTATUS_REQ)"
| "enc_req Clr_Status = le32 (pkt_code QDA_PKT_DFU_CLRSTATUS)"
| "enc_req Get_State = le32 (pkt_code QDA_PKT_DFU_GETSTATE_REQ)"
| "enc_req Abort = le32 (pkt_code QDA_PKT_DFU_ABORT)"

datatype qda_resp =
  Ack | Stall | Dev_Desc_Resp u16 u16 u16 | Dfu_Desc_Resp u8 u8 u16 u16 u16
| Upload_Resp "u8 list" | Status_Resp u32 u8 u8 | State_Resp u8

fun enc_resp :: "qda_resp \<Rightarrow> u8 list" where
  "enc_resp Ack = le32 (pkt_code QDA_PKT_ACK)"
| "enc_resp Stall = le32 (pkt_code QDA_PKT_STALL)"
| "enc_resp (Dev_Desc_Resp v p d) = le32 (pkt_code QDA_PKT_DEV_DESC_RESP) @ le16 v @ le16 p @ le16 d"
| "enc_resp (Dfu_Desc_Resp n a t x v) =
     le32 (pkt_code QDA_PKT_DFU_DESC_RESP) @ [n, a] @ le16 t @ le16 x @ le16 v"
| "enc_resp (Upload_Resp bs) = le32 (pkt_code QDA_PKT_DFU_UPLOAD_RESP) @ le16 (of_nat (length bs)) @ bs"
| "enc_resp (Status_Resp t s st) = le32 (pkt_code QDA_PKT_DFU_GETSTATUS_RESP) @ le32 t @ [s, st]"
| "enc_resp (State_Resp st) = le32 (pkt_code QDA_PKT_DFU_GETSTATE_RESP) @ [st]"

fun resp_type :: "qda_resp \<Rightarrow> qda_pkt_type" where
  "resp_type Ack = QDA_PKT_ACK"
| "resp_type Stall = QDA_PKT_STALL"
| "resp_type (Dev_Desc_Resp _ _ _) = QDA_PKT_DEV_DESC_RESP"
| "resp_type (Dfu_Desc_Resp _ _ _ _ _) = QDA_PKT_DFU_DESC_RESP"
| "resp_type (Upload_Resp _) = QDA_PKT_DFU_UPLOAD_RESP"
| "resp_type (Status_Resp _ _ _) = QDA_PKT_DFU_GETSTATUS_RESP"
| "resp_type (State_Resp _) = QDA_PKT_DFU_GETSTATE_RESP"

lemma enc_resp_type: "take 4 (enc_resp r) = le32 (pkt_code (resp_type r))"
  by (cases r) (simp_all add: le32_def)

lemma length_enc_resp: "4 \<le> length (enc_resp r)"
  by (cases r) simp_all

end
