(* ===== verification/Qda.thy ===== *)
theory Qda
  imports Qda_Packets
begin

unbundle bit_operations_syntax

text \<open>
  The host side of QDA, src/qda/qda.c, over any transport: the callbacks of \<open>qda_conf_t\<close> are
  a record of functions over a state \<open>'s\<close>. Requests are built and responses read in the one
  static buffer \<open>qda_buf\<close>, so what an operation sends and sees after a short response is
  what earlier operations left there. The debug prints, off in the code, are left out.
\<close>

section \<open>State\<close>

text \<open>
  \<open>send\<close> takes the bytes at its pointer, \<open>receive\<close> the buffer, of which it returns the new
  content and a count.
\<close>

record 's qda_conf =
  conf_send :: "u8 list \<Rightarrow> 's \<Rightarrow> (int \<times> 's) option"
  conf_receive :: "u8 list \<Rightarrow> 's \<Rightarrow> ((nat \<times> u8 list) \<times> 's) option"
  conf_detach :: "'s \<Rightarrow> int \<times> 's"

definition qda_buf_size :: nat where
  "qda_buf_size = 8192"

record 's qda =
  qda_conf :: "'s qda_conf option"
  qda_buf :: "u8 list"
  io :: 's

definition qda_init :: "'s qda_conf \<Rightarrow> ('s qda, int) prog" where
  "qda_init conf = bindp (modifyp (qda_conf_update (\<lambda>_. Some conf))) (\<lambda>_. retp 0)"

text \<open>The calls through \<open>qda_conf\<close>, which is \<open>NULL\<close> before \<open>qda_init\<close>.\<close>

definition qda_send :: "nat \<Rightarrow> ('s qda, int) prog" where
  "qda_send n s = (case qda_conf s of None \<Rightarrow> undefp s
     | Some c \<Rightarrow> (case conf_send c (take n (qda_buf s)) (io s) of None \<Rightarrow> None
         | Some (rc, d) \<Rightarrow> Some (Ret rc, s\<lparr>io := d\<rparr>)))"

definition qda_receive :: "('s qda, int) prog" where
  "qda_receive s = (case qda_conf s of None \<Rightarrow> undefp s
     | Some c \<Rightarrow> (case conf_receive c (qda_buf s) (io s) of None \<Rightarrow> None
         | Some ((n, buf), d) \<Rightarrow> Some (Ret (int n), s\<lparr>qda_buf := buf, io := d\<rparr>)))"

text \<open>Writing a field of the packet in the buffer; the type is at 0, the payload at 4.\<close>

definition put_at :: "nat \<Rightarrow> u8 list \<Rightarrow> ('s qda, unit) prog" where
  "put_at off bs = modifyp (\<lambda>s. s\<lparr>qda_buf := mem_write (qda_buf s) off bs\<rparr>)"

definition put_type :: "qda_pkt_type \<Rightarrow> ('s qda, unit) prog" where
  "put_type t = put_at 0 (le32 (pkt_code t))"

definition fail_if :: "bool \<Rightarrow> 'a \<Rightarrow> ('s, 'a) prog \<Rightarrow> ('s, 'a) prog" where
  "fail_if c e m = (if c then retp e else m)"

text \<open>
  What all operations but the reset share: send the first \<open>n\<close> bytes, receive, ignoring the
  count, and go on with the buffer when the response has type \<open>t\<close>. \<open>e\<close> is the failure.
\<close>

definition transact ::
  "nat \<Rightarrow> qda_pkt_type \<Rightarrow> 'a \<Rightarrow> (u8 list \<Rightarrow> ('s qda, 'a) prog) \<Rightarrow> ('s qda, 'a) prog" where
  "transact n t e m =
     bindp (qda_send n) (\<lambda>rc. fail_if (rc < 0) e (
     bindp qda_receive (\<lambda>_.
     bindp (getp qda_buf) (\<lambda>buf. fail_if (get32 buf 0 \<noteq> pkt_code t) e (m buf)))))"

section \<open>Operations\<close>

text \<open>The reset alone looks at the \<open>size_t\<close> that was received, converted to an \<open>int\<close>.\<close>

definition size_to_int :: "int \<Rightarrow> int" where
  "size_to_int n = sint (word_of_int n :: u32)"

lemma size_to_int_small: "n < qda_buf_size \<Longrightarrow> size_to_int (int n) = int n"
  by (simp only: size_to_int_def signed_of_int id_apply of_int_eq_id)
    (simp add: qda_buf_size_def signed_take_bit_int_eq_self)

definition qda_reset :: "('s qda, int) prog" where
  "qda_reset =
     bindp (put_type QDA_PKT_RESET) (\<lambda>_.
     bindp (qda_send 4) (\<lambda>rc. fail_if (rc < 0) (- 1) (
     bindp qda_receive (\<lambda>rc. fail_if (int qda_buf_size \<le> size_to_int rc) (- 1) (
     bindp (getp qda_buf) (\<lambda>buf. fail_if (get32 buf 0 \<noteq> pkt_code QDA_PKT_ACK) (- 1) (
     retp 0)))))))"

definition qda_get_dev_desc :: "qda_if \<Rightarrow> ('s qda, int \<times> qda_if) prog" where
  "qda_get_dev_desc dif =
     bindp (put_type QDA_PKT_DEV_DESC_REQ) (\<lambda>_.
     transact 4 QDA_PKT_DEV_DESC_RESP (- 1, dif) (\<lambda>buf.
     retp (0, dif\<lparr>product := get16 buf 6, vendor := get16 buf 4, bcdDevice := get16 buf 8\<rparr>)))"

definition qda_get_dfu_desc :: "qda_if \<Rightarrow> ('s qda, int \<times> qda_if) prog" where
  "qda_get_dfu_desc dif =
     bindp (put_type QDA_PKT_DFU_DESC_REQ) (\<lambda>_.
     transact 4 QDA_PKT_DFU_DESC_RESP (- 1, dif) (\<lambda>buf.
     retp (0, dif\<lparr>func_dfu := (func_dfu dif)\<lparr>wTransferSize := get16 buf 8, bcdDFUVersion := get16 buf 10\<rparr>\<rparr>)))"

definition qda_set_alt_setting :: "u8 \<Rightarrow> ('s qda, int) prog" where
  "qda_set_alt_setting alt =
     bindp (put_type QDA_PKT_DFU_SET_ALT_SETTING) (\<lambda>_.
     bindp (put_at 4 [alt]) (\<lambda>_.
     transact 5 QDA_PKT_ACK (- 1) (\<lambda>_. retp 0)))"

definition qda_dfu_detach :: "('s qda, int) prog" where
  "qda_dfu_detach s = (case qda_conf s of None \<Rightarrow> undefp s
     | Some c \<Rightarrow> (case conf_detach c (io s) of (r, d) \<Rightarrow>
         fail_if (r < 0) (- 1) (retp 0) (s\<lparr>io := d\<rparr>)))"

text \<open>\<open>data\<close> is the memory from the pointer to the end of its object, \<open>None\<close> for \<open>NULL\<close>.\<close>

definition qda_dfu_download :: "u16 \<Rightarrow> u16 \<Rightarrow> u8 list option \<Rightarrow> ('s qda, int) prog" where
  "qda_dfu_download len transaction data =
     bindp (put_type QDA_PKT_DFU_DNLOAD_REQ) (\<lambda>_.
     bindp (put_at 4 (le16 len)) (\<lambda>_.
     bindp (put_at 6 (le16 transaction)) (\<lambda>_.
     if qda_buf_size - 4 - 4 < unat len then retp (- 1)
     else bindp (if len = 0 then retp () else
            case data of None \<Rightarrow> undefp
            | Some d \<Rightarrow> if length d < unat len then undefp else put_at 8 (take (unat len) d)) (\<lambda>_.
          bindp (getp (\<lambda>s. get16 (qda_buf s) 4)) (\<lambda>data_len.
          transact (4 + 4 + unat data_len) QDA_PKT_ACK (- 1) (\<lambda>_. retp 0))))))"

text \<open>\<open>data\<close> is the buffer at the pointer; the copy reads the response at 6.\<close>

definition qda_dfu_upload :: "u16 \<Rightarrow> u16 \<Rightarrow> u8 list \<Rightarrow> ('s qda, int \<times> u8 list) prog" where
  "qda_dfu_upload len transaction data =
     bindp (put_type QDA_PKT_DFU_UPLOAD_REQ) (\<lambda>_.
     bindp (put_at 4 (le16 len)) (\<lambda>_.
     bindp (put_at 6 (le16 transaction)) (\<lambda>_.
     transact (4 + 4) QDA_PKT_DFU_UPLOAD_RESP (- 1, data) (\<lambda>buf.
       let retv = unat (get16 buf 4) in
       fail_if (unat len < retv) (- 1, data) (
       if length buf < 6 + retv \<or> length data < retv then undefp
       else retp (int retv, mem_write data 0 (mem_read buf 6 retv)))))))"

definition qda_dfu_getstatus :: "dfu_status \<Rightarrow> ('s qda, int \<times> dfu_status) prog" where
  "qda_dfu_getstatus status =
     bindp (put_type QDA_PKT_DFU_GETSTATUS_REQ) (\<lambda>_.
     transact 4 QDA_PKT_DFU_GETSTATUS_RESP (- 1, status) (\<lambda>buf.
     retp (0, status\<lparr>bState := buf ! 9, bStatus := buf ! 8, bwPollTimeout := get32 buf 4\<rparr>)))"

definition qda_dfu_clrstatus :: "('s qda, int) prog" where
  "qda_dfu_clrstatus =
     bindp (put_type QDA_PKT_DFU_CLRSTATUS) (\<lambda>_.
     transact 4 QDA_PKT_ACK (- 1) (\<lambda>_. retp 0))"

definition qda_dfu_getstate :: "('s qda, int) prog" where
  "qda_dfu_getstate =
     bindp (put_type QDA_PKT_DFU_GETSTATE_REQ) (\<lambda>_.
     transact 4 QDA_PKT_DFU_GETSTATE_RESP (- 1) (\<lambda>buf. retp (uint (buf ! 4))))"

definition qda_dfu_abort :: "('s qda, int) prog" where
  "qda_dfu_abort =
     bindp (put_type QDA_PKT_DFU_ABORT) (\<lambda>_.
     transact 4 QDA_PKT_ACK (- 1) (\<lambda>_. retp 0))"

section \<open>Names of states and status codes\<close>

definition dfu_state_names :: "string list" where
  "dfu_state_names = [''appIDLE'', ''appDETACH'', ''dfuIDLE'', ''dfuDNLOAD-SYNC'', ''dfuDNBUSY'',
     ''dfuDNLOAD-IDLE'', ''dfuMANIFEST-SYNC'', ''dfuMANIFEST'', ''dfuMANIFEST-WAIT-RESET'',
     ''dfuUPLOAD-IDLE'', ''dfuERROR'']"

definition dfu_status_names :: "string list" where
  "dfu_status_names = [''No error condition is present'',
     ''File is not targeted for use by this device'',
     ''File is for this device but fails some vendor-specific test'',
     ''Device is unable to write memory'',
     ''Memory erase function failed'',
     ''Memory erase check failed'',
     ''Program memory function failed'',
     ''Programmed memory failed verification'',
     ''Cannot program memory due to received address that is out of range'',
     ''Received DFU_DNLOAD with wLength = 0, but device does not think that it '' @
     ''has all data yet'',
     ''Device'' @ [CHR 0x27] @ ''s firmware is corrupt. It cannot return to run-time (non-DFU) '' @ ''operations'',
     ''iString indicates a vendor specific error'',
     ''Device detected unexpected USB reset signalling'',
     ''Device detected unexpected power on reset'',
     ''Something went wrong, but the device does not know what it was'',
     ''Device stalled an unexpected request'']"

text \<open>\<open>None\<close> is the read outside the table that a negative argument gives.\<close>

definition qda_dfu_state_to_string :: "int \<Rightarrow> string option" where
  "qda_dfu_state_to_string state =
     (if 10 < state then Some ''INVALID STATE ID''
      else if state < 0 then None else Some (dfu_state_names ! nat state))"

definition qda_dfu_status_to_string :: "int \<Rightarrow> string option" where
  "qda_dfu_status_to_string status =
     (if 15 < status then Some ''INVALID''
      else if status < 0 then None else Some (dfu_status_names ! nat status))"

end
