(* ===== verification/Qda_Lemmas.thy ===== *)
theory Qda_Lemmas
  imports Qda
begin

unbundle bit_operations_syntax

text \<open>
  What every operation of qda.c keeps, for any transport that respects the buffer it is
  given, and the operations against the protocol: which bytes go out, and what is made of
  each response.
\<close>

section \<open>Well-formed states\<close>

text \<open>
  The contract of the callbacks of \<open>qda_conf_t\<close>: \<open>receive\<close> fills a buffer of the size it was
  given. \<open>I\<close> is an invariant of the transport's own state.
\<close>

locale qda_transport =
  fixes c :: "'s qda_conf" and I :: "'s \<Rightarrow> bool"
  assumes send_inv: "I d \<Longrightarrow> conf_send c bs d = Some (rc, d') \<Longrightarrow> I d'"
    and receive_inv: "I d \<Longrightarrow> conf_receive c buf d = Some ((n, buf'), d') \<Longrightarrow>
      I d' \<and> length buf' = length buf \<and> n \<le> length buf"
    and detach_inv: "I d \<Longrightarrow> I (snd (conf_detach c d))"
begin

definition qda_ok :: "'s qda \<Rightarrow> bool" where
  "qda_ok s \<longleftrightarrow> qda_conf s = Some c \<and> length (qda_buf s) = qda_buf_size \<and> I (io s)"

abbreviation safe :: "('s qda, 'a) prog \<Rightarrow> bool" where
  "safe m \<equiv> valid qda_ok m (\<lambda>_. qda_ok) (\<lambda>_ _. False)"

lemma safe_bindp: "safe m \<Longrightarrow> (\<And>a. safe (f a)) \<Longrightarrow> safe (bindp m f)"
  by (rule valid_bindp)

lemma safe_retp: "safe (retp a)"
  by (rule valid_retp) simp

lemma safe_send: "safe (qda_send n)"
  by (rule validI)
    (auto simp: qda_send_def qda_ok_def intro: send_inv split: option.splits)

lemma safe_receive: "safe qda_receive"
  by (rule validI)
    (auto simp: qda_receive_def qda_ok_def dest: receive_inv split: option.splits)

lemma safe_put_at: "off + length bs \<le> qda_buf_size \<Longrightarrow> safe (put_at off bs)"
  unfolding put_at_def by (rule valid_modifyp) (simp add: qda_ok_def)

lemma safe_put_type: "safe (put_type t)"
  unfolding put_type_def by (rule safe_put_at) (simp add: qda_buf_size_def)

lemma safe_getp: "safe (getp f)"
  by (rule valid_getp) simp

lemma safe_fail_if: "(\<not> b \<Longrightarrow> safe m) \<Longrightarrow> safe (fail_if b e m)"
  by (simp add: fail_if_def safe_retp)

lemma safe_transact: "(\<And>buf. length buf = qda_buf_size \<Longrightarrow> safe (m buf)) \<Longrightarrow> safe (transact n t e m)"
  unfolding transact_def
  by (intro safe_bindp safe_send safe_fail_if safe_receive
      valid_bindp [OF valid_getp [of _ "\<lambda>buf s. length buf = qda_buf_size \<and> qda_ok s"]])
    (auto simp: fail_if_def valid_def qda_ok_def retp_def)

lemmas safe_intros = safe_bindp safe_retp safe_transact safe_put_at safe_put_type

lemma safe_ops:
  "safe qda_reset" "safe (qda_get_dev_desc dif)" "safe (qda_get_dfu_desc dif)"
  "safe (qda_set_alt_setting alt)" "safe (qda_dfu_getstatus st)" "safe qda_dfu_clrstatus"
  "safe qda_dfu_getstate" "safe qda_dfu_abort"
proof -
  show "safe qda_reset"
    unfolding qda_reset_def
    by (intro safe_bindp safe_put_type safe_send safe_fail_if safe_receive safe_getp safe_retp)
qed (simp_all add: qda_get_dev_desc_def qda_get_dfu_desc_def qda_set_alt_setting_def
    qda_dfu_getstatus_def qda_dfu_clrstatus_def qda_dfu_getstate_def qda_dfu_abort_def
    safe_intros qda_buf_size_def)

lemma safe_detach: "safe qda_dfu_detach"
  by (rule validI)
    (auto simp: qda_dfu_detach_def qda_ok_def fail_if_def split: option.splits prod.splits if_splits
      dest: detach_inv)

text \<open>The two transfers: within the objects their pointers point to.\<close>

lemma safe_download:
  assumes "case data of None \<Rightarrow> len = 0 | Some d \<Rightarrow> unat len \<le> length d"
  shows "safe (qda_dfu_download len n data)"
proof -
  have copy: "safe (if len = 0 then retp () else case data of None \<Rightarrow> undefp
      | Some d \<Rightarrow> if length d < unat len then undefp else put_at 8 (take (unat len) d))"
    if "\<not> qda_buf_size - 4 - 4 < unat len"
    using assms that
    by (auto simp: safe_retp qda_buf_size_def not_less min_absorb2 split: option.splits intro!: safe_put_at)
  show ?thesis
    unfolding qda_dfu_download_def
    by (intro safe_bindp safe_put_type safe_put_at valid_if safe_retp safe_getp safe_transact copy)
      (simp_all add: qda_buf_size_def)
qed

lemma safe_upload:
  assumes "unat len \<le> length data" and "unat len \<le> qda_buf_size - 6"
  shows "safe (qda_dfu_upload len n data)"
  unfolding qda_dfu_upload_def Let_def
  by (intro safe_bindp safe_put_type safe_put_at safe_transact safe_fail_if)
    (use assms in \<open>auto simp: qda_buf_size_def safe_retp\<close>)

end

section \<open>Against the protocol\<close>

text \<open>
  On a transport in state \<open>d\<close> the peer answers the request \<open>q\<close> by the response \<open>r\<close>: the
  bytes of the request are sent, and what is then received starts with those of the
  response, padded as the block transport does. \<open>S\<close> holds of the transport afterwards.
\<close>

definition exchanges ::
  "'s qda_conf \<Rightarrow> qda_req \<Rightarrow> qda_resp \<Rightarrow> ('s \<Rightarrow> bool) \<Rightarrow> 's \<Rightarrow> bool" where
  "exchanges c q r S d \<longleftrightarrow> (\<exists>rc d1. conf_send c (enc_req q) d = Some (rc, d1) \<and> 0 \<le> rc \<and>
     (\<forall>buf. length buf = qda_buf_size \<longrightarrow> (\<exists>n pad d2. n < qda_buf_size \<and> S d2 \<and>
        length (enc_resp r @ pad) \<le> qda_buf_size \<and>
        conf_receive c buf d1 = Some ((n, mem_write buf 0 (enc_resp r @ pad)), d2))))"

text \<open>A dialogue: the peer answers these requests in this order.\<close>

primrec dialogue ::
  "'s qda_conf \<Rightarrow> (qda_req \<times> qda_resp) list \<Rightarrow> ('s \<Rightarrow> bool) \<Rightarrow> 's \<Rightarrow> bool" where
  "dialogue c [] S d = S d"
| "dialogue c (qr # qrs) S d = exchanges c (fst qr) (snd qr) (dialogue c qrs S) d"

lemma dialogue_simps [simp]:
  "dialogue c [] S = S" "dialogue c (qr # qrs) S = exchanges c (fst qr) (snd qr) (dialogue c qrs S)"
  by (rule ext, simp)+

text \<open>
  The states between two operations, with \<open>S\<close> for the transport; and those in which a request
  is sent, where the buffer starts with the packet \<open>bs\<close>.
\<close>

definition ready :: "'s qda_conf \<Rightarrow> ('s \<Rightarrow> bool) \<Rightarrow> 's qda \<Rightarrow> bool" where
  "ready c S s \<longleftrightarrow> qda_conf s = Some c \<and> length (qda_buf s) = qda_buf_size \<and> S (io s)"

definition prepared :: "'s qda_conf \<Rightarrow> ('s \<Rightarrow> bool) \<Rightarrow> u8 list \<Rightarrow> 's qda \<Rightarrow> bool" where
  "prepared c S bs s \<longleftrightarrow> ready c S s \<and> take (length bs) (qda_buf s) = bs"

lemma prepared_0: "ready c S s \<Longrightarrow> prepared c S [] s"
  by (simp add: prepared_def)

text \<open>The next field is written after the ones before it.\<close>

lemma prepared_put:
  assumes "prepared c S bs s" and "off = length bs" and "off + length f \<le> qda_buf_size"
  obtains t where "put_at off f s = Some (Ret (), t)" and "prepared c S (bs @ f) t"
proof
  show "put_at off f s = Some (Ret (), s\<lparr>qda_buf := mem_write (qda_buf s) off f\<rparr>)"
    by (simp add: put_at_def)
  show "prepared c S (bs @ f) (s\<lparr>qda_buf := mem_write (qda_buf s) off f\<rparr>)"
    using assms take_mem_write_end [of off "qda_buf s" f] by (simp add: prepared_def ready_def)
qed

lemma prepared_type:
  assumes "ready c S s"
  obtains t where "put_type p s = Some (Ret (), t)" and "prepared c S (le32 (pkt_code p)) t"
  by (rule prepared_put [OF prepared_0 [OF assms], of 0 "le32 (pkt_code p)"])
    (auto simp: put_type_def qda_buf_size_def)

text \<open>A response in the buffer: its type decides, its fields are where the code reads them.\<close>

definition answered :: "qda_resp \<Rightarrow> u8 list \<Rightarrow> bool" where
  "answered r buf \<longleftrightarrow> length buf = qda_buf_size \<and> take (length (enc_resp r)) buf = enc_resp r"

lemma answered_length: "answered r buf \<Longrightarrow> length (enc_resp r) \<le> qda_buf_size"
  by (metis answered_def length_take min.cobounded1)

lemma answered_field:
  assumes "answered r buf" and "off + k \<le> length (enc_resp r)"
  shows "take k (drop off buf) = take k (drop off (enc_resp r))"
proof -
  have "drop off (take (length (enc_resp r)) buf) = take (length (enc_resp r) - off) (drop off buf)"
    by (simp add: drop_take)
  then have "take k (drop off (enc_resp r)) = take k (take (length (enc_resp r) - off) (drop off buf))"
    using assms(1) by (simp add: answered_def)
  then show ?thesis using assms(2) by (simp add: min_absorb1)
qed

lemma answered_nth:
  assumes "answered r buf" and "i < length (enc_resp r)"
  shows "buf ! i = enc_resp r ! i"
  using assms by (metis answered_def nth_take)

lemma answered_type: "answered r buf \<Longrightarrow> get32 buf 0 = pkt_code (resp_type r)"
  using answered_field [of r buf 0 4] length_enc_resp [of r] enc_resp_type [of r] by simp

lemma send_exchange:
  assumes "prepared c (exchanges c q r S) (enc_req q) s" and "n = length (enc_req q)"
  obtains rc t k u where "qda_send n s = Some (Ret rc, t)" and "0 \<le> rc" and "k < qda_buf_size"
    and "qda_receive t = Some (Ret (int k), u)" and "answered r (qda_buf u)" and "ready c S u"
proof -
  from assms(1) obtain rc d1 where 1: "conf_send c (enc_req q) (io s) = Some (rc, d1)" "0 \<le> rc"
    "\<forall>buf. length buf = qda_buf_size \<longrightarrow> (\<exists>k pad d2. k < qda_buf_size \<and> S d2 \<and>
        length (enc_resp r @ pad) \<le> qda_buf_size \<and>
        conf_receive c buf d1 = Some ((k, mem_write buf 0 (enc_resp r @ pad)), d2))"
    by (auto simp: prepared_def ready_def exchanges_def)
  then obtain k pad d2 where 2: "k < qda_buf_size" "length (enc_resp r @ pad) \<le> qda_buf_size" "S d2"
    "conf_receive c (qda_buf s) d1 = Some ((k, mem_write (qda_buf s) 0 (enc_resp r @ pad)), d2)"
    using assms(1) by (auto simp: prepared_def ready_def)
  define u where "u = s\<lparr>qda_buf := mem_write (qda_buf s) 0 (enc_resp r @ pad), io := d2\<rparr>"
  have "answered r (qda_buf u)" "ready c S u"
    using 2(2,3) assms(1) by (simp_all add: u_def answered_def mem_write_def prepared_def ready_def)
  then show thesis
    using 1(1,2) 2(1,4) assms
    by (intro that [of rc "s\<lparr>io := d1\<rparr>" k u])
      (auto simp: qda_send_def qda_receive_def prepared_def ready_def u_def)
qed

lemma transact_exchange:
  assumes "prepared c (exchanges c q r S) (enc_req q) s" and "n = length (enc_req q)"
  obtains u where "answered r (qda_buf u)" and "ready c S u"
    and "transact n t e m s = (if resp_type r = t then m (qda_buf u) u else Some (Ret e, u))"
proof -
  obtain rc s1 k u where 1: "qda_send n s = Some (Ret rc, s1)" "0 \<le> rc"
    "qda_receive s1 = Some (Ret (int k), u)" "answered r (qda_buf u)" "ready c S u"
    by (rule send_exchange [OF assms])
  have "transact n t e m s = (if resp_type r = t then m (qda_buf u) u else Some (Ret e, u))"
    using 1(1-3) answered_type [OF 1(4)]
    by (auto simp: transact_def fail_if_def retp_def)
  with 1(4,5) show thesis by (rule that)
qed

text \<open>The requests that are answered by \<open>ACK\<close> or not, one lemma for the five of them.\<close>

definition ack_result :: "qda_resp \<Rightarrow> int" where
  "ack_result r = (if r = Ack then 0 else - 1)"

lemma resp_type_Ack: "resp_type r = QDA_PKT_ACK \<longleftrightarrow> r = Ack"
  by (cases r) auto

lemma ack_retp: "(if r = Ack then retp 0 u else Some (Ret (- 1), u)) = Some (Ret (ack_result r), u)"
  by (simp add: ack_result_def retp_def)

lemma transact_ack:
  assumes "prepared c (exchanges c q r S) (enc_req q) s" and "n = length (enc_req q)"
  obtains u where "transact n QDA_PKT_ACK (- 1) (\<lambda>_. retp 0) s = Some (Ret (ack_result r), u)"
    and "ready c S u"
  by (rule transact_exchange [OF assms, of QDA_PKT_ACK "- 1 :: int" "\<lambda>_. retp 0"])
    (simp add: resp_type_Ack ack_retp)

lemma reset_exchange:
  assumes "ready c (exchanges c Reset r S) s"
  obtains u where "qda_reset s = Some (Ret (ack_result r), u)" and "ready c S u"
proof -
  obtain s1 where 1: "put_type QDA_PKT_RESET s = Some (Ret (), s1)"
    "prepared c (exchanges c Reset r S) (le32 (pkt_code QDA_PKT_RESET)) s1"
    by (rule prepared_type [OF assms])
  have p: "prepared c (exchanges c Reset r S) (enc_req Reset) s1" using 1(2) by simp
  obtain rc s2 k u where 2: "qda_send 4 s1 = Some (Ret rc, s2)" "0 \<le> rc" "k < qda_buf_size"
    "qda_receive s2 = Some (Ret (int k), u)" "answered r (qda_buf u)" "ready c S u"
    by (rule send_exchange [OF p, of 4]) auto
  have "qda_reset s = Some (Ret (ack_result r), u)"
    using 1(1) 2(1-4)
    by (simp add: qda_reset_def size_to_int_small fail_if_def ack_result_def retp_def answered_type [OF 2(5)] resp_type_Ack)
  then show thesis using 2(6) by (rule that)
qed

lemma simple_exchange:
  assumes "ready c (exchanges c q r S) s" and "enc_req q = le32 (pkt_code p)"
  obtains u where "answered r (qda_buf u)" and "ready c S u"
    and "bindp (put_type p) (\<lambda>_. transact 4 t e m) s =
      (if resp_type r = t then m (qda_buf u) u else Some (Ret e, u))"
proof -
  obtain s1 where 1: "put_type p s = Some (Ret (), s1)" "prepared c (exchanges c q r S) (enc_req q) s1"
    using prepared_type [OF assms(1), of p] assms(2) by metis
  have "(4 :: nat) = length (enc_req q)" using assms(2) by simp
  then obtain u where u: "answered r (qda_buf u)" "ready c S u"
    "transact 4 t e m s1 = (if resp_type r = t then m (qda_buf u) u else Some (Ret e, u))"
    by (rule transact_exchange [OF 1(2)])
  show thesis by (rule that [OF u(1,2)]) (simp only: bindp_ret 1(1) u(3))
qed

lemma set_alt_exchange:
  assumes "ready c (exchanges c (Set_Alt a) r S) s"
  obtains u where "qda_set_alt_setting a s = Some (Ret (ack_result r), u)" and "ready c S u"
proof -
  let ?S = "exchanges c (Set_Alt a) r S"
  obtain s1 where 1: "put_type QDA_PKT_DFU_SET_ALT_SETTING s = Some (Ret (), s1)"
    "prepared c ?S (le32 (pkt_code QDA_PKT_DFU_SET_ALT_SETTING)) s1"
    by (rule prepared_type [OF assms])
  obtain s2 where 2: "put_at 4 [a] s1 = Some (Ret (), s2)" "prepared c ?S (enc_req (Set_Alt a)) s2"
    by (rule prepared_put [OF 1(2), of 4 "[a]"]) (auto simp: qda_buf_size_def)
  obtain u where "transact 5 QDA_PKT_ACK (- 1) (\<lambda>_. retp 0) s2 = Some (Ret (ack_result r), u)"
    "ready c S u" by (rule transact_ack [OF 2(2), of 5]) auto
  with 1(1) 2(1) that show thesis by (simp add: qda_set_alt_setting_def)
qed

lemma clrstatus_exchange:
  assumes "ready c (exchanges c Clr_Status r S) s"
  obtains u where "qda_dfu_clrstatus s = Some (Ret (ack_result r), u)" and "ready c S u"
  by (rule simple_exchange [OF assms, of QDA_PKT_DFU_CLRSTATUS QDA_PKT_ACK "- 1 :: int" "\<lambda>_. retp 0"])
    (simp_all add: qda_dfu_clrstatus_def resp_type_Ack ack_retp)

lemma abort_exchange:
  assumes "ready c (exchanges c Abort r S) s"
  obtains u where "qda_dfu_abort s = Some (Ret (ack_result r), u)" and "ready c S u"
  by (rule simple_exchange [OF assms, of QDA_PKT_DFU_ABORT QDA_PKT_ACK "- 1 :: int" "\<lambda>_. retp 0"])
    (simp_all add: qda_dfu_abort_def resp_type_Ack ack_retp)

text \<open>The data of a request is either in memory or, when there is none, may be \<open>NULL\<close>.\<close>

lemma download_exchange:
  assumes "ready c (exchanges c (Dnload n b) r S) s"
    and "case data of None \<Rightarrow> b = [] | Some d \<Rightarrow> b = take (length b) d"
    and "length b \<le> qda_buf_size - 8" and "len = of_nat (length b)"
  obtains u where "qda_dfu_download len n data s = Some (Ret (ack_result r), u)" and "ready c S u"
proof -
  let ?S = "exchanges c (Dnload n b) r S"
  have lb: "unat len = length b" "length b \<le> 8184"
    using assms(3,4) by (simp_all add: qda_buf_size_def unat_of_nat)
  obtain s1 where 1: "put_type QDA_PKT_DFU_DNLOAD_REQ s = Some (Ret (), s1)"
    "prepared c ?S (le32 (pkt_code QDA_PKT_DFU_DNLOAD_REQ)) s1"
    by (rule prepared_type [OF assms(1)])
  obtain s2 where 2: "put_at 4 (le16 len) s1 = Some (Ret (), s2)"
    "prepared c ?S (le32 (pkt_code QDA_PKT_DFU_DNLOAD_REQ) @ le16 len) s2"
    by (rule prepared_put [OF 1(2), of 4 "le16 len"]) (auto simp: qda_buf_size_def)
  obtain s3 where 3: "put_at 6 (le16 n) s2 = Some (Ret (), s3)"
    "prepared c ?S (le32 (pkt_code QDA_PKT_DFU_DNLOAD_REQ) @ le16 len @ le16 n) s3"
    by (rule prepared_put [OF 2(2), of 6 "le16 n"]) (auto simp: qda_buf_size_def)
  obtain s5 where 5: "(if len = 0 then retp () else case data of None \<Rightarrow> undefp
      | Some d \<Rightarrow> if length d < unat len then undefp else put_at 8 (take (unat len) d)) s3 =
      Some (Ret (), s5)" "prepared c ?S (enc_req (Dnload n b)) s5"
  proof (cases "len = 0")
    case True
    then have "prepared c ?S (enc_req (Dnload n b)) s3" using 3(2) lb by simp
    with True that show thesis by (simp add: retp_def)
  next
    case False
    then obtain d where d: "data = Some d" "b = take (length b) d"
      using assms(2) lb by (cases data) (auto simp: unat_eq_0)
    then have "length b \<le> length d" by (metis length_take min.cobounded1)
    moreover obtain s4 where "put_at 8 b s3 = Some (Ret (), s4)" "prepared c ?S (enc_req (Dnload n b)) s4"
      by (rule prepared_put [OF 3(2), of 8 b]) (use lb assms(4) in \<open>auto simp: qda_buf_size_def\<close>)
    ultimately show thesis using False d lb by (intro that) simp_all
  qed
  have "take 2 (drop 4 (qda_buf s5)) = take 2 (drop 4 (take (8 + length b) (qda_buf s5)))"
    by (simp add: drop_take min_absorb1)
  also have "\<dots> = le16 len" using 5(2) assms(4) by (simp add: prepared_def)
  finally have len: "get16 (qda_buf s5) 4 = len" by (rule get16_le16)
  have n: "4 + 4 + unat len = length (enc_req (Dnload n b))" using lb by simp
  obtain u where u: "transact (4 + 4 + unat len) QDA_PKT_ACK (- 1) (\<lambda>_. retp 0) s5 =
      Some (Ret (ack_result r), u)" "ready c S u"
    by (rule transact_ack [OF 5(2) n])
  have nc: "(qda_buf_size - 4 - 4 < unat len) = False"
    using lb by (simp add: qda_buf_size_def)
  have "qda_dfu_download len n data s = Some (Ret (ack_result r), u)"
    by (simp only: qda_dfu_download_def bindp_ret 1(1) 2(1) 3(1) 5(1) nc if_False bindp_getp len u(1))
  with u(2) show thesis by (rule that [rotated])
qed

text \<open>What the upload operation makes of a response.\<close>

fun upload_result :: "nat \<Rightarrow> u8 list \<Rightarrow> qda_resp \<Rightarrow> int \<times> u8 list" where
  "upload_result n data (Upload_Resp bs) =
     (if length bs \<le> n then (int (length bs), mem_write data 0 bs) else (- 1, data))"
| "upload_result n data _ = (- 1, data)"

lemma upload_exchange:
  assumes "ready c (exchanges c (Upload n len) r S) s" and "unat len \<le> length data"
    and "\<And>bs. r = Upload_Resp bs \<Longrightarrow> length bs < 2 ^ 16"
  obtains u where "qda_dfu_upload len n data s = Some (Ret (upload_result (unat len) data r), u)"
    and "ready c S u"
proof -
  let ?S = "exchanges c (Upload n len) r S"
  obtain s1 where 1: "put_type QDA_PKT_DFU_UPLOAD_REQ s = Some (Ret (), s1)"
    "prepared c ?S (le32 (pkt_code QDA_PKT_DFU_UPLOAD_REQ)) s1"
    by (rule prepared_type [OF assms(1)])
  obtain s2 where 2: "put_at 4 (le16 len) s1 = Some (Ret (), s2)"
    "prepared c ?S (le32 (pkt_code QDA_PKT_DFU_UPLOAD_REQ) @ le16 len) s2"
    by (rule prepared_put [OF 1(2), of 4 "le16 len"]) (auto simp: qda_buf_size_def)
  obtain s3 where 3: "put_at 6 (le16 n) s2 = Some (Ret (), s3)" "prepared c ?S (enc_req (Upload n len)) s3"
    by (rule prepared_put [OF 2(2), of 6 "le16 n"]) (auto simp: qda_buf_size_def)
  define m :: "u8 list \<Rightarrow> ('a qda, int \<times> u8 list) prog" where "m = (\<lambda>buf. let retv = unat (get16 buf 4) in
       fail_if (unat len < retv) (- 1, data) (
       if length buf < 6 + retv \<or> length data < retv then undefp
       else retp (int retv, mem_write data 0 (mem_read buf 6 retv))))"
  obtain u where u: "answered r (qda_buf u)" "ready c S u"
    "transact (4 + 4) QDA_PKT_DFU_UPLOAD_RESP (- 1, data) m s3 =
      (if resp_type r = QDA_PKT_DFU_UPLOAD_RESP then m (qda_buf u) u else Some (Ret (- 1, data), u))"
    by (rule transact_exchange [OF 3(2), of "4 + 4"]) auto
  have run: "qda_dfu_upload len n data s = transact (4 + 4) QDA_PKT_DFU_UPLOAD_RESP (- 1, data) m s3"
    by (simp only: qda_dfu_upload_def bindp_ret 1(1) 2(1) 3(1) m_def)
  have "qda_dfu_upload len n data s = Some (Ret (upload_result (unat len) data r), u)"
  proof (cases r)
    case (Upload_Resp bs)
    note f = answered_field [OF u(1)]
    have "take 2 (drop 4 (qda_buf u)) = le16 (of_nat (length bs))"
      using f [of 4 2] by (simp add: Upload_Resp)
    then have "get16 (qda_buf u) 4 = of_nat (length bs)" by (rule get16_le16)
    then have l: "unat (get16 (qda_buf u) 4) = length bs"
      using assms(3) [OF Upload_Resp] by (simp add: unat_of_nat)
    have "mem_read (qda_buf u) 6 (length bs) = bs"
      using f [of 6 "length bs"] by (simp add: Upload_Resp mem_read_def)
    moreover have "6 + length bs \<le> length (qda_buf u)"
      using answered_length [OF u(1)] u(1) by (simp add: answered_def Upload_Resp)
    ultimately have "m (qda_buf u) u = Some (Ret (upload_result (unat len) data r), u)"
      using l assms(2) by (simp add: m_def Let_def fail_if_def retp_def Upload_Resp)
    then show ?thesis using u(3) run by (simp add: Upload_Resp)
  qed (use u(3) run in auto)
  with u(2) show thesis by (rule that [rotated])
qed

text \<open>The requests that read a structure.\<close>

fun status_result :: "dfu_status \<Rightarrow> qda_resp \<Rightarrow> int \<times> dfu_status" where
  "status_result st (Status_Resp t a b) = (0, st\<lparr>bState := b, bStatus := a, bwPollTimeout := t\<rparr>)"
| "status_result st _ = (- 1, st)"

fun dev_desc_result :: "qda_if \<Rightarrow> qda_resp \<Rightarrow> int \<times> qda_if" where
  "dev_desc_result dif (Dev_Desc_Resp v p b) = (0, dif\<lparr>product := p, vendor := v, bcdDevice := b\<rparr>)"
| "dev_desc_result dif _ = (- 1, dif)"

fun dfu_desc_result :: "qda_if \<Rightarrow> qda_resp \<Rightarrow> int \<times> qda_if" where
  "dfu_desc_result dif (Dfu_Desc_Resp n a t x v) =
     (0, dif\<lparr>func_dfu := (func_dfu dif)\<lparr>wTransferSize := x, bcdDFUVersion := v\<rparr>\<rparr>)"
| "dfu_desc_result dif _ = (- 1, dif)"

fun state_result :: "qda_resp \<Rightarrow> int" where
  "state_result (State_Resp b) = uint b"
| "state_result _ = - 1"

lemma getstatus_exchange:
  assumes "ready c (exchanges c Get_Status r S) s"
  obtains u where "qda_dfu_getstatus st s = Some (Ret (status_result st r), u)" and "ready c S u"
proof (rule simple_exchange [OF assms, of QDA_PKT_DFU_GETSTATUS_REQ QDA_PKT_DFU_GETSTATUS_RESP "(- 1 :: int, st)"
      "\<lambda>buf. retp (0, st\<lparr>bState := buf ! 9, bStatus := buf ! 8, bwPollTimeout := get32 buf 4\<rparr>)"])
  fix u
  assume u: "answered r (qda_buf u)" "ready c S u"
    "bindp (put_type QDA_PKT_DFU_GETSTATUS_REQ) (\<lambda>_. transact 4 QDA_PKT_DFU_GETSTATUS_RESP (- 1 :: int, st)
      (\<lambda>buf. retp (0, st\<lparr>bState := buf ! 9, bStatus := buf ! 8, bwPollTimeout := get32 buf 4\<rparr>))) s =
     (if resp_type r = QDA_PKT_DFU_GETSTATUS_RESP
      then retp (0, st\<lparr>bState := qda_buf u ! 9, bStatus := qda_buf u ! 8,
        bwPollTimeout := get32 (qda_buf u) 4\<rparr>) u else Some (Ret (- 1, st), u))"
  have "qda_dfu_getstatus st s = Some (Ret (status_result st r), u)"
    using u(3) answered_field [OF u(1), of 4 4] answered_nth [OF u(1), of 8] answered_nth [OF u(1), of 9]
    by (cases r) (simp_all add: qda_dfu_getstatus_def retp_def nth_append)
  with u(2) show thesis by (rule that [rotated])
qed simp

lemma getstate_exchange:
  assumes "ready c (exchanges c Get_State r S) s"
  obtains u where "qda_dfu_getstate s = Some (Ret (state_result r), u)" and "ready c S u"
proof (rule simple_exchange [OF assms, of QDA_PKT_DFU_GETSTATE_REQ QDA_PKT_DFU_GETSTATE_RESP "- 1"
      "\<lambda>buf. retp (uint (buf ! 4))"])
  fix u
  assume u: "answered r (qda_buf u)" "ready c S u"
    "bindp (put_type QDA_PKT_DFU_GETSTATE_REQ) (\<lambda>_. transact 4 QDA_PKT_DFU_GETSTATE_RESP (- 1)
      (\<lambda>buf. retp (uint (buf ! 4)))) s =
     (if resp_type r = QDA_PKT_DFU_GETSTATE_RESP then retp (uint (qda_buf u ! 4)) u else Some (Ret (- 1), u))"
  have "qda_dfu_getstate s = Some (Ret (state_result r), u)"
    using u(3) answered_nth [OF u(1), of 4]
    by (cases r) (simp_all add: qda_dfu_getstate_def retp_def nth_append)
  with u(2) show thesis by (rule that [rotated])
qed simp

lemma dev_desc_exchange:
  assumes "ready c (exchanges c Dev_Desc r S) s"
  obtains u where "qda_get_dev_desc dif s = Some (Ret (dev_desc_result dif r), u)" and "ready c S u"
proof (rule simple_exchange [OF assms, of QDA_PKT_DEV_DESC_REQ QDA_PKT_DEV_DESC_RESP "(- 1 :: int, dif)"
      "\<lambda>buf. retp (0, dif\<lparr>product := get16 buf 6, vendor := get16 buf 4, bcdDevice := get16 buf 8\<rparr>)"])
  fix u
  assume u: "answered r (qda_buf u)" "ready c S u"
    "bindp (put_type QDA_PKT_DEV_DESC_REQ) (\<lambda>_. transact 4 QDA_PKT_DEV_DESC_RESP (- 1 :: int, dif) (\<lambda>buf.
      retp (0, dif\<lparr>product := get16 buf 6, vendor := get16 buf 4, bcdDevice := get16 buf 8\<rparr>))) s =
     (if resp_type r = QDA_PKT_DEV_DESC_RESP
      then retp (0, dif\<lparr>product := get16 (qda_buf u) 6, vendor := get16 (qda_buf u) 4,
        bcdDevice := get16 (qda_buf u) 8\<rparr>) u else Some (Ret (- 1, dif), u))"
  note f = answered_field [OF u(1), of _ 2]
  have "qda_get_dev_desc dif s = Some (Ret (dev_desc_result dif r), u)"
    using u(3) f [of 4] f [of 6] f [of 8]
    by (cases r) (simp_all add: qda_get_dev_desc_def retp_def)
  with u(2) show thesis by (rule that [rotated])
qed simp

lemma dfu_desc_exchange:
  assumes "ready c (exchanges c Dfu_Desc r S) s"
  obtains u where "qda_get_dfu_desc dif s = Some (Ret (dfu_desc_result dif r), u)" and "ready c S u"
proof (rule simple_exchange [OF assms, of QDA_PKT_DFU_DESC_REQ QDA_PKT_DFU_DESC_RESP "(- 1 :: int, dif)"
      "\<lambda>buf. retp (0, dif\<lparr>func_dfu := (func_dfu dif)\<lparr>wTransferSize := get16 buf 8,
        bcdDFUVersion := get16 buf 10\<rparr>\<rparr>)"])
  fix u
  assume u: "answered r (qda_buf u)" "ready c S u"
    "bindp (put_type QDA_PKT_DFU_DESC_REQ) (\<lambda>_. transact 4 QDA_PKT_DFU_DESC_RESP (- 1 :: int, dif) (\<lambda>buf.
      retp (0, dif\<lparr>func_dfu := (func_dfu dif)\<lparr>wTransferSize := get16 buf 8, bcdDFUVersion := get16 buf 10\<rparr>\<rparr>))) s =
     (if resp_type r = QDA_PKT_DFU_DESC_RESP
      then retp (0, dif\<lparr>func_dfu := (func_dfu dif)\<lparr>wTransferSize := get16 (qda_buf u) 8,
        bcdDFUVersion := get16 (qda_buf u) 10\<rparr>\<rparr>) u else Some (Ret (- 1, dif), u))"
  note f = answered_field [OF u(1), of _ 2]
  have "qda_get_dfu_desc dif s = Some (Ret (dfu_desc_result dif r), u)"
    using u(3) f [of 8] f [of 10]
    by (cases r) (simp_all add: qda_get_dfu_desc_def retp_def)
  with u(2) show thesis by (rule that [rotated])
qed simp

end
