(* ===== verification/Dfu_Load.thy ===== *)
theory Dfu_Load
  imports Dfu_File Qda_Lemmas
begin

unbundle bit_operations_syntax

text \<open>
  Whole transfers, src/dfu_load.c. They are written against the requests of dfu.c over libusb,
  in the place of which qda.h puts those of qda.c by macros; the model takes the requests as a
  record. A loop is \<open>None\<close> when it does not end. What is printed and the progress bar are left
  out.
\<close>

section \<open>The state of the program\<close>

text \<open>
  \<open>link\<close> is the state of what carries the requests, in the QDA build that of qda.c and of what
  lies below it, \<open>env\<close> the rest of the world: the file system and the clock.
\<close>

record ('l, 'w) host =
  link :: 'l
  env :: 'w

record 'w env_os =
  env_fs :: "'w file_os"
  env_sleep :: "u32 \<Rightarrow> 'w \<Rightarrow> 'w"
  env_pagesize :: int

definition on_link :: "('l, 'a) prog \<Rightarrow> (('l, 'w) host, 'a) prog" where
  "on_link m h = (case m (link h) of None \<Rightarrow> None | Some (r, s) \<Rightarrow> Some (r, h\<lparr>link := s\<rparr>))"

definition on_env :: "('w, 'a) prog \<Rightarrow> (('l, 'w) host, 'a) prog" where
  "on_env m h = (case m (env h) of None \<Rightarrow> None | Some (r, w) \<Rightarrow> Some (r, h\<lparr>env := w\<rparr>))"

text \<open>The macro \<open>milli_sleep\<close> does nothing for 0.\<close>

definition milli_sleep :: "'w env_os \<Rightarrow> u32 \<Rightarrow> (('l, 'w) host, unit) prog" where
  "milli_sleep e msec = (if msec = 0 then retp () else on_env (modifyp (env_sleep e msec)))"

text \<open>States and status codes of usb_dfu.h.\<close>

abbreviation (input) DFU_STATUS_OK :: u8 where "DFU_STATUS_OK \<equiv> 0"
abbreviation (input) DFU_STATE_appIDLE :: u8 where "DFU_STATE_appIDLE \<equiv> 0"
abbreviation (input) DFU_STATE_appDETACH :: u8 where "DFU_STATE_appDETACH \<equiv> 1"
abbreviation (input) DFU_STATE_dfuIDLE :: u8 where "DFU_STATE_dfuIDLE \<equiv> 2"
abbreviation (input) DFU_STATE_dfuDNLOAD_IDLE :: u8 where "DFU_STATE_dfuDNLOAD_IDLE \<equiv> 5"
abbreviation (input) DFU_STATE_dfuMANIFEST_SYNC :: u8 where "DFU_STATE_dfuMANIFEST_SYNC \<equiv> 6"
abbreviation (input) DFU_STATE_dfuMANIFEST :: u8 where "DFU_STATE_dfuMANIFEST \<equiv> 7"
abbreviation (input) DFU_STATE_dfuUPLOAD_IDLE :: u8 where "DFU_STATE_dfuUPLOAD_IDLE \<equiv> 9"
abbreviation (input) DFU_STATE_dfuERROR :: u8 where "DFU_STATE_dfuERROR \<equiv> 10"

text \<open>A structure whose members are not initialised; none is read before it is written.\<close>

definition dfu_status0 :: dfu_status where
  "dfu_status0 = \<lparr>bStatus = 0, bwPollTimeout = 0, bState = 0, iString = 0\<rparr>"

section \<open>The requests\<close>

text \<open>
  The functions the transfers and \<open>main\<close> call. The handle, the interface and the timeout are not
  among the arguments: the macros drop them, and over libusb they stay the same in a transfer.
\<close>

record 'l dfu_ops =
  dfu_download :: "u16 \<Rightarrow> u16 \<Rightarrow> u8 list option \<Rightarrow> ('l, int) prog"
  dfu_upload :: "u16 \<Rightarrow> u16 \<Rightarrow> u8 list \<Rightarrow> ('l, int \<times> u8 list) prog"
  dfu_get_status :: "dfu_status \<Rightarrow> ('l, int \<times> dfu_status) prog"
  dfu_clear_status :: "('l, int) prog"
  dfu_abort :: "('l, int) prog"
  dfu_detach :: "('l, int) prog"
  set_interface_alt_setting :: "u8 \<Rightarrow> ('l, int) prog"
  reset_device :: "('l, int) prog"

text \<open>The macros of qda.h. The one for \<open>dfu_clear_status\<close> asks for the state.\<close>

definition qda_ops :: "'s qda dfu_ops" where
  "qda_ops = \<lparr>
     dfu_download = qda_dfu_download,
     dfu_upload = qda_dfu_upload,
     dfu_get_status = qda_dfu_getstatus,
     dfu_clear_status = qda_dfu_getstate,
     dfu_abort = qda_dfu_abort,
     dfu_detach = qda_dfu_detach,
     set_interface_alt_setting = qda_set_alt_setting,
     reset_device = qda_reset\<rparr>"

lemma qda_ops_simps [simp]:
  "dfu_download qda_ops = qda_dfu_download" "dfu_upload qda_ops = qda_dfu_upload"
  "dfu_get_status qda_ops = qda_dfu_getstatus" "dfu_clear_status qda_ops = qda_dfu_getstate"
  "dfu_abort qda_ops = qda_dfu_abort" "dfu_detach qda_ops = qda_dfu_detach"
  "set_interface_alt_setting qda_ops = qda_set_alt_setting" "reset_device qda_ops = qda_reset"
  by (simp_all add: qda_ops_def)

section \<open>Upload\<close>

text \<open>
  The loop: the value is \<open>ret\<close> and \<open>total_bytes\<close> at \<open>out_free\<close>. The code adds to the \<open>int\<close>
  count and then looks whether it has become negative. Adding past the largest \<open>int\<close> is
  undefined, so the test is of no use: it never holds of a sum that is defined.
\<close>

partial_function (option) upload_loop ::
  "'l dfu_ops \<Rightarrow> 'w env_os \<Rightarrow> int \<Rightarrow> int \<Rightarrow> int \<Rightarrow> u16 \<Rightarrow> u8 list \<Rightarrow> ('l, 'w) host \<Rightarrow>
     ((int \<times> int) res \<times> ('l, 'w) host) option" where
  "upload_loop ops e xfer_size fd total_bytes transaction buf h =
     bindp (on_link (dfu_upload ops (word_of_int xfer_size) transaction buf)) (\<lambda>(rc, buf).
     if rc < 0 then retp (rc, total_bytes)
     else bindp (on_env (dfu_file_write_crc (env_fs e) fd 0 buf rc)) (\<lambda>_.
       if 2 ^ 31 \<le> total_bytes + rc then undefp
       else if total_bytes + rc < 0 then exitp EX_SOFTWARE
       else if rc < xfer_size then retp (0, total_bytes + rc)
       else upload_loop ops e xfer_size fd (total_bytes + rc) (transaction + 1) buf)) h"

text \<open>The buffer is as long as \<open>malloc\<close> was asked for, a \<open>size_t\<close>; its contents are arbitrary.\<close>

definition dfuload_do_upload :: "'l dfu_ops \<Rightarrow> 'w env_os \<Rightarrow> int \<Rightarrow> int \<Rightarrow> int \<Rightarrow> (('l, 'w) host, int) prog" where
  "dfuload_do_upload ops e xfer_size expected_size fd =
     bindp (on_env (dfu_malloc (env_fs e) (xfer_size mod 2 ^ 64))) (\<lambda>_.
     bindp (upload_loop ops e xfer_size fd 0 0 (replicate (nat (xfer_size mod 2 ^ 64)) 0)) (\<lambda>(ret, total_bytes).
     if expected_size \<noteq> 0 \<and> total_bytes \<noteq> expected_size then exitp EX_SOFTWARE else retp ret))"

section \<open>Download\<close>

text \<open>Polling until the device has taken the block.\<close>

partial_function (option) dnload_poll ::
  "'l dfu_ops \<Rightarrow> 'w env_os \<Rightarrow> dfu_status \<Rightarrow> ('l, 'w) host \<Rightarrow> (dfu_status res \<times> ('l, 'w) host) option" where
  "dnload_poll ops e dst h =
     bindp (on_link (dfu_get_status ops dst)) (\<lambda>(ret, dst).
     if ret < 0 then exitp EX_IOERR
     else if bState dst = DFU_STATE_dfuDNLOAD_IDLE \<or> bState dst = DFU_STATE_dfuERROR then retp dst
     else bindp (milli_sleep e (bwPollTimeout dst)) (\<lambda>_. dnload_poll ops e dst)) h"

definition chunk_size :: "int \<Rightarrow> int \<Rightarrow> int \<Rightarrow> int" where
  "chunk_size expected_size bytes_sent xfer_size =
     (let bytes_left = expected_size - bytes_sent in
      if bytes_left < xfer_size then bytes_left else xfer_size)"

text \<open>
  The blocks: the value is whether the loop was left by \<open>goto out\<close>, \<open>bytes_sent\<close> and the next
  block number. With a negative \<open>xfer_size\<close> the buffer pointer would leave its object.
\<close>

partial_function (option) dnload_loop ::
  "'l dfu_ops \<Rightarrow> 'w env_os \<Rightarrow> dfu_file \<Rightarrow> int \<Rightarrow> int \<Rightarrow> int \<Rightarrow> u16 \<Rightarrow> dfu_status \<Rightarrow> ('l, 'w) host \<Rightarrow>
     ((bool \<times> int \<times> u16) res \<times> ('l, 'w) host) option" where
  "dnload_loop ops e file xfer_size expected_size bytes_sent transaction dst h =
     (if bytes_sent < expected_size then
        bindp (on_link (dfu_download ops (word_of_int (chunk_size expected_size bytes_sent xfer_size)) transaction
          (if chunk_size expected_size bytes_sent xfer_size \<noteq> 0
           then Some (drop (nat bytes_sent) (firmware file)) else None))) (\<lambda>ret.
        if ret < 0 then retp (True, bytes_sent, transaction + 1)
        else if bytes_sent + chunk_size expected_size bytes_sent xfer_size < 0 then undefp
        else bindp (dnload_poll ops e dst) (\<lambda>dst.
          if bStatus dst \<noteq> DFU_STATUS_OK
          then retp (True, bytes_sent + chunk_size expected_size bytes_sent xfer_size, transaction + 1)
          else dnload_loop ops e file xfer_size expected_size
            (bytes_sent + chunk_size expected_size bytes_sent xfer_size) (transaction + 1) dst))
      else retp (False, bytes_sent, transaction)) h"

text \<open>After the last block: from the label \<open>get_status\<close> to the end.\<close>

partial_function (option) dnload_manifest ::
  "'l dfu_ops \<Rightarrow> 'w env_os \<Rightarrow> dfu_status \<Rightarrow> ('l, 'w) host \<Rightarrow> (unit res \<times> ('l, 'w) host) option" where
  "dnload_manifest ops e dst h =
     bindp (on_link (dfu_get_status ops dst)) (\<lambda>(ret, dst).
     if ret < 0 then retp ()
     else bindp (milli_sleep e (bwPollTimeout dst)) (\<lambda>_.
       if bState dst = DFU_STATE_dfuMANIFEST_SYNC \<or> bState dst = DFU_STATE_dfuMANIFEST
       then bindp (milli_sleep e 1000) (\<lambda>_. dnload_manifest ops e dst)
       else retp ())) h"

definition dfuload_do_dnload :: "'l dfu_ops \<Rightarrow> 'w env_os \<Rightarrow> int \<Rightarrow> dfu_file \<Rightarrow> (('l, 'w) host, int) prog" where
  "dfuload_do_dnload ops e xfer_size file =
     (let expected_size = size_total file - size_suffix file in
      bindp (dnload_loop ops e file xfer_size expected_size 0 0 dfu_status0) (\<lambda>(out, bytes_sent, transaction).
      if out then retp bytes_sent
      else bindp (on_link (dfu_download ops 0 transaction None)) (\<lambda>ret.
        if ret < 0 then exitp EX_IOERR
        else bindp (dnload_manifest ops e dfu_status0) (\<lambda>_. retp bytes_sent))))"

end
