(* ===== verification/Dfu_Util_Qda.thy ===== *)
theory Dfu_Util_Qda
  imports Serial_Props Qda_Lemmas
begin

unbundle bit_operations_syntax

text \<open>
  QDA over XMODEM over a line: src/dfu_util_qda.c, the callbacks that src/main.c gives to
  \<open>qda_init\<close>. They keep the contract qda.c relies on, and a line that acknowledges the
  request and then delivers a response makes an exchange of the protocol.
\<close>

section \<open>The callbacks\<close>

definition dfu_util_qda_send :: "'s xport \<Rightarrow> u8 list \<Rightarrow> 's xm \<Rightarrow> (int \<times> 's xm) option" where
  "dfu_util_qda_send p data x = Some (xmodem_transmit_package p data x)"

text \<open>The result is a \<open>size_t\<close>.\<close>

definition dfu_util_qda_receive ::
  "'s xport \<Rightarrow> u8 list \<Rightarrow> 's xm \<Rightarrow> ((nat \<times> u8 list) \<times> 's xm) option" where
  "dfu_util_qda_receive p buf x = (case xmodem_receive_package p buf x of None \<Rightarrow> None
     | Some ((ret, buf), x) \<Rightarrow> Some ((if ret = - 1 then 0 else nat (ret mod 2 ^ 64), buf), x))"

definition util_conf :: "'s xport \<Rightarrow> ('s \<Rightarrow> int \<times> 's) \<Rightarrow> 's xm qda_conf" where
  "util_conf p det = \<lparr>conf_send = dfu_util_qda_send p, conf_receive = dfu_util_qda_receive p,
     conf_detach = (\<lambda>x. case det (dev x) of (r, d) \<Rightarrow> (r, x\<lparr>dev := d\<rparr>))\<rparr>"

definition serial_conf :: "'w tty_os \<Rightarrow> 'w serial xm qda_conf" where
  "serial_conf os = util_conf (serial_xport os) (serial_detach os)"

section \<open>The contract of the callbacks\<close>

lemma send_pkt_wf:
  assumes "pkt_wf (pkt_buf x)" and "length data \<le> 128" and "xmodem_send_pkt p data n x = (r, y)"
  shows "pkt_wf (pkt_buf y)"
proof -
  have "pkt_buf (fold (xm_putc p) bs z) = pkt_buf z" for bs z
    by (induction bs arbitrary: z) (simp_all add: xm_putc_def)
  with assms show ?thesis
    by (auto simp: xmodem_send_pkt_def Let_def pkt_wf_def mem_write_def)
qed

lemma xm_getc_buf: "xm_getc p ch x = (r, y) \<Longrightarrow> pkt_buf y = pkt_buf x"
  by (auto simp: xm_getc_def split: prod.splits)

lemma send_pkt_loop_wf:
  assumes "pkt_wf (pkt_buf x)" and "length data \<le> 128" and "send_pkt_loop p data n m x = (r, y)"
  shows "pkt_wf (pkt_buf y)"
  using assms
proof (induction m arbitrary: x)
  case (Suc m)
  obtain r1 x1 where 1: "xmodem_send_pkt p data n x = (r1, x1)" by fastforce
  obtain r2 rsp x2 where 2: "xm_getc p ERR x1 = ((r2, rsp), x2)" by (metis surj_pair)
  have "pkt_wf (pkt_buf x2)" using send_pkt_wf [OF Suc.prems(1,2) 1] xm_getc_buf [OF 2] by simp
  with Suc 1 2 show ?case by (auto split: if_splits)
qed simp

lemma send_byte_loop_buf: "send_byte_loop p c m x = (r, y) \<Longrightarrow> pkt_buf y = pkt_buf x"
proof (induction m arbitrary: x)
  case (Suc m)
  obtain r2 rsp x2 where 2: "xm_getc p ERR (xm_putc p c x) = ((r2, rsp), x2)" by (metis surj_pair)
  then have "pkt_buf x2 = pkt_buf x" using xm_getc_buf by (fastforce simp: xm_putc_def)
  with Suc 2 show ?case by (auto split: if_splits)
qed simp

lemma wait_start_buf: "wait_start p m x = (ok, y) \<Longrightarrow> pkt_buf y = pkt_buf x"
proof (induction m arbitrary: x)
  case (Suc m)
  obtain r2 rsp x2 where 2: "xm_getc p ERR x = ((r2, rsp), x2)" by (metis surj_pair)
  with Suc xm_getc_buf [OF 2] show ?case by (auto split: if_splits)
qed simp

lemma transmit_loop_wf:
  "transmit_loop p data n x = (r, y) \<Longrightarrow> pkt_wf (pkt_buf x) \<Longrightarrow> pkt_wf (pkt_buf y)"
proof (induction data arbitrary: n x rule: length_induct)
  case (1 data)
  show ?case
  proof (cases "data = []")
    case True
    then show ?thesis using 1(2,3) send_byte_loop_buf
      by (auto simp: transmit_loop.simps xmodem_send_byte_with_retry_def split: prod.splits if_splits)
        fastforce+
  next
    case False
    define m where "m = (if 128 \<le> length data then 128 else length data)"
    obtain r1 x1 where s: "send_pkt_loop p (take m data) n MAX_RETRANSMIT x = (r1, x1)" by fastforce
    have "pkt_wf (pkt_buf x1)" by (rule send_pkt_loop_wf [OF 1(3) _ s]) (simp add: m_def)
    moreover have lt: "length (drop m data) < length data" using False by (simp add: m_def)
    moreover have "transmit_loop p data n x =
        (if r1 < 0 then (- 1, x1) else transmit_loop p (drop m data) (n + 1) x1)"
      using False s by (simp add: transmit_loop.simps [of _ data] xmodem_send_pkt_with_retry_def
          Let_def flip: m_def)
    ultimately show ?thesis using 1(1) [rule_format, OF lt, of "n + 1" x1] 1(2)
      by (cases "r1 < 0") auto
  qed
qed

lemma transmit_keeps: "xmodem_transmit_package p data x = (r, y) \<Longrightarrow> xm_wf x \<Longrightarrow> xm_wf y"
  by (auto simp: xmodem_transmit_package_def xm_wf_def xm_set_timeout_def
      split: prod.splits if_splits dest!: wait_start_buf dest: transmit_loop_wf)

text \<open>The transport of the program, with its packet buffer and the statics of serial_io.c.\<close>

definition serial_ok :: "int \<Rightarrow> termios \<Rightarrow> 'w serial xm \<Rightarrow> bool" where
  "serial_ok h a x \<longleftrightarrow> xm_wf x \<and> serial_statics h a (dev x)"

interpretation serial_tr: qda_transport "serial_conf os" "serial_ok h a" for os h a
proof
  show "serial_ok h a d'" if "serial_ok h a d" "conf_send (serial_conf os) bs d = Some (rc, d')"
    for d bs rc d'
    using that statics.transmit_inv [of os bs d rc d' h a] transmit_keeps [of "serial_xport os" bs d rc d']
    by (simp add: serial_ok_def serial_conf_def util_conf_def dfu_util_qda_send_def)
  show "serial_ok h a d' \<and> length buf' = length buf \<and> n \<le> length buf"
    if d: "serial_ok h a d" and r: "conf_receive (serial_conf os) buf d = Some ((n, buf'), d')"
    for d buf n buf' d'
  proof -
    obtain ret where 1: "xmodem_receive_package (serial_xport os) buf d = Some ((ret, buf'), d')"
      and n: "n = (if ret = - 1 then 0 else nat (ret mod 2 ^ 64))"
      using r by (auto simp: serial_conf_def util_conf_def dfu_util_qda_receive_def
          split: option.splits)
    have wf: "xm_wf d" using d by (simp add: serial_ok_def)
    note k = receive_keeps [OF 1 wf]
    have "nat (ret mod 2 ^ 64) \<le> length buf" if "0 \<le> ret" "ret \<le> int (length buf)"
      using that zmod_le_nonneg_dividend [of ret "2 ^ 64"] by linarith
    then show ?thesis
      using k statics.receive_inv [OF 1, of h a] d n by (auto simp: serial_ok_def)
  qed
  show "serial_ok h a (snd (conf_detach (serial_conf os) d))" if "serial_ok h a d" for d
    using that session_statics [OF port_session.detach [OF port_session.start], of os d _ _ h a]
    by (fastforce simp: serial_ok_def serial_conf_def util_conf_def xm_wf_def split: prod.splits)
qed

section \<open>Exchanges over a line\<close>

text \<open>
  What the line delivers for one exchange: the request acknowledged packet by packet, then a
  response in one or more packets, any of them repeated, and the end of transmission.
\<close>

definition answers :: "qda_req \<Rightarrow> qda_resp \<Rightarrow> u8 option list \<Rightarrow> bool" where
  "answers q r l \<longleftrightarrow> (\<exists>ks bs pad. l = acks (length (enc_req q)) @
      map Some (repeated ks (frames 1 bs)) @ [Some EOT] \<and>
     length ks = length bs \<and> (\<forall>b \<in> set bs. length b = 128) \<and> concat bs = enc_resp r @ pad \<and>
     128 * length bs < qda_buf_size)"

lemma exchanges_mono:
  assumes "exchanges c q r S d" and "\<And>x. S x \<Longrightarrow> T x"
  shows "exchanges c q r T d"
proof -
  obtain rc d1 where "conf_send c (enc_req q) d = Some (rc, d1)" "0 \<le> rc"
    "\<forall>buf. length buf = qda_buf_size \<longrightarrow> (\<exists>n pad d2. n < qda_buf_size \<and> S d2 \<and>
        length (enc_resp r @ pad) \<le> qda_buf_size \<and>
        conf_receive c buf d1 = Some ((n, mem_write buf 0 (enc_resp r @ pad)), d2))"
    using assms(1) by (auto simp: exchanges_def)
  then show ?thesis using assms(2) unfolding exchanges_def by blast
qed

context fed_port
begin

lemma send_result:
  assumes "n \<le> qda_buf_size"
  shows "0 \<le> (uint (1 + of_nat (packets n) :: u8) - 1) * 128"
proof -
  have "packets n \<le> 64" using assms by (simp add: packets_def qda_buf_size_def)
  then have "uint (of_nat (packets n + 1) :: u8) = int (packets n + 1)"
    unfolding unsigned_of_nat by (simp add: take_bit_nat_eq_self)
  then show ?thesis by simp
qed

lemma fed_send:
  assumes "inp (dev x) = acks (length bs) @ rest" and "xm_wf x" and "length bs \<le> qda_buf_size"
  obtains rc y where "dfu_util_qda_send p bs x = Some (rc, y)" and "0 \<le> rc"
    and "inp (dev y) = rest" and "xm_wf y"
  by (rule transmit_fed [OF assms(1,2)])
    (use send_result [OF assms(3)] that in \<open>auto simp: dfu_util_qda_send_def\<close>)

lemma fed_exchange:
  assumes "answers q r l" and "inp (dev x) = l @ rest" and "xm_wf x"
    and "length (enc_req q) \<le> qda_buf_size"
  shows "exchanges (util_conf p det) q r (\<lambda>y. inp (dev y) = rest \<and> xm_wf y) x"
proof -
  obtain ks bs pad where l: "l = acks (length (enc_req q)) @ map Some (repeated ks (frames 1 bs)) @ [Some EOT]"
    and bs: "length ks = length bs" "\<forall>b \<in> set bs. length b = 128" "concat bs = enc_resp r @ pad"
      "128 * length bs < qda_buf_size" using assms(1) by (auto simp: answers_def)
  have "inp (dev x) = acks (length (enc_req q)) @ map Some (repeated ks (frames 1 bs)) @ Some EOT # rest"
    using assms(2) l by simp
  then obtain rc y where y: "dfu_util_qda_send p (enc_req q) x = Some (rc, y)" "0 \<le> rc"
    "inp (dev y) = map Some (repeated ks (frames 1 bs)) @ Some EOT # rest" "xm_wf y"
    by (rule fed_send [OF _ assms(3,4)])
  have b254: "length bs \<le> 254" using bs(4) by (simp add: qda_buf_size_def)
  have len: "length (enc_resp r @ pad) = 128 * length bs"
    using length_concat_128 [of bs] bs(2,3) by metis
  have "\<exists>n pad d2. n < qda_buf_size \<and> (inp (dev d2) = rest \<and> xm_wf d2) \<and>
      length (enc_resp r @ pad) \<le> qda_buf_size \<and>
      dfu_util_qda_receive p buf y = Some ((n, mem_write buf 0 (enc_resp r @ pad)), d2)"
    if "length buf = qda_buf_size" for buf
  proof -
    have fit: "128 * length bs \<le> length buf" using that bs(4) by simp
    obtain z where z: "xmodem_receive_package p buf y =
        Some ((int (128 * length bs), mem_write buf 0 (concat bs)), z)" "inp (dev z) = rest" "xm_wf z"
      by (rule receive_fed [OF y(3) bs(1) b254 bs(2) y(4) fit])
    have "int (128 * length bs) mod 2 ^ 64 = int (128 * length bs)"
      using b254 by (intro mod_pos_pos_trivial) simp_all
    then have "dfu_util_qda_receive p buf y =
        Some ((128 * length bs, mem_write buf 0 (enc_resp r @ pad)), z)"
      by (simp add: dfu_util_qda_receive_def z(1) bs(3))
    then show ?thesis using z(2,3) bs(4) len by (intro exI conjI) auto
  qed
  then show ?thesis
    unfolding exchanges_def using y(1,2)
    by (intro exI [of _ rc] exI [of _ y]) (simp add: util_conf_def)
qed

text \<open>
  The receiver's count is not looked at: a response that breaks off after its first packet
  is taken like a complete one.
\<close>

lemma fed_exchange_unfinished:
  assumes "inp (dev x) = acks (length (enc_req q)) @ map Some (frame 1 b) @ replicate 5 None @ rest"
    and "length b = 128" and "b = enc_resp r @ pad" and "xm_wf x" and "length (enc_req q) \<le> qda_buf_size"
  shows "exchanges (util_conf p det) q r (\<lambda>y. inp (dev y) = rest \<and> xm_wf y) x"
proof -
  obtain rc y where y: "dfu_util_qda_send p (enc_req q) x = Some (rc, y)" "0 \<le> rc"
    "inp (dev y) = map Some (frame 1 b) @ replicate 5 None @ rest" "xm_wf y"
    by (rule fed_send [OF assms(1,4,5)])
  have "\<exists>n pad d2. n < qda_buf_size \<and> (inp (dev d2) = rest \<and> xm_wf d2) \<and>
      length (enc_resp r @ pad) \<le> qda_buf_size \<and>
      dfu_util_qda_receive p buf y = Some ((n, mem_write buf 0 (enc_resp r @ pad)), d2)"
    if "length buf = qda_buf_size" for buf
  proof -
    have fit: "128 \<le> length buf" using that by (simp add: qda_buf_size_def)
    obtain z where z: "xmodem_receive_package p buf y = Some ((- 1, mem_write buf 0 b), z)"
      "inp (dev z) = rest" "xm_wf z"
      by (rule receive_unfinished [OF y(3) assms(2) y(4) fit])
    then show ?thesis using assms(2,3)
      by (intro exI [of _ 0] exI [of _ pad] exI [of _ z])
        (simp add: dfu_util_qda_receive_def qda_buf_size_def)
  qed
  then show ?thesis
    unfolding exchanges_def using y(1,2)
    by (intro exI [of _ rc] exI [of _ y]) (simp add: util_conf_def)
qed

text \<open>A whole dialogue on one line.\<close>

lemma fed_dialogue:
  assumes "list_all2 (\<lambda>qr l. answers (fst qr) (snd qr) l \<and> length (enc_req (fst qr)) \<le> qda_buf_size) qrs ls"
    and "inp (dev x) = concat ls @ rest" and "xm_wf x"
  shows "dialogue (util_conf p det) qrs (\<lambda>y. inp (dev y) = rest \<and> xm_wf y) x"
  using assms
proof (induction qrs ls arbitrary: x rule: list_all2_induct)
  case (Cons qr qrs l ls)
  have "exchanges (util_conf p det) (fst qr) (snd qr) (\<lambda>y. inp (dev y) = concat ls @ rest \<and> xm_wf y) x"
    by (rule fed_exchange) (use Cons in auto)
  then show ?case
    using Cons.IH by (auto intro: exchanges_mono)
qed simp

end

text \<open>For the serial port.\<close>

context line_tty
begin

lemma serial_dialogue:
  assumes "list_all2 (\<lambda>qr l. answers (fst qr) (snd qr) l \<and> length (enc_req (fst qr)) \<le> qda_buf_size) qrs ls"
    and "line_input fd rx (dev x) = concat ls @ rest" and "xm_wf x"
  shows "dialogue (serial_conf os) qrs (\<lambda>y. line_input fd rx (dev y) = rest \<and> xm_wf y) x"
  unfolding serial_conf_def by (rule fed.fed_dialogue [OF assms])

lemma serial_unfinished:
  assumes "line_input fd rx (dev x) =
      acks (length (enc_req q)) @ map Some (frame 1 b) @ replicate 5 None @ rest"
    and "length b = 128" and "b = enc_resp r @ pad" and "xm_wf x" and "length (enc_req q) \<le> qda_buf_size"
  shows "exchanges (serial_conf os) q r (\<lambda>y. line_input fd rx (dev y) = rest \<and> xm_wf y) x"
  unfolding serial_conf_def by (rule fed.fed_exchange_unfinished [OF assms])

end

text \<open>The lines of a device that answers without a repetition, each response padded by zeros.\<close>

definition wire :: "qda_req \<times> qda_resp \<Rightarrow> u8 option list" where
  "wire qr = acks (length (enc_req (fst qr))) @
     map Some (concat (frames 1 (blocks (replicate 128 0) (enc_resp (snd qr))))) @ [Some EOT]"

lemma repeated_once: "length fs = n \<Longrightarrow> repeated (replicate n 0) fs = concat fs"
  unfolding repeated_def by (induction fs arbitrary: n) auto

lemma answers_wire:
  assumes "length (enc_resp r) \<le> 8064"
  shows "answers q r (wire (q, r))"
proof -
  let ?bs = "blocks (replicate 128 0) (enc_resp r)"
  have "concat ?bs = enc_resp r @ drop (length (enc_resp r)) (concat ?bs)"
    using concat_blocks [of "replicate 128 0" "enc_resp r"] append_take_drop_id
    by (metis length_replicate)
  moreover have "128 * length ?bs < qda_buf_size"
    using assms by (simp add: length_blocks qda_buf_size_def)
  moreover have "repeated (replicate (length ?bs) 0) (frames 1 ?bs) = concat (frames 1 ?bs)"
    by (rule repeated_once) simp
  ultimately show ?thesis
    unfolding answers_def wire_def fst_conv snd_conv
    by (metis blocks_128 length_replicate)
qed

end
