(* ===== verification/Dfu_Main.thy ===== *)
theory Dfu_Main
  imports Dfu_Options Dfu_Load Dfu_Util_Qda
begin

unbundle bit_operations_syntax

text \<open>
  The main program, src/main.c in its QDA build. The state is that of dfu_load.c with the
  serial port under it; \<open>root0\<close> is the structure \<open>root\<close> as \<open>main\<close> finds it on its stack, which
  it does not initialise. What is printed is left out. The parts that both builds have are
  parametrised by what differs between them.
\<close>

type_synonym ('t, 'w) program = "('t serial xm qda, 'w) host"

text \<open>A call of serial_io.c.\<close>

definition on_port :: "('t serial \<Rightarrow> 'a \<times> 't serial) \<Rightarrow> (('t, 'w) program, 'a) prog" where
  "on_port f h = (case f (dev (io (link h))) of (a, d) \<Rightarrow>
     Some (Ret a, h\<lparr>link := (link h)\<lparr>io := (io (link h))\<lparr>dev := d\<rparr>\<rparr>\<rparr>))"

section \<open>The file\<close>

definition load_stage :: "'w env_os \<Rightarrow> 'x options_scheme \<Rightarrow> (('l, 'w) host, 'x options_scheme) prog" where
  "load_stage e opts =
     (if main_mode opts \<noteq> MODE_DOWNLOAD then retp opts
      else bindp (on_env (dfu_load_file (env_fs e) (main_file opts) MAYBE_SUFFIX MAYBE_PREFIX)) (\<lambda>f.
        let opts = opts\<lparr>main_file := f\<rparr>;
            opts = (if match_vendor opts < 0 \<and> idVendor f \<noteq> 0xffff
                    then opts\<lparr>match_vendor := uint (idVendor f)\<rparr> else opts);
            opts = (if match_product opts < 0 \<and> idProduct f \<noteq> 0xffff
                    then opts\<lparr>match_product := uint (idProduct f)\<rparr> else opts)
        in retp opts))"

section \<open>Opening the device\<close>

text \<open>\<open>serial_io_open\<close> takes the speed, an \<open>unsigned int\<close>, as an \<open>int\<close>.\<close>

definition open_stage :: "'t tty_os \<Rightarrow> qda_if \<Rightarrow> options \<Rightarrow> (('t, 'w) program, qda_if) prog" where
  "open_stage os root0 opts =
     (let root = root0\<lparr>altsetting := word_of_int (match_iface_alt_index opts)\<rparr> in
      bindp (on_link (qda_init (serial_conf os))) (\<lambda>_.
      bindp (on_port (serial_io_open os (serial_device_path opts) (sint (transfer_speed opts)))) (\<lambda>ret.
      if ret < 0 then exitp EX_IOERR
      else bindp (on_link qda_dfu_detach) (\<lambda>ret.
        if ret < 0 then exitp EX_IOERR
        else bindp (on_link (qda_get_dfu_desc root)) (\<lambda>(ret, root).
          if ret < 0 then exitp EX_IOERR else retp root)))))"

text \<open>The alternate setting, selected in both builds.\<close>

definition select_stage :: "'l dfu_ops \<Rightarrow> u8 \<Rightarrow> (('l, 'w) host, unit) prog" where
  "select_stage ops alt =
     bindp (on_link (set_interface_alt_setting ops alt)) (\<lambda>ret.
     if ret < 0 then exitp EX_IOERR else retp ())"

section \<open>The state of the device\<close>

text \<open>From the label \<open>status_again\<close> to the end of the switch.\<close>

partial_function (option) status_again ::
  "'l dfu_ops \<Rightarrow> 'w env_os \<Rightarrow> dfu_status \<Rightarrow> ('l, 'w) host \<Rightarrow> (dfu_status res \<times> ('l, 'w) host) option" where
  "status_again ops e status h =
     bindp (on_link (dfu_get_status ops status)) (\<lambda>(ret, status).
     if ret < 0 then exitp EX_IOERR
     else bindp (milli_sleep e (bwPollTimeout status)) (\<lambda>_.
       if bState status = DFU_STATE_appIDLE \<or> bState status = DFU_STATE_appDETACH then exitp EX_IOERR
       else if bState status = DFU_STATE_dfuERROR then
         bindp (on_link (dfu_clear_status ops)) (\<lambda>ret.
           if ret < 0 then exitp EX_IOERR else status_again ops e status)
       else if bState status = DFU_STATE_dfuDNLOAD_IDLE \<or> bState status = DFU_STATE_dfuUPLOAD_IDLE then
         bindp (on_link (dfu_abort ops)) (\<lambda>ret.
           if ret < 0 then exitp EX_IOERR else status_again ops e status)
       else retp status)) h"

text \<open>The check of \<open>bStatus\<close> after it.\<close>

definition check_status :: "'l dfu_ops \<Rightarrow> 'w env_os \<Rightarrow> dfu_status \<Rightarrow> (('l, 'w) host, unit) prog" where
  "check_status ops e status =
     (if bStatus status = DFU_STATUS_OK then retp ()
      else bindp (on_link (dfu_clear_status ops)) (\<lambda>ret. if ret < 0 then exitp EX_IOERR
        else bindp (on_link (dfu_get_status ops status)) (\<lambda>(ret, status). if ret < 0 then exitp EX_IOERR
          else if bStatus status \<noteq> DFU_STATUS_OK then exitp EX_SOFTWARE
          else milli_sleep e (bwPollTimeout status))))"

section \<open>The transfer size\<close>

text \<open>
  \<open>None\<close> when neither the user nor the device gives one. The comparison with the page size is
  on \<open>int\<close>, the one with \<open>bMaxPacketSize0\<close> on \<open>unsigned int\<close>.
\<close>

definition choose_transfer_size :: "int \<Rightarrow> 'i qda_if_scheme \<Rightarrow> u32 \<Rightarrow> u32 option" where
  "choose_transfer_size pagesize root user_size =
     (let n = (if user_size = 0 then ucast (libusb_cpu_to_le16 (wTransferSize (func_dfu root))) else user_size) in
      if n = 0 then None
      else
        let n = (if pagesize < sint n then word_of_int pagesize else n);
            n = (if n < ucast (bMaxPacketSize0 root) then ucast (bMaxPacketSize0 root) else n)
        in Some n)"

section \<open>The transfer\<close>

definition id_mismatch :: "dfu_file \<Rightarrow> u16 \<Rightarrow> u16 \<Rightarrow> bool" where
  "id_mismatch f v p \<longleftrightarrow>
     (idVendor f \<noteq> 0xffff \<and> idVendor f \<noteq> v) \<or> (idProduct f \<noteq> 0xffff \<and> idProduct f \<noteq> p)"

text \<open>
  The requests, and what is done with DfuSe devices and files: the QDA build, which has no
  DfuSe, exits. \<open>dfuse_options\<close> is whether the pointer is set.
\<close>

record ('l, 'w) build =
  build_ops :: "'l dfu_ops"
  dfuse_options :: bool
  dfuse_upload :: "int \<Rightarrow> int \<Rightarrow> (('l, 'w) host, unit) prog"
  dfuse_dnload :: "int \<Rightarrow> dfu_file \<Rightarrow> (('l, 'w) host, unit) prog"

definition qda_build :: "('s qda, 'w) build" where
  "qda_build = \<lparr>build_ops = qda_ops, dfuse_options = False, dfuse_upload = (\<lambda>xfer_size fd. exitp 1),
     dfuse_dnload = (\<lambda>xfer_size f. exitp 1)\<rparr>"

lemma qda_build_simps [simp]:
  "build_ops qda_build = qda_ops" "\<not> dfuse_options qda_build" "dfuse_upload qda_build m fd = exitp 1"
  "dfuse_dnload qda_build m f = exitp 1"
  by (simp_all add: qda_build_def)

definition upload_stage ::
  "('l, 'w) build \<Rightarrow> 'w env_os \<Rightarrow> 'x options_scheme \<Rightarrow> bool \<Rightarrow> int \<Rightarrow> (('l, 'w) host, unit) prog" where
  "upload_stage b e opts dfuse_device xfer_size =
     bindp (on_env (sysp (fs_open_excl (env_fs e) (file_name (main_file opts))))) (\<lambda>fd.
     if fd < 0 then exitp EX_IOERR
     else bindp (if dfuse_device \<or> dfuse_options b then dfuse_upload b xfer_size fd
          else bindp (dfuload_do_upload (build_ops b) e xfer_size (expected_size opts) fd) (\<lambda>ret.
            if ret < 0 then exitp 1 else retp ())) (\<lambda>_.
       on_env (modifyp (fs_close (env_fs e) fd))))"

definition download_stage ::
  "('l, 'w) build \<Rightarrow> 'w env_os \<Rightarrow> 'x options_scheme \<Rightarrow> 'i qda_if_scheme \<Rightarrow> u16 \<Rightarrow> u16 \<Rightarrow> bool \<Rightarrow> int \<Rightarrow>
     (('l, 'w) host, unit) prog" where
  "download_stage b e opts root runtime_vendor runtime_product dfuse_device xfer_size =
     (let f = main_file opts in
      if id_mismatch f runtime_vendor runtime_product \<and> id_mismatch f (vendor root) (product root)
      then exitp EX_IOERR
      else if dfuse_device \<or> dfuse_options b \<or> bcdDFU f = 0x11a then dfuse_dnload b xfer_size f
      else bindp (dfuload_do_dnload (build_ops b) e xfer_size f) (\<lambda>ret. if ret < 0 then exitp 1 else retp ()))"

definition transfer_stage ::
  "('l, 'w) build \<Rightarrow> 'w env_os \<Rightarrow> 'x options_scheme \<Rightarrow> 'i qda_if_scheme \<Rightarrow> u16 \<Rightarrow> u16 \<Rightarrow>
     (('l, 'w) host, unit) prog" where
  "transfer_stage b e opts root runtime_vendor runtime_product =
     (case choose_transfer_size (env_pagesize e) root (transfer_size opts) of
        None \<Rightarrow> exitp EX_IOERR
      | Some n \<Rightarrow>
          let dfuse_device = (bcdDFUVersion (func_dfu root) = libusb_cpu_to_le16 0x11a) in
          case main_mode opts of
            MODE_UPLOAD \<Rightarrow> upload_stage b e opts dfuse_device (sint n)
          | MODE_DOWNLOAD \<Rightarrow> download_stage b e opts root runtime_vendor runtime_product dfuse_device (sint n)
          | MODE_DETACH \<Rightarrow> bindp (on_link (dfu_detach (build_ops b))) (\<lambda>_. retp ())
          | _ \<Rightarrow> exitp EX_IOERR)"

section \<open>The end\<close>

definition LIBUSB_ERROR_NOT_FOUND :: int where "LIBUSB_ERROR_NOT_FOUND = - 5"

definition close_stage :: "'t tty_os \<Rightarrow> options \<Rightarrow> (('t, 'w) program, int) prog" where
  "close_stage os opts =
     bindp (if final_reset opts
       then bindp (on_link qda_reset) (\<lambda>ret.
         if ret < 0 \<and> ret \<noteq> LIBUSB_ERROR_NOT_FOUND then exitp EX_IOERR else retp ())
       else retp ()) (\<lambda>_.
     bindp (on_port (serial_io_close os)) (\<lambda>_. retp 0))"

text \<open>From the choice of the alternate setting on, and the whole of \<open>main\<close>.\<close>

definition device_stage :: "'t tty_os \<Rightarrow> 'w env_os \<Rightarrow> options \<Rightarrow> qda_if \<Rightarrow> (('t, 'w) program, int) prog" where
  "device_stage os e opts root =
     bindp (select_stage qda_ops (altsetting root)) (\<lambda>_.
     bindp (status_again qda_ops e dfu_status0) (\<lambda>status.
     bindp (check_status qda_ops e status) (\<lambda>_.
     bindp (transfer_stage qda_build e opts root (vendor root) (product root)) (\<lambda>_. close_stage os opts))))"

definition main ::
  "'t tty_os \<Rightarrow> 'w env_os \<Rightarrow> qda_if \<Rightarrow> (char \<times> string) list \<Rightarrow> (('t, 'w) program, int) prog" where
  "main os e root0 args =
     (case parse_options args options0 of
        Inl c \<Rightarrow> exitp c
      | Inr opts \<Rightarrow>
          if main_mode opts = MODE_VERSION then exitp 0
          else if main_mode opts = MODE_NONE then exitp EX_USAGE
          else
            let opts = (if match_config_index opts = 0 then opts\<lparr>match_config_index := - 1\<rparr> else opts) in
            bindp (load_stage e opts) (\<lambda>opts.
            bindp (open_stage os root0 opts) (\<lambda>root. device_stage os e opts root)))"

end
