(* ===== verification/Dfu_File_Lemmas.thy ===== *)
theory Dfu_File_Lemmas
  imports Dfu_File
begin

unbundle bit_operations_syntax

text \<open>
  What the properties of dfu_file.c rest on: the checksum as a linear map whose register is
  zero exactly after a word equal to it, the suffix as the bytes of its fields, and storing
  and loading over a file system that behaves as POSIX says.
\<close>

section \<open>The checksum\<close>

abbreviation crc32_feed :: "u32 \<Rightarrow> u8 list \<Rightarrow> u32" where
  "crc32_feed \<equiv> foldl crc32_byte"

lemma crc32_bit_0 [simp]: "crc32_bit r = 0 \<longleftrightarrow> r = 0"
proof
  assume z: "crc32_bit r = 0"
  have p: "bit (0xEDB88320 :: u32) 31" by (simp add: bit_numeral_rec numeral_eq_Suc)
  have "\<not> bit (drop_bit 1 r) 31" by (auto simp: bit_drop_bit_eq dest: bit_imp_le_length)
  then have "bit (drop_bit 1 r XOR 0xEDB88320) 31" using p by (simp add: bit_xor_iff)
  then have "drop_bit 1 r XOR 0xEDB88320 \<noteq> 0" by auto
  then have b: "\<not> bit r 0" and d: "drop_bit 1 r = 0"
    using z by (auto simp: crc32_bit_def split: if_splits)
  show "r = 0"
  proof (rule bit_word_eqI)
    fix n
    have "bit (drop_bit 1 r) (n - 1) = bit (0 :: u32) (n - 1)" using d by simp
    then show "bit r n = bit (0 :: u32) n"
      using b by (cases n) (auto simp: bit_drop_bit_eq)
  qed
qed (simp add: crc32_bit_def)

lemma crc32_pow_0 [simp]: "(crc32_bit ^^ n) r = 0 \<longleftrightarrow> r = 0"
  by (induction n) simp_all

lemma xor_eq_0: "a XOR b = 0 \<longleftrightarrow> a = (b :: 'a::len word)"
  using xor_cancel_right [of a b b] by simp

lemma crc32_pow_inj: "(crc32_bit ^^ n) a = (crc32_bit ^^ n) b \<longleftrightarrow> a = b"
  using crc32_pow_0 [of n "a XOR b"] by (simp only: crc32_pow_xor xor_eq_0)

lemma crc32_byte_inj: "crc32_byte a d = crc32_byte b d \<longleftrightarrow> a = b"
  by (simp add: crc32_byte_ref crc32_ref_def crc32_pow_inj xor_cancel_right)

lemma crc32_feed_inj: "crc32_feed a bs = crc32_feed b bs \<longleftrightarrow> a = b"
  by (induction bs arbitrary: a b) (simp_all add: crc32_byte_inj)

text \<open>Four bytes are one word, fed by 32 steps.\<close>

lemma crc32_pow_lift:
  assumes "n + 8 \<le> 32"
  shows "(crc32_bit ^^ n) x XOR ucast (d :: u8) = (crc32_bit ^^ n) (x XOR push_bit n (ucast d))"
proof -
  have "(crc32_bit ^^ n) (push_bit n (ucast d)) = drop_bit n (push_bit n (ucast d))"
    by (rule crc32_pow_shift) (simp add: bit_push_bit_iff)
  also have "\<dots> = ucast d"
  proof (rule bit_word_eqI)
    fix i
    show "bit (drop_bit n (push_bit n (ucast d :: u32))) i = bit (ucast d :: u32) i"
      using assms bit_imp_le_length [of d i] by (auto simp: bit_simps)
  qed
  finally show ?thesis by (simp add: crc32_pow_xor)
qed

lemma word32_split_xor:
  "ucast (ucast w :: u8) XOR push_bit 8 (ucast (ucast (drop_bit 8 w) :: u8)) XOR
   push_bit 16 (ucast (ucast (drop_bit 16 w) :: u8)) XOR
   push_bit 24 (ucast (ucast (drop_bit 24 w) :: u8)) = (w :: u32)"
proof (rule bit_word_eqI)
  fix n :: nat
  assume "n < LENGTH(32)"
  moreover have "24 + (n - 24) = n" if "24 \<le> n"
    using that by simp
  ultimately show "bit (ucast (ucast w :: u8) XOR push_bit 8 (ucast (ucast (drop_bit 8 w) :: u8)) XOR
    push_bit 16 (ucast (ucast (drop_bit 16 w) :: u8)) XOR
    push_bit 24 (ucast (ucast (drop_bit 24 w) :: u8)) :: u32) n = bit w n"
    by (cases "n < 8"; cases "n < 16"; cases "n < 24") (auto simp: bit_simps)
qed

lemma crc32_feed_word: "crc32_feed s (le32 w) = (crc32_bit ^^ 32) (s XOR w)"
proof -
  define a where "a = (ucast w :: u8)"
  define b where "b = (ucast (drop_bit 8 w) :: u8)"
  define c where "c = (ucast (drop_bit 16 w) :: u8)"
  define d where "d = (ucast (drop_bit 24 w) :: u8)"
  let ?p = "\<lambda>n. crc32_bit ^^ n"
  have add: "?p m (?p n x) = ?p (m + n) x" for m n x by (simp add: funpow_add)
  have "crc32_feed s (le32 w) = ?p 8 (?p 8 (?p 8 (?p 8 (s XOR ucast a) XOR ucast b) XOR ucast c) XOR ucast d)"
    by (simp add: le32_def crc32_byte_ref crc32_ref_def a_def b_def c_def d_def)
  also have "\<dots> = ?p 32 (s XOR ucast a XOR push_bit 8 (ucast b) XOR push_bit 16 (ucast c) XOR push_bit 24 (ucast d))"
    by (simp add: crc32_pow_lift add xor.assoc)
  also have "s XOR ucast a XOR push_bit 8 (ucast b) XOR push_bit 16 (ucast c) XOR push_bit 24 (ucast d) = s XOR w"
    using word32_split_xor [of w] by (simp add: a_def b_def c_def d_def xor.assoc)
  finally show ?thesis .
qed

text \<open>The register is zero exactly after the word that equals it.\<close>

lemma crc32_residue: "crc32_feed s (le32 w) = 0 \<longleftrightarrow> w = s"
  by (auto simp: crc32_feed_word xor_eq_0)

lemma le32_get32: "length bs = 4 \<Longrightarrow> le32 (get32 bs 0) = bs"
proof -
  assume "length bs = 4"
  then obtain a b c d where bs: "bs = [a, b, c, d]"
    by (auto simp: numeral_eq_Suc length_Suc_conv)
  have n: "\<not> bit x (8 + i)" "\<not> bit x (16 + i)" "\<not> bit x (24 + i)" for x :: u8 and i
    using bit_imp_le_length [of x "8 + i"] bit_imp_le_length [of x "16 + i"]
      bit_imp_le_length [of x "24 + i"] by auto
  have "\<not> bit x i" if "8 \<le> i" for x :: u8 and i using that bit_imp_le_length [of x i] by auto
  with n show ?thesis
    unfolding bs get32_def le32_def
    by (auto intro!: bit_word_eqI simp: bit_simps)
qed

lemma get32_inj: "length bs = 4 \<Longrightarrow> length cs = 4 \<Longrightarrow> get32 bs 0 = get32 cs 0 \<longleftrightarrow> bs = cs"
  using le32_get32 by metis

lemma crc32_burst:
  assumes "length b = length c" and "length b \<le> 4" and "crc32_feed s b = crc32_feed s c"
  shows "b = c"
proof -
  let ?z = "replicate (4 - length b) 0 :: u8 list"
  have l: "length (b @ ?z) = 4" "length (c @ ?z) = 4" using assms(1,2) by simp_all
  have "crc32_feed s (b @ ?z) = crc32_feed s (c @ ?z)" using assms(3) by simp
  then have "crc32_feed s (le32 (get32 (b @ ?z) 0)) = crc32_feed s (le32 (get32 (c @ ?z) 0))"
    by (simp only: le32_get32 l)
  then have "get32 (b @ ?z) 0 = get32 (c @ ?z) 0"
    unfolding crc32_feed_word by (simp only: crc32_pow_inj xor_cancel_left)
  then show ?thesis using get32_inj [OF l] by simp
qed

section \<open>The suffix\<close>

lemma sum16: "push_bit 8 (ucast (h :: u8)) + ucast (l :: u8) = (ucast l OR push_bit 8 (ucast h) :: u16)"
proof -
  have n: "\<not> bit l i" if "8 \<le> i" for i using that bit_imp_le_length [of l i] by auto
  have "push_bit 8 (ucast h) AND (ucast l :: u16) = 0"
    by (rule bit_word_eqI) (auto simp: bit_simps n)
  then show ?thesis by (simp add: disjunctive_add_eq_or or.commute)
qed

lemma sum32:
  "push_bit 24 (ucast (d :: u8)) + push_bit 16 (ucast (c :: u8)) + push_bit 8 (ucast (b :: u8)) +
     ucast (a :: u8) =
   (ucast a OR push_bit 8 (ucast b) OR push_bit 16 (ucast c) OR push_bit 24 (ucast d) :: u32)"
proof -
  have n: "\<not> bit x i" if "8 \<le> i" for x :: u8 and i using that bit_imp_le_length [of x i] by auto
  have "push_bit 24 (ucast d) AND (push_bit 16 (ucast c) :: u32) = 0"
    and "(push_bit 24 (ucast d) OR push_bit 16 (ucast c)) AND (push_bit 8 (ucast b) :: u32) = 0"
    and "(push_bit 24 (ucast d) OR push_bit 16 (ucast c) OR push_bit 8 (ucast b)) AND (ucast a :: u32) = 0"
    by (rule bit_word_eqI, auto simp: bit_simps n)+
  then show ?thesis by (simp add: disjunctive_add_eq_or ac_simps)
qed

text \<open>What a file that ends in a valid suffix looks like, and what is read from it.\<close>

definition dfu_signed :: "u8 list \<Rightarrow> bool" where
  "dfu_signed bs \<longleftrightarrow> 16 \<le> length bs \<and> take 3 (drop (length bs - 8) bs) = [0x55, 0x46, 0x44] \<and>
     crc32_feed DFU_CRC_INIT bs = 0"

definition signed_file :: "dfu_file \<Rightarrow> dfu_file" where
  "signed_file f = (let s = drop (length (firmware f) - 16) (firmware f) in
     f\<lparr>dwCRC := get32 s 12, bcdDFU := get16 s 6, size_suffix := uint (s ! 11), idVendor := get16 s 4,
       idProduct := get16 s 2, file_bcdDevice := get16 s 0\<rparr>)"

lemma crc32_split:
  assumes "4 \<le> length bs"
  shows "crc32_feed s bs = 0 \<longleftrightarrow> get32 (drop (length bs - 4) bs) 0 = crc32_feed s (take (length bs - 4) bs)"
proof -
  have "bs = take (length bs - 4) bs @ le32 (get32 (drop (length bs - 4) bs) 0)"
    using assms by (simp add: le32_get32)
  then have "crc32_feed s bs = crc32_feed (crc32_feed s (take (length bs - 4) bs))
      (le32 (get32 (drop (length bs - 4) bs) 0))"
    by (metis foldl_append)
  then show ?thesis by (simp only: crc32_residue)
qed

lemma take3: "3 \<le> length xs \<Longrightarrow> take 3 xs = [xs ! 0, xs ! 1, xs ! 2]"
  by (cases xs; cases "tl xs"; cases "tl (tl xs)") (auto simp: numeral_3_eq_3)

lemma get32_drop: "a + k + 3 < length bs \<Longrightarrow> get32 (drop a bs) k = get32 bs (a + k)"
  by (simp add: get32_def add.assoc)

lemma suffix_signature:
  assumes "16 \<le> length bs"
  shows "take 3 (drop (length bs - 8) bs) = [0x55, 0x46, 0x44] \<longleftrightarrow>
    (let s = drop (length bs - 16) bs in s ! 10 = 0x44 \<and> s ! 9 = 0x46 \<and> s ! 8 = 0x55)"
proof -
  have "drop (length bs - 8) bs ! i = drop (length bs - 16) bs ! (8 + i)" if "i < 8" for i
    using that assms by simp
  from this [of 0] this [of 1] this [of 2] show ?thesis
    using assms by (auto simp: take3 Let_def)
qed

text \<open>The block in terms of the sixteen bytes; then in terms of the file.\<close>

lemma parse_suffix_16:
  fixes f :: dfu_file
  defines "s \<equiv> drop (length (firmware f) - 16) (firmware f)"
  assumes "size_total f = int (length (firmware f))" and "16 \<le> length (firmware f)"
  shows "parse_suffix f =
    (if \<not> (s ! 10 = 0x44 \<and> s ! 9 = 0x46 \<and> s ! 8 = 0x55) then Inr (True, f)
     else if get32 s 12 \<noteq> crc32_feed DFU_CRC_INIT (take (length (firmware f) - 4) (firmware f))
     then Inr (True, f\<lparr>dwCRC := get32 s 12\<rparr>)
     else if uint (s ! 11) < 16 \<or> size_total f < uint (s ! 11) then Inl EX_IOERR
     else Inr (False, signed_file f))"
proof -
  have i: "nat (size_total f - 16) = length (firmware f) - 16"
    "nat (size_total f - 4) = length (firmware f) - 4" and n: "\<not> size_total f < 16"
    using assms(2,3) by auto
  have d: "push_bit 24 (ucast (s ! 15)) + push_bit 16 (ucast (s ! 14)) +
      push_bit 8 (ucast (s ! 13)) + ucast (s ! 12) = get32 s 12"
    by (simp add: sum32 get32_def)
  have h: "push_bit 8 (ucast (s ! 7)) + ucast (s ! 6) = get16 s 6"
    "push_bit 8 (ucast (s ! 5)) + ucast (s ! 4) = get16 s 4"
    "push_bit 8 (ucast (s ! 3)) + ucast (s ! 2) = get16 s 2"
    "push_bit 8 (ucast (s ! 1)) + ucast (s ! 0) = get16 s 0"
    by (simp_all add: sum16 get16_def)
  show ?thesis
    unfolding parse_suffix_def Let_def i s_def [symmetric] d h signed_file_def
    using n by simp
qed

lemma suffix_crc:
  assumes "16 \<le> length bs"
  shows "get32 (drop (length bs - 16) bs) 12 = crc32_feed s (take (length bs - 4) bs) \<longleftrightarrow> crc32_feed s bs = 0"
  using assms crc32_split [of bs s] get32_drop [of "length bs - 16" 12 bs] get32_drop [of "length bs - 4" 0 bs]
  by (simp add: add.commute [of "length bs - 16"])

lemma parse_suffix_unsigned:
  assumes "size_total f = int (length (firmware f))" and "\<not> dfu_signed (firmware f)"
  shows "\<exists>d. parse_suffix f = Inr (True, f\<lparr>dwCRC := d\<rparr>)"
proof (cases "16 \<le> length (firmware f)")
  case False
  then show ?thesis using assms(1)
    by (intro exI [of _ "dwCRC f"]) (simp add: parse_suffix_def)
next
  case True
  have "f = f\<lparr>dwCRC := dwCRC f\<rparr>" by simp
  then show ?thesis
    using assms(2) True suffix_signature [OF True] suffix_crc [OF True, of DFU_CRC_INIT]
      parse_suffix_16 [OF assms(1) True]
    unfolding dfu_signed_def Let_def by metis
qed

lemma parse_suffix_signed:
  assumes "size_total f = int (length (firmware f))" and "dfu_signed (firmware f)"
  defines "l \<equiv> uint (drop (length (firmware f) - 16) (firmware f) ! 11)"
  shows "parse_suffix f = (if l < 16 \<or> size_total f < l then Inl EX_IOERR else Inr (False, signed_file f))"
proof -
  have n: "16 \<le> length (firmware f)" using assms(2) by (simp add: dfu_signed_def)
  show ?thesis
    using assms(2) suffix_signature [OF n] suffix_crc [OF n, of DFU_CRC_INIT]
      parse_suffix_16 [OF assms(1) n]
    unfolding dfu_signed_def Let_def l_def by presburger
qed

text \<open>Damage within four bytes in a row is noticed, wherever it is.\<close>

lemma damaged_unsigned:
  assumes "dfu_signed (a @ b @ c)" and "length b' = length b" and "length b \<le> 4" and "b' \<noteq> b"
  shows "\<not> dfu_signed (a @ b' @ c)"
  using assms crc32_burst [of b' b "crc32_feed DFU_CRC_INIT a"]
  by (auto simp: dfu_signed_def) (metis crc32_feed_inj)

section \<open>The file that is written\<close>

definition file_wf :: "dfu_file \<Rightarrow> bool" where
  "file_wf f \<longleftrightarrow> size_total f = int (length (firmware f)) \<and> 0 \<le> size_prefix f \<and> 0 \<le> size_suffix f \<and>
     size_prefix f + size_suffix f \<le> size_total f"

definition payload :: "dfu_file \<Rightarrow> u8 list" where
  "payload f = take (nat (size_total f - size_prefix f - size_suffix f)) (drop (nat (size_prefix f)) (firmware f))"

definition prefix_bytes :: "dfu_file \<Rightarrow> u8 list" where
  "prefix_bytes f = (case file_prefix_type f of ZERO_PREFIX \<Rightarrow> [] | LMDFU_PREFIX \<Rightarrow> lmdfu_prefix f
     | LPCDFU_UNENCRYPTED_PREFIX \<Rightarrow> lpcdfu_prefix f)"

definition dfu_image :: "dfu_file \<Rightarrow> bool \<Rightarrow> bool \<Rightarrow> u8 list" where
  "dfu_image f ws wp = (let bs = (if wp then prefix_bytes f else []) @ payload f; h = bs @ suffix_head f in
     if ws then h @ le32 (crc32_feed DFU_CRC_INIT h) else bs)"

lemma length_payload:
  "file_wf f \<Longrightarrow> int (length (payload f)) = size_total f - size_prefix f - size_suffix f"
  by (auto simp: payload_def file_wf_def min_def)

lemma suffix_head_le16:
  "suffix_head f = le16 (file_bcdDevice f) @ le16 (idProduct f) @ le16 (idVendor f) @ le16 (bcdDFU f) @
     [0x55, 0x46, 0x44, 16]"
  by (simp add: suffix_head_def le16_def and_ff)

lemma length_suffix_head [simp]: "length (suffix_head f) = 12"
  by (simp add: suffix_head_def)

lemma length_prefix_bytes:
  "length (prefix_bytes f) =
     (case file_prefix_type f of ZERO_PREFIX \<Rightarrow> 0 | LMDFU_PREFIX \<Rightarrow> 8 | LPCDFU_UNENCRYPTED_PREFIX \<Rightarrow> 16)"
  by (simp add: prefix_bytes_def lmdfu_prefix_def lpcdfu_prefix_def Let_def split: prefix_type.split)

lemma length_lmdfu_prefix [simp]: "length (lmdfu_prefix f) = 8"
  by (simp add: lmdfu_prefix_def Let_def)

lemma length_lpcdfu_prefix [simp]: "length (lpcdfu_prefix f) = 16"
  by (simp add: lpcdfu_prefix_def Let_def)

lemma image_signed: "dfu_signed (dfu_image f True wp)"
  by (simp add: dfu_image_def Let_def dfu_signed_def crc32_residue [THEN iffD2] suffix_head_def le32_def
      del: foldl_append foldl_Cons)
    (simp add: crc32_residue [THEN iffD2] flip: le32_def)

text \<open>What is read back from it.\<close>

lemma image_suffix:
  "\<exists>c. dfu_image f True wp = ((if wp then prefix_bytes f else []) @ payload f) @ suffix_head f @ le32 c"
  unfolding dfu_image_def Let_def by auto

lemma signed_file_image:
  assumes "firmware g = dfu_image f True wp"
  shows "bcdDFU (signed_file g) = bcdDFU f" "idVendor (signed_file g) = idVendor f"
    "idProduct (signed_file g) = idProduct f" "file_bcdDevice (signed_file g) = file_bcdDevice f"
    "size_suffix (signed_file g) = 16"
proof -
  obtain p c where i: "dfu_image f True wp = p @ suffix_head f @ le32 c"
    using image_suffix by blast
  have d: "drop (length (firmware g) - 16) (firmware g) = suffix_head f @ le32 c"
    by (simp add: assms i)
  show "bcdDFU (signed_file g) = bcdDFU f" "idVendor (signed_file g) = idVendor f"
    "idProduct (signed_file g) = idProduct f" "file_bcdDevice (signed_file g) = file_bcdDevice f"
    "size_suffix (signed_file g) = 16"
    unfolding signed_file_def d Let_def
    by (simp_all add: suffix_head_le16) (simp_all add: le16_def)
qed

lemma length_dfu_image:
  "length (dfu_image f ws wp) = (if wp then length (prefix_bytes f) else 0) + length (payload f) + (if ws then 16 else 0)"
  by (simp add: dfu_image_def Let_def)

lemma drop_image:
  "wp \<Longrightarrow> take (length (payload f)) (drop (length (prefix_bytes f)) (dfu_image f ws wp)) = payload f"
  by (simp add: dfu_image_def Let_def)

lemma low_bytes:
  "push_bit 8 (ucast (ucast (drop_bit 8 (ucast a :: u32)) :: u8)) OR ucast (ucast (ucast a :: u32) :: u8) =
   (ucast (a :: u16) :: u32)"
proof (rule bit_word_eqI)
  fix n :: nat
  have "\<not> bit a n" if "16 \<le> n" using that bit_imp_le_length [of a n] by auto
  then show "bit (push_bit 8 (ucast (ucast (drop_bit 8 (ucast a :: u32)) :: u8)) OR
      ucast (ucast (ucast a :: u32) :: u8) :: u32) n = bit (ucast a :: u32) n"
    by (cases "n < 8"; cases "n < 16") (auto simp: bit_simps)
qed

lemma kib_div: "(1024 * ucast (a :: u16)) div 1024 = (ucast a :: u32)"
proof -
  have b: "uint a < 65536" using uint_lt2p [of a] by simp
  have "uint ((1024 * ucast a) div 1024 :: u32) = uint (ucast a :: u32)"
    using b by (simp add: uint_div uint_word_ariths unsigned_ucast_eq take_bit_eq_mod)
  then show ?thesis by (simp only: word_uint_eq_iff)
qed

text \<open>A prefix that was written is found again.\<close>

lemma probe_image:
  assumes "firmware g = dfu_image f ws True" and "size_total g = int (length (firmware g))"
    and "8 + size_suffix g \<le> size_total g" and "file_prefix_type f = LMDFU_PREFIX"
    and "lmdfu_address f = 1024 * ucast (a :: u16)"
  shows "probe_prefix g = (0, g\<lparr>file_prefix_type := LMDFU_PREFIX, size_prefix := 8,
    lmdfu_address := lmdfu_address f\<rparr>)"
proof -
  have p: "prefix_bytes f = lmdfu_prefix f" using assms(4) by (simp add: prefix_bytes_def)
  have n: "firmware g ! i = lmdfu_prefix f ! i" if "i < 8" for i
    using that by (auto simp: assms(1) dfu_image_def Let_def p nth_append)
  have "8 \<le> length (firmware g)" by (simp add: assms(1) length_dfu_image p)
  then show ?thesis
    using assms(2,3) low_bytes [of a] n [of 0] n [of 1] n [of 2] n [of 3]
    by (simp add: probe_prefix_def Let_def lmdfu_prefix_def assms(5) kib_div and_ff)
qed

section \<open>What is loaded\<close>

lemma probe_prefix_result:
  assumes "probe_prefix f = (r, h)" and "size_prefix f = 0"
  shows "firmware h = firmware f \<and> size_total h = size_total f \<and> size_suffix h = size_suffix f \<and>
    size_prefix h \<in> {0, 8, 16} \<and> idVendor h = idVendor f \<and> idProduct h = idProduct f \<and>
    (r = 0 \<longrightarrow> size_prefix h + size_suffix h \<le> size_total h)"
  using assms by (auto simp: probe_prefix_def Let_def split: if_splits)

lemma check_prefix_result:
  assumes "check_prefix req f = Inr h" and "size_prefix f = 0"
  shows "firmware h = firmware f \<and> size_total h = size_total f \<and> size_suffix h = size_suffix f \<and>
    size_prefix h \<in> {0, 8, 16} \<and> idVendor h = idVendor f \<and> idProduct h = idProduct f \<and>
    (req = NEEDS_PREFIX \<longrightarrow> size_prefix h \<noteq> 0 \<and> size_prefix h + size_suffix h \<le> size_total h) \<and>
    (req = NO_PREFIX \<longrightarrow> size_prefix h = 0)"
proof -
  obtain r k where p: "probe_prefix f = (r, k)" by fastforce
  with assms(1) have "k = h" by (auto simp: check_prefix_def split: if_splits)
  then show ?thesis
    using probe_prefix_result [OF p assms(2)] assms(1) p by (auto simp: check_prefix_def split: if_splits)
qed

lemma check_suffix_result:
  assumes "check_suffix req f = Inr h" and "size_total f = int (length (firmware f))" and "size_suffix f = 0"
  shows "firmware h = firmware f \<and> size_total h = size_total f \<and> size_prefix h = size_prefix f \<and>
    (if dfu_signed (firmware f) then 16 \<le> size_suffix h \<and> size_suffix h \<le> 255 \<and> size_suffix h \<le> size_total h \<and>
       req \<noteq> NO_SUFFIX
     else size_suffix h = 0 \<and> idVendor h = idVendor f \<and> idProduct h = idProduct f \<and> req \<noteq> NEEDS_SUFFIX)"
proof (cases "dfu_signed (firmware f)")
  case True
  have "uint (drop (length (firmware f) - 16) (firmware f) ! 11) \<le> 255"
    using uint_lt2p [of "drop (length (firmware f) - 16) (firmware f) ! 11"] by simp
  then show ?thesis
    using assms(1) parse_suffix_signed [OF assms(2) True] True
    by (auto simp: check_suffix_def signed_file_def Let_def split: if_splits)
next
  case False
  then show ?thesis
    using assms(1,3) parse_suffix_unsigned [OF assms(2) False] by (auto simp: check_suffix_def split: if_splits)
qed

lemma load_cases:
  assumes "dfu_load_file fs f sreq preq w = Some (Ret h, w')"
  shows "size_total h = int (length (firmware h)) \<and> size_prefix h \<in> {0, 8, 16} \<and>
    (if dfu_signed (firmware h) then 16 \<le> size_suffix h \<and> size_suffix h \<le> 255 \<and> size_suffix h \<le> size_total h
     else size_suffix h = 0 \<and> idVendor h = 0xffff \<and> idProduct h = 0xffff) \<and>
    (file_name f \<noteq> ''-'' \<and> sreq = NEEDS_SUFFIX \<longrightarrow> dfu_signed (firmware h)) \<and>
    (file_name f \<noteq> ''-'' \<and> sreq = NO_SUFFIX \<longrightarrow> \<not> dfu_signed (firmware h)) \<and>
    (preq = NEEDS_PREFIX \<longrightarrow> size_prefix h \<noteq> 0 \<and> size_prefix h + size_suffix h \<le> size_total h) \<and>
    (preq = NO_PREFIX \<longrightarrow> size_prefix h = 0)"
proof -
  let ?s = "if file_name (load_defaults f) = ''-'' then MAYBE_SUFFIX else sreq"
  obtain bs w1 where 1: "load_bytes fs (file_name (load_defaults f)) w = Some (Ret bs, w1)"
    and 2: "(case parse_file ?s preq ((load_defaults f)\<lparr>firmware := bs, size_total := int (length bs)\<rparr>) of
      Inl c \<Rightarrow> exitp c | Inr f \<Rightarrow> retp f) w1 = Some (Ret h, w')"
    using assms unfolding dfu_load_file_def Let_def by (rule bindp_RetE)
  let ?g = "(load_defaults f)\<lparr>firmware := bs, size_total := int (length bs)\<rparr>"
  have "parse_file ?s preq ?g = Inr h"
    by (cases "parse_file ?s preq ?g") (use 2 in \<open>simp_all del: if_split\<close>)
  then obtain k where k: "check_suffix ?s ?g = Inr k" "check_prefix preq k = Inr h"
    by (auto simp: parse_file_def split: sum.splits)
  have z: "size_total ?g = int (length (firmware ?g))" "size_suffix ?g = 0" "size_prefix ?g = 0"
    "idVendor ?g = 0xffff" "idProduct ?g = 0xffff" "file_name (load_defaults f) = file_name f"
    by (simp_all add: load_defaults_def)
  note s = check_suffix_result [OF k(1) z(1,2)]
  have "size_prefix k = 0" using s z(3) by simp
  note p = check_prefix_result [OF k(2) this]
  show ?thesis using s p z by (auto split: if_splits)
qed

text \<open>A file that is not standard input is loaded or the program ends.\<close>

lemma valid_sysp [vcg]: "valid P (sysp f) (\<lambda>_ _. True) E"
  by (simp add: valid_def sysp_def split: prod.split)

lemma valid_exit_if [vcg]: "(b \<Longrightarrow> E c = (\<lambda>_. True)) \<Longrightarrow> (\<not> b \<Longrightarrow> valid P m Q E) \<Longrightarrow> valid P (exit_if b c m) Q E"
  by (simp add: exit_if_def valid_exitp)

lemma parse_file_exits: "parse_file sreq preq f = Inl c \<Longrightarrow> c \<in> {EX_SOFTWARE, EX_IOERR}"
  by (auto simp: parse_file_def check_suffix_def check_prefix_def parse_suffix_def Let_def
      split: sum.splits prod.splits if_splits)

lemma load_valid:
  assumes "file_name f \<noteq> ''-''"
  shows "valid (\<lambda>_. True) (dfu_load_file fs f sreq preq)
    (\<lambda>h _. size_total h = int (length (firmware h)) \<and> 0 \<le> size_suffix h \<and> size_suffix h \<le> size_total h)
    (\<lambda>c _. c \<in> {EX_SOFTWARE, EX_IOERR})"
proof -
  have name: "file_name (load_defaults f) \<noteq> ''-''" using assms by (simp add: load_defaults_def)
  have opt: "valid P (case r of None \<Rightarrow> exitp EX_IOERR | Some bs \<Rightarrow> g bs) Q (\<lambda>c _. c \<in> {EX_SOFTWARE, EX_IOERR})"
    if "\<And>bs. valid P (g bs) Q (\<lambda>c _. c \<in> {EX_SOFTWARE, EX_IOERR})"
    for r and P :: "'a \<Rightarrow> bool" and g :: "u8 list \<Rightarrow> ('a, u8 list) prog" and Q
    using that by (cases r) (simp_all add: vcg)
  have "valid (\<lambda>_. True) (load_bytes fs (file_name (load_defaults f))) (\<lambda>_ _. True)
      (\<lambda>c _. c \<in> {EX_SOFTWARE, EX_IOERR})"
    unfolding load_bytes_def dfu_malloc_def Let_def
    by (simp only: name if_False, intro valid_bindp [OF valid_sysp] valid_exit_if valid_bindp [where R = "\<lambda>_ _. True"] opt)
      (simp_all add: vcg)
  then have v: "valid (\<lambda>_. True) (dfu_load_file fs f sreq preq) (\<lambda>_ _. True) (\<lambda>c _. c \<in> {EX_SOFTWARE, EX_IOERR})"
    unfolding dfu_load_file_def Let_def
    by (rule valid_bindp) (use parse_file_exits in \<open>auto intro!: vcg split: sum.split\<close>)
  show ?thesis
  proof (rule validI)
    fix w h w'
    assume "dfu_load_file fs f sreq preq w = Some (Ret h, w')"
    from load_cases [OF this]
    show "size_total h = int (length (firmware h)) \<and> 0 \<le> size_suffix h \<and> size_suffix h \<le> size_total h"
      by (cases "dfu_signed (firmware h)") simp_all
  qed (use valid_exitD [OF v] valid_undefD [OF v] in blast)+
qed

section \<open>A file system\<close>

text \<open>
  A file system with room for what is written: \<open>cont w\<close> are the files with their contents,
  \<open>hnd w\<close> the open descriptors with their file and position.
\<close>

locale disk =
  fixes fs :: "'w file_os" and cont :: "'w \<Rightarrow> string \<Rightarrow> u8 list option"
    and hnd :: "'w \<Rightarrow> int \<Rightarrow> (string \<times> nat) option"
  assumes disk_create: "fs_open_write fs n w = (f, w') \<Longrightarrow>
      0 \<le> f \<and> cont w' = (cont w)(n \<mapsto> []) \<and> hnd w' = (hnd w)(f \<mapsto> (n, 0))"
    and disk_excl: "cont w n = None \<Longrightarrow> fs_open_excl fs n w = (f, w') \<Longrightarrow>
      0 \<le> f \<and> cont w' = (cont w)(n \<mapsto> []) \<and> hnd w' = (hnd w)(f \<mapsto> (n, 0))"
    and disk_write: "hnd w f = Some (n, length c) \<Longrightarrow> cont w n = Some c \<Longrightarrow> fs_write fs f bs w = (r, w') \<Longrightarrow>
      r = int (length bs) \<and> cont w' = (cont w)(n \<mapsto> c @ bs) \<and> hnd w' = (hnd w)(f \<mapsto> (n, length (c @ bs)))"
    and disk_close: "cont (fs_close fs f w) = cont w"
    and disk_old: "cont w n = Some c \<Longrightarrow> fs_open_read fs n w = (f, w') \<Longrightarrow>
      0 \<le> f \<and> cont w' = cont w \<and> hnd w' = (hnd w)(f \<mapsto> (n, 0))"
    and disk_end: "hnd w f = Some (n, p) \<Longrightarrow> cont w n = Some c \<Longrightarrow> fs_seek_end fs f w = (r, w') \<Longrightarrow>
      r = int (length c) \<and> cont w' = cont w \<and> hnd w' = (hnd w)(f \<mapsto> (n, length c))"
    and disk_start: "hnd w f = Some (n, p) \<Longrightarrow> fs_seek_start fs f w = (r, w') \<Longrightarrow>
      r = 0 \<and> cont w' = cont w \<and> hnd w' = (hnd w)(f \<mapsto> (n, 0))"
    and disk_read: "hnd w f = Some (n, p) \<Longrightarrow> cont w n = Some c \<Longrightarrow> fs_read fs f (int m) w = (got, w') \<Longrightarrow>
      got = Some (take m (drop p c)) \<and> cont w' = cont w"
    and disk_malloc: "fs_malloc fs k w = (ok, w') \<Longrightarrow> ok \<and> cont w' = cont w \<and> hnd w' = hnd w"
begin

text \<open>The file \<open>n\<close> is being written through \<open>f\<close>, to \<open>c\<close> so far, the others are as in \<open>fs0\<close>.\<close>

definition writing :: "(string \<Rightarrow> u8 list option) \<Rightarrow> 'w \<Rightarrow> int \<Rightarrow> string \<Rightarrow> u8 list \<Rightarrow> bool" where
  "writing fs0 w f n c \<longleftrightarrow> hnd w f = Some (n, length c) \<and> cont w = fs0(n \<mapsto> c)"

lemma write_crc:
  assumes "writing fs0 w f n c" and "k = int m" and "m \<le> length buf"
  obtains w' where "dfu_file_write_crc fs f crc buf k w = Some (Ret (crc32_feed crc (take m buf)), w')"
    and "writing fs0 w' f n (c @ take m buf)"
proof -
  obtain r w' where w': "fs_write fs f (take m buf) w = (r, w')" by fastforce
  have h: "hnd w f = Some (n, length c)" "cont w n = Some c" "cont w = fs0(n \<mapsto> c)"
    using assms(1) by (auto simp: writing_def)
  note l = disk_write [OF h(1,2) w']
  show thesis
    using l h(3) assms(2,3)
    by (intro that [of w'])
      (simp_all add: dfu_file_write_crc_def sysp_def bindp_def w' exit_if_def Let_def retp_def writing_def
        min_absorb2)
qed

lemma write_all:
  assumes "writing fs0 w f n c" and "k = int (length bs)"
  shows "\<exists>w'. dfu_file_write_crc fs f crc bs k w = Some (Ret (crc32_feed crc bs), w') \<and>
    writing fs0 w' f n (c @ bs)"
  by (rule write_crc [OF assms le_refl]) auto

lemma store_prefix_writes:
  assumes "writing fs0 w h n []"
  shows "\<exists>w'. store_prefix fs h f DFU_CRC_INIT w = Some (Ret (crc32_feed DFU_CRC_INIT (prefix_bytes f)), w') \<and>
    writing fs0 w' h n (prefix_bytes f)"
proof (cases "file_prefix_type f")
  case ZERO_PREFIX
  then show ?thesis using assms by (simp add: store_prefix_def prefix_bytes_def retp_def)
next
  case LMDFU_PREFIX
  then show ?thesis
    using write_all [OF assms, of 8 "lmdfu_prefix f"] by (simp add: store_prefix_def prefix_bytes_def)
next
  case LPCDFU_UNENCRYPTED_PREFIX
  then show ?thesis
    using write_all [OF assms, of 16 "lpcdfu_prefix f"] by (simp add: store_prefix_def prefix_bytes_def)
qed

lemma store:
  assumes "file_wf f"
  shows "\<exists>w'. dfu_store_file fs f ws wp w = Some (Ret (), w') \<and>
    cont w' = (cont w)(file_name f \<mapsto> dfu_image f ws wp)"
proof -
  obtain h w0 where 0: "fs_open_write fs (file_name f) w = (h, w0)" by fastforce
  have o0: "0 \<le> h" "writing (cont w) w0 h (file_name f) []"
    using disk_create [OF 0] by (auto simp: writing_def)
  let ?p = "if wp then prefix_bytes f else []"
  obtain w1 where 1: "(if wp then store_prefix fs h f DFU_CRC_INIT else retp DFU_CRC_INIT) w0 =
      Some (Ret (crc32_feed DFU_CRC_INIT ?p), w1)" "writing (cont w) w1 h (file_name f) ?p"
    using store_prefix_writes [OF o0(2), of f] o0(2) by (cases wp) (auto simp: retp_def)
  have pl: "size_total f - size_prefix f - size_suffix f = int (length (payload f))"
    using length_payload [OF assms] by simp
  have tk: "take (length (payload f)) (drop (nat (size_prefix f)) (firmware f)) = payload f"
    by (auto simp: payload_def min_def)
  obtain w2 where 2: "dfu_file_write_crc fs h (crc32_feed DFU_CRC_INIT ?p)
      (drop (nat (size_prefix f)) (firmware f)) (size_total f - size_prefix f - size_suffix f) w1 =
      Some (Ret (crc32_feed DFU_CRC_INIT (?p @ payload f)), w2)"
    "writing (cont w) w2 h (file_name f) (?p @ payload f)"
    using write_crc [OF 1(2) pl, of "drop (nat (size_prefix f)) (firmware f)" "crc32_feed DFU_CRC_INIT ?p"]
    unfolding tk foldl_append by (auto simp: payload_def)
  obtain w3 c where 3: "(if ws then store_suffix fs h f (crc32_feed DFU_CRC_INIT (?p @ payload f))
      else retp (crc32_feed DFU_CRC_INIT (?p @ payload f))) w2 = Some (Ret c, w3)"
    "writing (cont w) w3 h (file_name f) (dfu_image f ws wp)"
  proof (cases ws)
    case True
    obtain w4 where 4: "dfu_file_write_crc fs h (crc32_feed DFU_CRC_INIT (?p @ payload f)) (suffix_head f)
        (16 - 4) w2 = Some (Ret (crc32_feed DFU_CRC_INIT (?p @ payload f @ suffix_head f)), w4)"
      "writing (cont w) w4 h (file_name f) (?p @ payload f @ suffix_head f)"
      using write_all [OF 2(2), of "16 - 4" "suffix_head f"] by fastforce
    obtain w5 c where 5: "dfu_file_write_crc fs h (crc32_feed DFU_CRC_INIT (?p @ payload f @ suffix_head f))
        (le32 (crc32_feed DFU_CRC_INIT (?p @ payload f @ suffix_head f))) 4 w4 = Some (Ret c, w5)"
      "writing (cont w) w5 h (file_name f) (dfu_image f ws wp)"
      using write_all [OF 4(2), of 4 "le32 (crc32_feed DFU_CRC_INIT (?p @ payload f @ suffix_head f))"] True
      unfolding dfu_image_def Let_def by fastforce
    show thesis
      by (rule that [OF _ 5(2), of c]) (simp only: True if_True store_suffix_def bindp_ret 4(1) 5(1))
  next
    case False
    then show thesis using 2(2) by (intro that [of _ w2]) (auto simp: retp_def dfu_image_def Let_def)
  qed
  have sp: "(size_prefix f < 0 \<or> int (length (firmware f)) < size_prefix f) = False" "(h < 0) = False"
    using assms o0(1) by (auto simp: file_wf_def)
  have sy: "sysp (fs_open_write fs (file_name f)) w = Some (Ret h, w0)"
    by (simp add: sysp_def 0)
  have "dfu_store_file fs f ws wp w = Some (Ret (), fs_close fs h w3)"
    by (simp only: dfu_store_file_def exit_if_def bindp_ret sy 1(1) 2(1) 3(1) sp if_False modifyp_def)
  moreover have "cont (fs_close fs h w3) = (cont w)(file_name f \<mapsto> dfu_image f ws wp)"
    using 3(2) disk_close by (simp add: writing_def)
  ultimately show ?thesis by blast
qed

lemma load:
  assumes "cont w n = Some bs" and "n \<noteq> ''-''" and "length bs < 2 ^ 31"
  shows "\<exists>w'. load_bytes fs n w = Some (Ret bs, w') \<and> cont w' = cont w"
proof -
  obtain f w1 where 1: "fs_open_read fs n w = (f, w1)" by fastforce
  note o = disk_old [OF assms(1) 1]
  then have h1: "hnd w1 f = Some (n, 0)" "cont w1 n = Some bs" using assms(1) by auto
  obtain z w2 where 2: "fs_seek_end fs f w1 = (z, w2)" by fastforce
  note e = disk_end [OF h1 2]
  then have h2: "hnd w2 f = Some (n, length bs)" by simp
  obtain r w3 where 3: "fs_seek_start fs f w2 = (r, w3)" by fastforce
  note st = disk_start [OF h2 3]
  obtain ok w4 where 4: "fs_malloc fs (int (length bs)) w3 = (ok, w4)" by fastforce
  note m = disk_malloc [OF 4]
  have h4: "hnd w4 f = Some (n, 0)" "cont w4 n = Some bs" using o e st m assms(1) by auto
  obtain got w5 where 5: "fs_read fs f (int (length bs)) w4 = (got, w5)" by fastforce
  note rd = disk_read [OF h4 5]
  have total: "sint (of_nat (length bs) :: u32) = int (length bs)"
    using assms(3) by (simp add: signed_of_nat signed_take_bit_int_eq_self)
  have "load_bytes fs n w = Some (Ret bs, fs_close fs f w5)"
    using assms(2) o e st m rd
    by (simp add: load_bytes_def sysp_def bindp_def exit_if_def 1 2 3 4 5 total dfu_malloc_def
        modifyp_def retp_def Let_def)
  moreover have "cont (fs_close fs f w5) = cont w" using o e st m rd by (simp add: disk_close)
  ultimately show ?thesis by blast
qed

end

text \<open>A disk in memory.\<close>

record mem_disk =
  disk_files :: "string \<Rightarrow> u8 list option"
  disk_open :: "int \<Rightarrow> (string \<times> nat) option"
  disk_next :: nat

definition mem_open :: "string \<Rightarrow> mem_disk \<Rightarrow> int \<times> mem_disk" where
  "mem_open n w = (int (disk_next w), w\<lparr>disk_next := Suc (disk_next w),
     disk_open := (disk_open w)(int (disk_next w) \<mapsto> (n, 0))\<rparr>)"

definition mem_create :: "string \<Rightarrow> mem_disk \<Rightarrow> int \<times> mem_disk" where
  "mem_create n w = mem_open n (w\<lparr>disk_files := (disk_files w)(n \<mapsto> [])\<rparr>)"

definition mem_fs :: "mem_disk file_os" where
  "mem_fs = \<lparr>
     fs_open_read = (\<lambda>n w. if disk_files w n = None then (- 1, w) else mem_open n w),
     fs_open_write = mem_create,
     fs_open_excl = (\<lambda>n w. if disk_files w n = None then mem_create n w else (- 1, w)),
     fs_seek_end = (\<lambda>f w. case disk_open w f of None \<Rightarrow> (- 1, w)
       | Some (n, p) \<Rightarrow> case disk_files w n of None \<Rightarrow> (- 1, w)
         | Some c \<Rightarrow> (int (length c), w\<lparr>disk_open := (disk_open w)(f \<mapsto> (n, length c))\<rparr>)),
     fs_seek_start = (\<lambda>f w. case disk_open w f of None \<Rightarrow> (- 1, w)
       | Some (n, p) \<Rightarrow> (0, w\<lparr>disk_open := (disk_open w)(f \<mapsto> (n, 0))\<rparr>)),
     fs_read = (\<lambda>f k w. case disk_open w f of None \<Rightarrow> (None, w)
       | Some (n, p) \<Rightarrow> case disk_files w n of None \<Rightarrow> (None, w)
         | Some c \<Rightarrow> (Some (take (nat k) (drop p c)),
             w\<lparr>disk_open := (disk_open w)(f \<mapsto> (n, p + length (take (nat k) (drop p c))))\<rparr>)),
     fs_write = (\<lambda>f bs w. case disk_open w f of None \<Rightarrow> (- 1, w)
       | Some (n, p) \<Rightarrow> case disk_files w n of None \<Rightarrow> (- 1, w)
         | Some c \<Rightarrow> (int (length bs), w\<lparr>disk_files := (disk_files w)(n \<mapsto> take p c @ bs @ drop (p + length bs) c),
             disk_open := (disk_open w)(f \<mapsto> (n, p + length bs))\<rparr>)),
     fs_close = (\<lambda>f w. w\<lparr>disk_open := (disk_open w)(f := None)\<rparr>),
     fs_malloc = (\<lambda>_ w. (True, w)),
     fs_fread = (\<lambda>_ w. ([], w))\<rparr>"

interpretation mem: disk mem_fs disk_files disk_open
  by unfold_locales (auto simp: mem_fs_def mem_create_def mem_open_def split: if_splits)

end
