(* ===== verification/Dfu_Load_Lemmas.thy ===== *)
theory Dfu_Load_Lemmas
  imports Dfu_Load Dfu_File_Lemmas
begin

unbundle bit_operations_syntax

text \<open>
  The transfers of dfu_load.c against the protocol: what the loops do with a device that
  keeps a given dialogue, whatever carries the requests.
\<close>

section \<open>Steps\<close>

lemma on_link_ret: "m (link h) = Some (r, s) \<Longrightarrow> on_link m h = Some (r, h\<lparr>link := s\<rparr>)"
  by (simp add: on_link_def)

lemma on_env_ret: "m (env h) = Some (r, w) \<Longrightarrow> on_env m h = Some (r, h\<lparr>env := w\<rparr>)"
  by (simp add: on_env_def)

lemma milli_sleep_ret: "\<exists>h'. milli_sleep e t h = Some (Ret (), h') \<and> link h' = link h"
  by (simp add: milli_sleep_def retp_def on_env_def modifyp_def)

definition slept :: "'w env_os \<Rightarrow> u32 \<Rightarrow> 'w \<Rightarrow> 'w" where
  "slept e t w = (if t = 0 then w else env_sleep e t w)"

lemma milli_sleep_run: "milli_sleep e t h = Some (Ret (), h\<lparr>env := slept e t (env h)\<rparr>)"
  by (simp add: milli_sleep_def retp_def on_env_def modifyp_def slept_def)

lemma dialogue_append: "dialogue c (xs @ ys) S = dialogue c xs (dialogue c ys S)"
  by (induction xs) simp_all

section \<open>Devices that serve requests\<close>

text \<open>
  \<open>served ops qr S s\<close>: in the state \<open>s\<close> below the requests, the request of \<open>qr\<close> has the result
  the response of \<open>qr\<close> stands for, and then \<open>S\<close> holds. Only those of a transfer that goes well
  have a meaning here.
\<close>

fun served :: "'l dfu_ops \<Rightarrow> qda_req \<times> qda_resp \<Rightarrow> ('l \<Rightarrow> bool) \<Rightarrow> 'l \<Rightarrow> bool" where
  "served ops (Get_Status, Status_Resp t a b) S s \<longleftrightarrow> (\<forall>st. \<exists>ret st' u.
     dfu_get_status ops st s = Some (Ret (ret, st'), u) \<and> 0 \<le> ret \<and>
     bState st' = b \<and> bStatus st' = a \<and> bwPollTimeout st' = t \<and> S u)"
| "served ops (Dnload n b, Ack) S s \<longleftrightarrow>
     (\<forall>src. (case src of None \<Rightarrow> b = [] | Some d \<Rightarrow> b = take (length b) d) \<longrightarrow>
       (\<exists>ret u. dfu_download ops (of_nat (length b)) n src s = Some (Ret ret, u) \<and> 0 \<le> ret \<and> S u))"
| "served ops (Upload n k, Upload_Resp b) S s \<longleftrightarrow>
     (\<forall>buf. length buf = unat k \<longrightarrow>
       (\<exists>u. dfu_upload ops k n buf s = Some (Ret (int (length b), mem_write buf 0 b), u) \<and> S u))"
| "served ops _ S s \<longleftrightarrow> False"

primrec serves :: "'l dfu_ops \<Rightarrow> (qda_req \<times> qda_resp) list \<Rightarrow> ('l \<Rightarrow> bool) \<Rightarrow> 'l \<Rightarrow> bool" where
  "serves ops [] S = S"
| "serves ops (qr # qrs) S = served ops qr (serves ops qrs S)"

text \<open>The peer of qda.c serves what it answers, when the data fit the packets.\<close>

fun carried :: "qda_req \<times> qda_resp \<Rightarrow> bool" where
  "carried (Get_Status, Status_Resp t a b) \<longleftrightarrow> True"
| "carried (Dnload n b, Ack) \<longleftrightarrow> length b \<le> 8184"
| "carried (Upload n k, Upload_Resp b) \<longleftrightarrow> length b \<le> unat k"
| "carried _ \<longleftrightarrow> False"

lemma qda_served:
  assumes "ready c (exchanges c (fst qr) (snd qr) S) s" and "carried qr" and "\<And>u. ready c S u \<Longrightarrow> T u"
  shows "served qda_ops qr T s"
  using assms(2,1)
proof (cases qr rule: carried.cases)
  case (1 t a b)
  have "\<exists>u. qda_dfu_getstatus st s = Some (Ret (0, st\<lparr>bState := b, bStatus := a, bwPollTimeout := t\<rparr>), u) \<and> T u" for st
    by (rule getstatus_exchange [of c "Status_Resp t a b" S s st]) (use assms(1,3) 1 in auto)
  then show ?thesis unfolding 1 served.simps qda_ops_simps by fastforce
next
  case (2 n b)
  have "\<exists>u. qda_dfu_download (of_nat (length b)) n src s = Some (Ret (ack_result Ack), u) \<and> T u"
    if "case src of None \<Rightarrow> b = [] | Some d \<Rightarrow> b = take (length b) d" for src
    by (rule download_exchange [of c n b Ack S s src "of_nat (length b)"])
      (use assms 2 that in \<open>auto simp: qda_buf_size_def\<close>)
  then show ?thesis unfolding 2 served.simps qda_ops_simps by (fastforce simp: ack_result_def)
next
  case (3 n k b)
  have l: "length b < 2 ^ 16" using assms(2) unsigned_less [where 'a = nat, of k] by (simp add: 3)
  have "\<exists>u. qda_dfu_upload k n buf s = Some (Ret (upload_result (unat k) buf (Upload_Resp b)), u) \<and> T u"
    if "length buf = unat k" for buf
    by (rule upload_exchange [of c n k "Upload_Resp b" S s buf]) (use assms 3 that l in auto)
  then show ?thesis using assms(2) unfolding 3 served.simps qda_ops_simps by simp
qed simp_all

lemma qda_serves:
  assumes "ready c (dialogue c (qrs @ rest) S) s" and "\<forall>qr \<in> set qrs. carried qr"
  shows "serves qda_ops qrs (ready c (dialogue c rest S)) s"
  using assms
proof (induction qrs arbitrary: s)
  case (Cons qr qrs)
  show ?case
    by (simp, rule qda_served [of c qr "dialogue c (qrs @ rest) S"]) (use Cons in auto)
qed simp

text \<open>A device that reports a status: poll timeout, status and state.\<close>

type_synonym report = "u32 \<times> u8 \<times> u8"

fun status_step :: "report \<Rightarrow> qda_req \<times> qda_resp" where
  "status_step (t, a, b) = (Get_Status, Status_Resp t a b)"

lemma carried_status [simp]: "carried (status_step r)"
  by (cases r rule: status_step.cases) simp

lemma getstatus_step:
  assumes "serves ops (status_step (t, a, b) # qrs) S (link h)"
  obtains ret st' h' where "on_link (dfu_get_status ops st) h = Some (Ret (ret, st'), h')"
    and "0 \<le> ret" and "bState st' = b" and "bStatus st' = a" and "bwPollTimeout st' = t"
    and "serves ops qrs S (link h')" and "env h' = env h"
proof -
  from assms have "\<exists>ret st' u. dfu_get_status ops st (link h) = Some (Ret (ret, st'), u) \<and> 0 \<le> ret \<and>
     bState st' = b \<and> bStatus st' = a \<and> bwPollTimeout st' = t \<and> serves ops qrs S u"
    unfolding serves.simps status_step.simps served.simps by (rule spec)
  then obtain ret st' u where u: "dfu_get_status ops st (link h) = Some (Ret (ret, st'), u)" "0 \<le> ret"
    "bState st' = b" "bStatus st' = a" "bwPollTimeout st' = t" "serves ops qrs S u"
    by blast
  from u(1) have "on_link (dfu_get_status ops st) h = Some (Ret (ret, st'), h\<lparr>link := u\<rparr>)"
    by (rule on_link_ret)
  then show thesis by (rule that) (use u(2-6) in simp_all)
qed

section \<open>Download\<close>

text \<open>The file is sent in consecutive pieces of the transfer size, the last one shorter.\<close>

function chunks :: "nat \<Rightarrow> 'a list \<Rightarrow> 'a list list" where
  "chunks k xs = (if k = 0 \<or> xs = [] then [] else take k xs # chunks k (drop k xs))"
  by auto
termination by (relation "measure (\<lambda>(k, xs). length xs)") auto

declare chunks.simps [simp del]

lemma chunks_Nil [simp]: "chunks k [] = []"
  by (subst chunks.simps) simp

lemma chunks_step: "0 < k \<Longrightarrow> xs \<noteq> [] \<Longrightarrow> chunks k xs = take k xs # chunks k (drop k xs)"
  by (subst chunks.simps) simp

lemma concat_chunks: "0 < k \<Longrightarrow> concat (chunks k xs) = xs"
  by (induction k xs rule: chunks.induct) (subst chunks.simps, auto)

text \<open>
  What a device that takes all blocks does: each block is acknowledged, reported busy any
  number of times, then idle; after the empty block the device may be manifesting.
\<close>

type_synonym taken = "u8 list \<times> report list \<times> u32"

primrec taking :: "u16 \<Rightarrow> taken list \<Rightarrow> (qda_req \<times> qda_resp) list" where
  "taking n [] = []"
| "taking n (x # xs) = (case x of (b, busy, t) \<Rightarrow>
     (Dnload n b, Ack) # map status_step busy @ status_step (t, 0, 5) # taking (n + 1) xs)"

definition busy_report :: "report \<Rightarrow> bool" where
  "busy_report p \<longleftrightarrow> snd (snd p) \<notin> {5, 10}"

definition manifesting :: "report \<Rightarrow> bool" where
  "manifesting p \<longleftrightarrow> snd (snd p) \<in> {6, 7}"

lemma poll_run:
  assumes "serves ops (map status_step ps @ status_step (t, a, b) # qrs) S (link h)"
    and "\<forall>p \<in> set ps. busy_report p" and "\<not> busy_report (t, a, b)"
  shows "\<exists>dst' h'. dnload_poll ops e dst h = Some (Ret dst', h') \<and> bStatus dst' = a \<and> bState dst' = b \<and>
    serves ops qrs S (link h') \<and> env h' = fold (slept e) (map fst ps) (env h)"
  using assms
proof (induction ps arbitrary: dst h)
  case Nil
  then have r: "serves ops (status_step (t, a, b) # qrs) S (link h)" by simp
  obtain ret st h' where h': "on_link (dfu_get_status ops dst) h = Some (Ret (ret, st), h')" "0 \<le> ret"
    "bState st = b" "bStatus st = a" "serves ops qrs S (link h')" "env h' = env h"
    by (rule getstatus_step [OF r])
  then show ?case
    using Nil(3) by (subst dnload_poll.simps) (auto simp: bindp_def retp_def busy_report_def)
next
  case (Cons p ps)
  obtain t1 a1 b1 where p: "p = (t1, a1, b1)" by (metis surj_pair)
  have r: "serves ops (status_step (t1, a1, b1) # (map status_step ps @ status_step (t, a, b) # qrs)) S (link h)"
    using Cons.prems(1) by (simp add: p)
  obtain ret st h1 where h1: "on_link (dfu_get_status ops dst) h = Some (Ret (ret, st), h1)"
    "0 \<le> ret" "bState st = b1" "bStatus st = a1" "bwPollTimeout st = t1"
    "serves ops (map status_step ps @ status_step (t, a, b) # qrs) S (link h1)" "env h1 = env h"
    by (rule getstatus_step [OF r])
  define h2 where "h2 = h1\<lparr>env := slept e t1 (env h1)\<rparr>"
  have h2: "milli_sleep e t1 h1 = Some (Ret (), h2)" "link h2 = link h1" "env h2 = slept e t1 (env h)"
    by (simp_all add: h2_def milli_sleep_run h1(7))
  have "dnload_poll ops e dst h = dnload_poll ops e st h2"
    using Cons.prems(2) h1(1-5) h2(1)
    by (subst dnload_poll.simps) (simp add: p busy_report_def)
  then show ?case
    using Cons.IH [of h2 st] Cons.prems(2,3) h1(6) h2(2,3) by (simp add: p)
qed

lemma dnload_loop_step:
  assumes "m = chunk_size tot sent k" and "sent < tot" and "m \<noteq> 0"
    and "on_link (dfu_download ops (word_of_int m) n (Some (drop (nat sent) (firmware f)))) h = Some (Ret ret, h1)"
    and "0 \<le> ret" and "0 \<le> sent + m" and "dnload_poll ops e dst h1 = Some (Ret dst', h2)" and "bStatus dst' = 0"
  shows "dnload_loop ops e f k tot sent n dst h = dnload_loop ops e f k tot (sent + m) (n + 1) dst' h2"
  using assms(2-8) by (subst dnload_loop.simps) (simp flip: assms(1))

text \<open>One turn of the loop, when the block is acknowledged and taken.\<close>

lemma dnload_turn:
  assumes "serves ops (taking n ((take k (drop sent data), busy, t) # xs) @ qrs) S (link h)"
    and "\<forall>p \<in> set busy. busy_report p" and "0 < k" and "sent < length data"
    and "firmware f = data @ rest"
  shows "\<exists>dst' h'. dnload_loop ops e f (int k) (int (length data)) (int sent) n dst h =
      dnload_loop ops e f (int k) (int (length data)) (int (sent + length (take k (drop sent data)))) (n + 1) dst' h' \<and>
    serves ops (taking (n + 1) xs @ qrs) S (link h') \<and> env h' = fold (slept e) (map fst busy) (env h)"
proof -
  let ?b = "take k (drop sent data)"
  let ?S = "serves ops (map status_step busy @ status_step (t, 0, 5) # (taking (n + 1) xs @ qrs)) S"
  have chunk: "chunk_size (int (length data)) (int sent) (int k) = int (length ?b)"
    using assms(3,4) by (auto simp: chunk_size_def Let_def)
  have nz: "int (length ?b) \<noteq> 0" using assms(3,4) by simp
  have r: "served ops (Dnload n ?b, Ack) ?S (link h)"
    using assms(1) by simp
  have d: "case Some (drop sent (data @ rest)) of None \<Rightarrow> ?b = [] | Some d \<Rightarrow> ?b = take (length ?b) d"
    using assms(4) by (simp add: min_def)
  obtain ret u where u: "dfu_download ops (word_of_int (int (length ?b))) n (Some (drop sent (data @ rest))) (link h) =
      Some (Ret ret, u)" "0 \<le> ret" "?S u"
    using r d by (auto simp only: served.simps of_int_of_nat_eq)
  have bz: "\<not> busy_report (t, 0, 5)" by (simp add: busy_report_def)
  obtain dst' h' where p: "dnload_poll ops e dst (h\<lparr>link := u\<rparr>) = Some (Ret dst', h')" "bStatus dst' = 0"
    "serves ops (taking (n + 1) xs @ qrs) S (link h')" "env h' = fold (slept e) (map fst busy) (env h)"
    using poll_run [of ops busy t 0 5 "taking (n + 1) xs @ qrs" S "h\<lparr>link := u\<rparr>" e dst, OF _ assms(2) bz] u(3)
    by auto
  have l: "on_link (dfu_download ops (word_of_int (int (length ?b))) n (Some (drop sent (data @ rest)))) h =
      Some (Ret ret, h\<lparr>link := u\<rparr>)"
    using u(1) by (simp add: on_link_def)
  have "dnload_loop ops e f (int k) (int (length data)) (int sent) n dst h =
      dnload_loop ops e f (int k) (int (length data)) (int sent + int (length ?b)) (n + 1) dst' h'"
    by (rule dnload_loop_step [OF chunk [symmetric] _ nz _ u(2) _ p(1,2)]) (use l assms(4,5) in simp_all)
  then show ?thesis using p(3,4) by auto
qed

text \<open>The waits while the device is busy with the blocks.\<close>

definition busy_waits :: "taken list \<Rightarrow> u32 list" where
  "busy_waits xs = concat (map (\<lambda>(b, busy, t). map fst busy) xs)"

lemma busy_waits_simps [simp]:
  "busy_waits [] = []" "busy_waits ((b, busy, t) # xs) = map fst busy @ busy_waits xs"
  by (simp_all add: busy_waits_def)

lemma dnload_loop_run:
  assumes "serves ops (taking n xs @ qrs) S (link h)"
    and "\<forall>(b, busy, t) \<in> set xs. \<forall>p \<in> set busy. busy_report p"
    and "map fst xs = chunks k (drop sent data)" and "0 < k" and "sent \<le> length data"
    and "firmware f = data @ rest"
  shows "\<exists>h'. dnload_loop ops e f (int k) (int (length data)) (int sent) n dst h =
      Some (Ret (False, int (length data), n + of_nat (length xs)), h') \<and>
    serves ops qrs S (link h') \<and> env h' = fold (slept e) (busy_waits xs) (env h)"
  using assms(1-3,5)
proof (induction xs arbitrary: n sent dst h)
  case Nil
  then have "sent = length data"
    using assms(4) by (cases "drop sent data = []") (auto simp: chunks_step)
  then show ?case using Nil by (subst dnload_loop.simps) simp
next
  case (Cons x xs)
  obtain b busy t where x: "x = (b, busy, t)" by (metis surj_pair)
  have ne: "drop sent data \<noteq> []" using Cons.prems(3) by auto
  then have lt: "sent < length data" by simp
  have b: "b = take k (drop sent data)" and rest: "map fst xs = chunks k (drop k (drop sent data))"
    using Cons.prems(3) chunks_step [OF assms(4) ne] by (simp_all add: x)
  have r: "serves ops (taking n ((take k (drop sent data), busy, t) # xs) @ qrs) S (link h)"
    using Cons.prems(1) by (simp only: x b)
  have bz: "\<forall>p \<in> set busy. busy_report p" using Cons.prems(2) by (simp add: x)
  obtain dst' h' where 1: "dnload_loop ops e f (int k) (int (length data)) (int sent) n dst h =
      dnload_loop ops e f (int k) (int (length data)) (int (sent + length (take k (drop sent data)))) (n + 1) dst' h'"
    "serves ops (taking (n + 1) xs @ qrs) S (link h')" "env h' = fold (slept e) (map fst busy) (env h)"
    using dnload_turn [OF r bz assms(4) lt assms(6), of e dst] by blast
  have busy: "\<forall>(b, busy, t) \<in> set xs. \<forall>p \<in> set busy. busy_report p"
    using Cons.prems(2) by simp
  have rest': "map fst xs = chunks k (drop (sent + length (take k (drop sent data))) data)"
    using rest by (cases "k \<le> length data - sent") (simp_all add: add.commute)
  have le: "sent + length (take k (drop sent data)) \<le> length data" using lt by simp
  obtain h'' where 2: "dnload_loop ops e f (int k) (int (length data))
      (int (sent + length (take k (drop sent data)))) (n + 1) dst' h' =
      Some (Ret (False, int (length data), n + 1 + of_nat (length xs)), h'')"
    "serves ops qrs S (link h'')" "env h'' = fold (slept e) (busy_waits xs) (env h')"
    using Cons.IH [OF 1(2) busy rest' le, of dst'] by blast
  have "n + 1 + of_nat (length xs) = n + of_nat (length (x # xs))" by simp
  then show ?case using 1(1,3) 2 by (intro exI [of _ h'']) (simp add: x)
qed

text \<open>The waits while it manifests: what it asks for, and a second more after each report.\<close>

definition manifest_waits :: "report list \<Rightarrow> report \<Rightarrow> u32 list" where
  "manifest_waits ms fin = concat (map (\<lambda>p. [fst p, 1000]) ms) @ [fst fin]"

lemma manifest_run:
  assumes "serves ops (map status_step ms @ status_step (t, a, b) # qrs) S (link h)"
    and "\<forall>p \<in> set ms. manifesting p" and "\<not> manifesting (t, a, b)"
  shows "\<exists>h'. dnload_manifest ops e dst h = Some (Ret (), h') \<and> serves ops qrs S (link h') \<and>
    env h' = fold (slept e) (manifest_waits ms (t, a, b)) (env h)"
  using assms
proof (induction ms arbitrary: dst h)
  case Nil
  then have r: "serves ops (status_step (t, a, b) # qrs) S (link h)" by simp
  obtain ret st h1 where h1: "on_link (dfu_get_status ops dst) h = Some (Ret (ret, st), h1)"
    "0 \<le> ret" "bState st = b" "bStatus st = a" "bwPollTimeout st = t" "serves ops qrs S (link h1)" "env h1 = env h"
    by (rule getstatus_step [OF r])
  define h2 where "h2 = h1\<lparr>env := slept e t (env h1)\<rparr>"
  have h2: "milli_sleep e t h1 = Some (Ret (), h2)" "link h2 = link h1" "env h2 = slept e t (env h)"
    by (simp_all add: h2_def milli_sleep_run h1(7))
  have "dnload_manifest ops e dst h = Some (Ret (), h2)"
    using h1(1-5) h2(1) Nil(3) by (subst dnload_manifest.simps) (simp add: manifesting_def retp_def)
  then show ?case using h1(6) h2(2,3) by (simp add: manifest_waits_def)
next
  case (Cons p ms)
  obtain t1 a1 b1 where p: "p = (t1, a1, b1)" by (metis surj_pair)
  have r: "serves ops (status_step (t1, a1, b1) # (map status_step ms @ status_step (t, a, b) # qrs)) S (link h)"
    using Cons.prems(1) by (simp add: p)
  obtain ret st h1 where h1: "on_link (dfu_get_status ops dst) h = Some (Ret (ret, st), h1)"
    "0 \<le> ret" "bState st = b1" "bStatus st = a1" "bwPollTimeout st = t1"
    "serves ops (map status_step ms @ status_step (t, a, b) # qrs) S (link h1)" "env h1 = env h"
    by (rule getstatus_step [OF r])
  define h2 where "h2 = h1\<lparr>env := slept e t1 (env h1)\<rparr>"
  have h2: "milli_sleep e t1 h1 = Some (Ret (), h2)" "link h2 = link h1" "env h2 = slept e t1 (env h)"
    by (simp_all add: h2_def milli_sleep_run h1(7))
  define h3 where "h3 = h2\<lparr>env := slept e 1000 (env h2)\<rparr>"
  have h3: "milli_sleep e 1000 h2 = Some (Ret (), h3)" "link h3 = link h2" "env h3 = slept e 1000 (env h2)"
    by (simp_all add: h3_def milli_sleep_run)
  have "dnload_manifest ops e dst h = dnload_manifest ops e st h3"
    using Cons.prems(2) h1(1-5) h2(1) h3(1)
    by (subst dnload_manifest.simps) (simp add: p manifesting_def)
  then show ?case
    using Cons.IH [of h3 st] Cons.prems(2,3) h1(6) h2(2,3) h3(2,3) by (simp add: manifest_waits_def p)
qed

text \<open>What a device that takes all blocks is asked from the first block to its last report.\<close>

definition download_session :: "taken list \<Rightarrow> report list \<Rightarrow> report \<Rightarrow> (qda_req \<times> qda_resp) list" where
  "download_session xs ms fin =
     taking 0 xs @ (Dnload (of_nat (length xs)) [], Ack) # map status_step ms @ [status_step fin]"

definition download_waits :: "taken list \<Rightarrow> report list \<Rightarrow> report \<Rightarrow> u32 list" where
  "download_waits xs ms fin = busy_waits xs @ manifest_waits ms fin"

lemma dnload_run:
  assumes "serves ops (download_session xs ms fin @ qrs) S (link h)"
    and "\<forall>(b, busy, t) \<in> set xs. \<forall>p \<in> set busy. busy_report p"
    and "map fst xs = chunks k data" and "0 < k" and "firmware f = data @ rest" and "size_total f - size_suffix f = int (length data)"
    and "\<forall>p \<in> set ms. manifesting p" and "\<not> manifesting fin"
  shows "\<exists>h'. dfuload_do_dnload ops e (int k) f h = Some (Ret (int (length data)), h') \<and>
    serves ops qrs S (link h') \<and> env h' = fold (slept e) (download_waits xs ms fin) (env h)"
proof -
  obtain t a b where fin: "fin = (t, a, b)" by (metis surj_pair)
  let ?M = "map status_step ms @ status_step (t, a, b) # qrs"
  have session: "serves ops (taking 0 xs @ ((Dnload (of_nat (length xs)) [], Ack) # ?M)) S (link h)"
    using assms(1) by (simp only: download_session_def fin append_assoc append_Cons append_Nil)
  obtain h1 where 1: "dnload_loop ops e f (int k) (int (length data)) (int 0) 0 dfu_status0 h =
      Some (Ret (False, int (length data), 0 + of_nat (length xs)), h1)"
    "serves ops ((Dnload (of_nat (length xs)) [], Ack) # ?M) S (link h1)"
    "env h1 = fold (slept e) (busy_waits xs) (env h)"
    using dnload_loop_run [OF session assms(2) _ assms(4) _ assms(5), of 0 e dfu_status0] assms(3) by auto
  have r: "served ops (Dnload (of_nat (length xs)) [], Ack) (serves ops ?M S) (link h1)"
    using 1(2) by simp
  have "case None of None \<Rightarrow> [] = ([] :: u8 list) | Some d \<Rightarrow> [] = take (length ([] :: u8 list)) d" by simp
  with r obtain ret u where "dfu_download ops (of_nat (length ([] :: u8 list))) (of_nat (length xs)) None (link h1) = Some (Ret ret, u)"
    and u: "0 \<le> ret" "serves ops ?M S u"
    by (auto simp only: served.simps)
  then have 2: "on_link (dfu_download ops 0 (of_nat (length xs)) None) h1 = Some (Ret ret, h1\<lparr>link := u\<rparr>)"
    by (simp add: on_link_def)
  have "serves ops ?M S (link (h1\<lparr>link := u\<rparr>))" using u(2) by simp
  then obtain h2 where 3: "dnload_manifest ops e dfu_status0 (h1\<lparr>link := u\<rparr>) = Some (Ret (), h2)"
    "serves ops qrs S (link h2)" "env h2 = fold (slept e) (manifest_waits ms fin) (env h1)"
    using manifest_run [OF _ assms(7) assms(8) [unfolded fin], of ops qrs S "h1\<lparr>link := u\<rparr>" e dfu_status0]
    by (auto simp: fin)
  have "dfuload_do_dnload ops e (int k) f h = Some (Ret (int (length data)), h2)"
    using 1(1) 2 3(1) u(1) by (simp add: dfuload_do_dnload_def Let_def assms(6) retp_def)
  then show ?thesis using 3(2,3) 1(3) by (simp add: download_waits_def)
qed

section \<open>Upload\<close>

primrec giving :: "nat \<Rightarrow> u16 \<Rightarrow> u8 list list \<Rightarrow> (qda_req \<times> qda_resp) list" where
  "giving k n [] = []"
| "giving k n (b # bs) = (Upload n (of_nat k), Upload_Resp b) # giving k (n + 1) bs"

context disk
begin

lemma upload_block:
  assumes "served ops (Upload n (of_nat k), Upload_Resp b) S (link h)"
    and "writing fs0 (env h) fd nm d" and "length b \<le> k" and "length buf = k" and "k < 65536"
  obtains h' buf' where
    "on_link (dfu_upload ops (word_of_int (int k)) n buf) h = Some (Ret (int (length b), buf'), h')"
    and "length buf' = k" and "writing fs0 (env h') fd nm d" and "take (length b) buf' = b" and "S (link h')"
proof -
  have k: "unat (of_nat k :: u16) = k" using assms(5) by (simp add: unat_of_nat)
  obtain u where u: "dfu_upload ops (of_nat k) n buf (link h) = Some (Ret (int (length b), mem_write buf 0 b), u)" "S u"
    using assms(1,4) k by (auto simp only: served.simps)
  show thesis
    by (rule that [of "mem_write buf 0 b" "h\<lparr>link := u\<rparr>"])
      (use u assms(2-4) in \<open>auto simp: on_link_def mem_write_def\<close>)
qed

lemma upload_turn:
  assumes "served ops (Upload n (of_nat k), Upload_Resp b) S (link h)"
    and "writing fs0 (env h) fd nm d" and "length b \<le> k" and "length buf = k" and "k < 65536"
    and "int tot + int (length b) < 2 ^ 31" and "env_fs e = fs"
  shows "\<exists>h' buf'. upload_loop ops e (int k) fd (int tot) n buf h =
      (if length b < k then Some (Ret (0, int (tot + length b)), h')
       else upload_loop ops e (int k) fd (int (tot + length b)) (n + 1) buf' h') \<and>
    length buf' = k \<and> S (link h') \<and> writing fs0 (env h') fd nm (d @ b)"
proof -
  obtain h1 buf' where
    1: "on_link (dfu_upload ops (word_of_int (int k)) n buf) h = Some (Ret (int (length b), buf'), h1)"
      "length buf' = k" "writing fs0 (env h1) fd nm d" "take (length b) buf' = b" "S (link h1)"
    by (rule upload_block [OF assms(1-5)])
  obtain w' where w': "dfu_file_write_crc fs fd 0 buf' (int (length b)) (env h1) =
      Some (Ret (crc32_feed 0 (take (length b) buf')), w')" "writing fs0 w' fd nm (d @ take (length b) buf')"
    by (rule write_crc [OF 1(3), of "int (length b)" "length b" buf' 0]) (use 1(2) assms(3) in auto)
  let ?h = "h1\<lparr>env := w'\<rparr>"
  have 2: "on_env (dfu_file_write_crc (env_fs e) fd 0 buf' (int (length b))) h1 = Some (Ret (crc32_feed 0 b), ?h)"
    using w'(1) by (simp add: on_env_def assms(7) 1(4))
  have "upload_loop ops e (int k) fd (int tot) n buf h =
      (if length b < k then Some (Ret (0, int (tot + length b)), ?h)
       else upload_loop ops e (int k) fd (int (tot + length b)) (n + 1) buf' ?h)"
    by (subst upload_loop.simps) (use assms(6) in \<open>simp only: bindp_ret 1 prod.case 2 if_distribR, simp add: retp_def\<close>)
  then show ?thesis
    using 1(2,4,5) w'(2) by (intro exI [of _ ?h] exI [of _ buf']) simp
qed

text \<open>A block that makes the count overflow.\<close>

lemma upload_turn_overflow:
  assumes "served ops (Upload n (of_nat k), Upload_Resp b) S (link h)"
    and "writing fs0 (env h) fd nm d" and "length b \<le> k" and "length buf = k" and "k < 65536"
    and "2 ^ 31 \<le> int tot + int (length b)" and "env_fs e = fs"
  shows "\<exists>h'. upload_loop ops e (int k) fd (int tot) n buf h = Some (Undef, h')"
proof -
  obtain h' buf' where
    1: "on_link (dfu_upload ops (word_of_int (int k)) n buf) h = Some (Ret (int (length b), buf'), h')"
      "length buf' = k" "writing fs0 (env h') fd nm d"
    by (rule upload_block [OF assms(1-5)]) 
  obtain w' where "dfu_file_write_crc fs fd 0 buf' (int (length b)) (env h') =
      Some (Ret (crc32_feed 0 (take (length b) buf')), w')"
    by (rule write_crc [OF 1(3), of "int (length b)" "length b" buf' 0]) (use 1(2) assms(3) in auto)
  then have 2: "on_env (dfu_file_write_crc (env_fs e) fd 0 buf' (int (length b))) h' =
      Some (Ret (crc32_feed 0 (take (length b) buf')), h'\<lparr>env := w'\<rparr>)"
    by (simp add: on_env_def assms(7))
  have "upload_loop ops e (int k) fd (int tot) n buf h = Some (Undef, h'\<lparr>env := w'\<rparr>)"
    by (subst upload_loop.simps) (use assms(6) in \<open>simp only: bindp_ret 1 prod.case 2 if_distribR, simp add: undefp_def\<close>)
  then show ?thesis by blast
qed

lemma upload_loop_run:
  assumes "serves ops (giving k n (bs @ [l]) @ qrs) S (link h)"
    and "writing fs0 (env h) fd nm d" and "\<forall>b \<in> set bs. length b = k" and "length l < k"
    and "length buf = k" and "k < 65536" and "int tot + int (length (concat (bs @ [l]))) < 2 ^ 31"
    and "env_fs e = fs"
  shows "\<exists>h'. upload_loop ops e (int k) fd (int tot) n buf h =
      Some (Ret (0, int (tot + length (concat (bs @ [l])))), h') \<and>
    serves ops qrs S (link h') \<and> writing fs0 (env h') fd nm (d @ concat (bs @ [l]))"
  using assms(1-3,5,7)
proof (induction bs arbitrary: n h d buf tot)
  case Nil
  have "served ops (Upload n (of_nat k), Upload_Resp l) (serves ops qrs S) (link h)"
    using Nil(1) by simp
  from upload_turn [OF this Nil(2) less_imp_le [OF assms(4)] Nil(4) assms(6) _ assms(8), of tot]
  show ?case using Nil(5) assms(4) by auto
next
  case (Cons b bs)
  have r: "served ops (Upload n (of_nat k), Upload_Resp b) (serves ops (giving k (n + 1) (bs @ [l]) @ qrs) S) (link h)"
    using Cons.prems(1) by simp
  have b: "length b = k" "\<forall>b \<in> set bs. length b = k" using Cons.prems(3) by auto
  have small: "int tot + int (length b) < 2 ^ 31" using Cons.prems(5) by simp
  obtain h' buf' where 1: "upload_loop ops e (int k) fd (int tot) n buf h =
      upload_loop ops e (int k) fd (int (tot + length b)) (n + 1) buf' h'" "length buf' = k"
    "serves ops (giving k (n + 1) (bs @ [l]) @ qrs) S (link h')" "writing fs0 (env h') fd nm (d @ b)"
    using upload_turn [OF r Cons.prems(2) eq_imp_le [OF b(1)] Cons.prems(4) assms(6) small assms(8)] b(1) by auto
  have "int (tot + length b) + int (length (concat (bs @ [l]))) < 2 ^ 31" using Cons.prems(5) by simp
  from Cons.IH [OF 1(3,4) b(2) 1(2) this]
  show ?case using 1(1) by (simp add: add.assoc)
qed

lemma upload_run:
  assumes "serves ops (giving k 0 (bs @ [l]) @ qrs) S (link h)"
    and "writing fs0 (env h) fd nm d" and "\<forall>b \<in> set bs. length b = k" and "length l < k"
    and "k < 65536" and "int (length (concat (bs @ [l]))) < 2 ^ 31" and "env_fs e = fs"
  shows "\<exists>h'. dfuload_do_upload ops e (int k) expected fd h =
      Some (if expected \<noteq> 0 \<and> int (length (concat (bs @ [l]))) \<noteq> expected then Exit EX_SOFTWARE else Ret 0, h') \<and>
    serves ops qrs S (link h') \<and> writing fs0 (env h') fd nm (d @ concat (bs @ [l]))"
proof -
  have km: "int k mod 2 ^ 64 = int k" using assms(5) by simp
  obtain ok w where w: "fs_malloc fs (int k) (env h) = (ok, w)" by fastforce
  note m = disk_malloc [OF w]
  have 1: "on_env (dfu_malloc (env_fs e) (int k mod 2 ^ 64)) h = Some (Ret (), h\<lparr>env := w\<rparr>)"
    unfolding km using m by (simp add: on_env_def dfu_malloc_def sysp_def bindp_def w exit_if_def retp_def assms(7))
  have r: "serves ops (giving k 0 (bs @ [l]) @ qrs) S (link (h\<lparr>env := w\<rparr>))" using assms(1) by simp
  have wr: "writing fs0 (env (h\<lparr>env := w\<rparr>)) fd nm d" using assms(2) m by (simp add: writing_def)
  have bl: "length (replicate (nat (int k mod 2 ^ 64)) 0) = k" unfolding km by simp
  obtain h' where 2: "upload_loop ops e (int k) fd (int 0) 0 (replicate (nat (int k mod 2 ^ 64)) 0) (h\<lparr>env := w\<rparr>) =
      Some (Ret (0, int (0 + length (concat (bs @ [l])))), h')"
    "serves ops qrs S (link h')" "writing fs0 (env h') fd nm (d @ concat (bs @ [l]))"
    using upload_loop_run [OF r wr assms(3,4) bl assms(5) _ assms(7), of 0] assms(6) by auto
  have "dfuload_do_upload ops e (int k) expected fd h =
      Some (if expected \<noteq> 0 \<and> int (length (concat (bs @ [l]))) \<noteq> expected then Exit EX_SOFTWARE else Ret 0, h')"
    using 2(1) by (simp only: dfuload_do_upload_def bindp_ret 1 of_nat_0 prod.case add_0)
      (simp add: exitp_def retp_def)
  then show ?thesis using 2(2,3) by blast
qed

end

section \<open>Over the packets of qda.c\<close>

lemma chunk_length: "b \<in> set (chunks k xs) \<Longrightarrow> length b \<le> k"
  by (induction k xs rule: chunks.induct) (subst (asm) (2) chunks.simps, auto split: if_splits)

lemma carried_taking:
  "\<forall>b \<in> fst ` set xs. length b \<le> 8184 \<Longrightarrow> qr \<in> set (taking n xs) \<Longrightarrow> carried qr"
  by (induction xs arbitrary: n) (fastforce split: prod.splits)+

lemma carried_giving:
  "k < 65536 \<Longrightarrow> \<forall>b \<in> set bs. length b \<le> k \<Longrightarrow> qr \<in> set (giving k n bs) \<Longrightarrow> carried qr"
  by (induction bs arbitrary: n) (auto simp: unat_of_nat)

lemma carried_download:
  assumes "map fst xs = chunks k data" and "k \<le> 8184"
  shows "\<forall>qr \<in> set (download_session xs ms fin). carried qr"
proof -
  have "fst ` set xs = set (chunks k data)" using assms(1) by (metis list.set_map)
  then have "\<forall>b \<in> fst ` set xs. length b \<le> 8184" using assms(2) chunk_length by fastforce
  then show ?thesis using carried_taking by (auto simp: download_session_def simp del: status_step.simps)
qed

lemmas qda_serves_download = qda_serves [OF _ carried_download]

context disk
begin

lemma qda_upload_run:
  assumes "ready c (dialogue c (giving k 0 (bs @ [l]) @ qrs) S) (link h)"
    and "writing fs0 (env h) fd nm d" and "\<forall>b \<in> set bs. length b = k" and "length l < k"
    and "k < 65536" and "int (length (concat (bs @ [l]))) < 2 ^ 31" and "env_fs e = fs"
  shows "\<exists>h'. dfuload_do_upload qda_ops e (int k) expected fd h =
      Some (if expected \<noteq> 0 \<and> int (length (concat (bs @ [l]))) \<noteq> expected then Exit EX_SOFTWARE else Ret 0, h') \<and>
    ready c (dialogue c qrs S) (link h') \<and> writing fs0 (env h') fd nm (d @ concat (bs @ [l]))"
proof -
  have "\<forall>b \<in> set (bs @ [l]). length b \<le> k" using assms(3,4) by auto
  then have "\<forall>qr \<in> set (giving k 0 (bs @ [l])). carried qr" using carried_giving [OF assms(5)] by blast
  with assms(1) have "serves qda_ops (giving k 0 (bs @ [l]) @ []) (ready c (dialogue c qrs S)) (link h)"
    by (simp only: append_Nil2) (rule qda_serves)
  from upload_run [OF this assms(2-7), of expected] show ?thesis by simp
qed

end

end
