(* ===== verification/Halting.thy ===== *)
theory Halting
  imports Dfu_Prelude
begin

text \<open>
  Programs that return, and the measure that shows it for loops without a bound of their own.
\<close>

text \<open>
  \<open>halts M P m Q D\<close>: started where \<open>P\<close> holds, \<open>m\<close> returns or ends the program and does not
  increase the measure \<open>M\<close>; where it returns a value, \<open>Q\<close> holds of the value and the state,
  and values in \<open>D\<close> come with a smaller measure. Undefined behaviour is not excluded here:
  that is what \<open>valid\<close> states.
\<close>

definition halts ::
  "('s \<Rightarrow> nat) \<Rightarrow> ('s \<Rightarrow> bool) \<Rightarrow> ('s, 'a) prog \<Rightarrow> ('a \<Rightarrow> 's \<Rightarrow> bool) \<Rightarrow> ('a \<Rightarrow> bool) \<Rightarrow> bool" where
  "halts M P m Q D \<longleftrightarrow> (\<forall>s. P s \<longrightarrow> (\<exists>r t. m s = Some (r, t) \<and> M t \<le> M s \<and>
     (\<forall>a. r = Ret a \<longrightarrow> Q a t \<and> (D a \<longrightarrow> M t < M s))))"

named_theorems halting

lemma haltsI:
  assumes "\<And>s. P s \<Longrightarrow> \<exists>r t. m s = Some (r, t) \<and> M t \<le> M s \<and>
    (\<forall>a. r = Ret a \<longrightarrow> Q a t \<and> (D a \<longrightarrow> M t < M s))"
  shows "halts M P m Q D"
  using assms by (simp add: halts_def)

lemma haltsE:
  assumes "halts M P m Q D" and "P s"
  obtains r t where "m s = Some (r, t)" and "M t \<le> M s" and "\<And>a. r = Ret a \<Longrightarrow> Q a t"
    and "\<And>a. r = Ret a \<Longrightarrow> D a \<Longrightarrow> M t < M s"
  using assms by (auto simp: halts_def)

lemma halts_weaken:
  assumes "halts M P' m Q' D'" and "\<And>s. P s \<Longrightarrow> P' s" and "\<And>a s. Q' a s \<Longrightarrow> Q a s" and "\<And>a. D a \<Longrightarrow> D' a"
  shows "halts M P m Q D"
  using assms by (fastforce simp: halts_def)

text \<open>Without a measure, and below a bound of it.\<close>

abbreviation returns :: "('s \<Rightarrow> bool) \<Rightarrow> ('s, 'a) prog \<Rightarrow> ('a \<Rightarrow> 's \<Rightarrow> bool) \<Rightarrow> bool" where
  "returns P m Q \<equiv> halts (\<lambda>_. 0) P m Q (\<lambda>_. False)"

lemma halts_returns: "halts M P m Q D \<Longrightarrow> returns P m Q"
  by (fastforce simp: halts_def)

lemma halts_below:
  "halts M P m Q D \<Longrightarrow> halts M (\<lambda>s. P s \<and> M s < n) m (\<lambda>a s. Q a s \<and> M s < n) D"
  by (fastforce simp: halts_def)

lemma halts_retp [halting]: "(\<And>s. P s \<Longrightarrow> Q a s) \<Longrightarrow> \<not> D a \<Longrightarrow> halts M P (retp a) Q D"
  by (auto simp: halts_def)

lemma halts_exitp [halting]: "halts M P (exitp c) Q D"
  by (auto simp: halts_def exitp_def)

lemma halts_undefp [halting]: "halts M P undefp Q D"
  by (auto simp: halts_def undefp_def)

lemma halts_getp: "halts M P (getp f) (\<lambda>_. P) (\<lambda>_. False)"
  by (auto simp: halts_def getp_def)

lemma halts_modifyp: "(\<And>s. P s \<Longrightarrow> Q () (f s) \<and> M (f s) \<le> M s) \<Longrightarrow> halts M P (modifyp f) Q (\<lambda>_. False)"
  by (auto simp: halts_def modifyp_def)

lemma halts_if [halting]:
  "(b \<Longrightarrow> halts M P m Q D) \<Longrightarrow> (\<not> b \<Longrightarrow> halts M P n Q D) \<Longrightarrow> halts M P (if b then m else n) Q D"
  by simp

lemma halts_prod [halting]:
  "(\<And>x y. z = (x, y) \<Longrightarrow> halts M P (f x y) Q D) \<Longrightarrow> halts M P (case z of (x, y) \<Rightarrow> f x y) Q D"
  by (cases z) simp

text \<open>In a sequence, either part may decrease the measure.\<close>

lemma halts_bindp:
  assumes "halts M P m R D" and "\<And>a. halts M (R a) (f a) Q E"
  shows "halts M P (bindp m f) Q E"
proof (rule haltsI)
  fix s
  assume "P s"
  with assms(1) obtain r t where 1: "m s = Some (r, t)" "M t \<le> M s" "\<And>a. r = Ret a \<Longrightarrow> R a t"
    by (rule haltsE) blast
  show "\<exists>r t. bindp m f s = Some (r, t) \<and> M t \<le> M s \<and> (\<forall>a. r = Ret a \<longrightarrow> Q a t \<and> (E a \<longrightarrow> M t < M s))"
  proof (cases r)
    case (Ret a)
    with 1(3) have "R a t" by blast
    with assms(2) obtain r' u where "f a t = Some (r', u)" "M u \<le> M t" "\<And>b. r' = Ret b \<Longrightarrow> Q b u"
      "\<And>b. r' = Ret b \<Longrightarrow> E b \<Longrightarrow> M u < M t"
      by (rule haltsE) blast
    then show ?thesis using 1(1,2) Ret by (force simp: bindp_def)
  qed (use 1 in \<open>auto simp: bindp_def\<close>)
qed

text \<open>Below a bound, values in \<open>D\<close> leave the rest with a smaller bound.\<close>

lemma halts_bindp_less:
  assumes "halts M P m R D"
    and "\<And>a. D a \<Longrightarrow> halts M (\<lambda>s. R a s \<and> M s < n) (f a) Q (\<lambda>_. False)"
    and "\<And>a. \<not> D a \<Longrightarrow> halts M (R a) (f a) Q E"
  shows "halts M (\<lambda>s. P s \<and> M s < Suc n) (bindp m f) Q E"
proof (rule haltsI)
  fix s
  assume s: "P s \<and> M s < Suc n"
  then have P: "P s" by blast
  obtain r t where 1: "m s = Some (r, t)" "M t \<le> M s" "\<And>a. r = Ret a \<Longrightarrow> R a t"
    "\<And>a. r = Ret a \<Longrightarrow> D a \<Longrightarrow> M t < M s"
    by (rule haltsE [OF assms(1) P]) blast
  show "\<exists>r t. bindp m f s = Some (r, t) \<and> M t \<le> M s \<and> (\<forall>a. r = Ret a \<longrightarrow> Q a t \<and> (E a \<longrightarrow> M t < M s))"
  proof (cases r)
    case (Ret a)
    note R = 1(3) [OF Ret]
    show ?thesis
    proof (cases "D a")
      case True
      then have less: "M t < M s" using 1(4) Ret by blast
      then have "R a t \<and> M t < n" using R s by simp
      with assms(2) [OF True] obtain r' u where "f a t = Some (r', u)" "M u \<le> M t" "\<And>b. r' = Ret b \<Longrightarrow> Q b u"
        by (rule haltsE) blast
      then show ?thesis using 1(1) Ret less by (force simp: bindp_def)
    next
      case False
      obtain r' u where "f a t = Some (r', u)" "M u \<le> M t" "\<And>b. r' = Ret b \<Longrightarrow> Q b u"
        "\<And>b. r' = Ret b \<Longrightarrow> E b \<Longrightarrow> M u < M t"
        by (rule haltsE [OF assms(3) [OF False] R]) blast
      then show ?thesis using 1(1,2) Ret by (force simp: bindp_def)
    qed
  qed (use 1 in \<open>auto simp: bindp_def\<close>)
qed

text \<open>A loop halts when each turn, up to the next call, decreases the measure.\<close>

lemma halts_loop:
  assumes "\<And>n a. (\<And>b. halts M (\<lambda>s. P s \<and> M s < n) (f b) Q D) \<Longrightarrow> halts M (\<lambda>s. P s \<and> M s < Suc n) (f a) Q D"
  shows "halts M P (f a) Q D"
proof -
  have below: "\<And>b. halts M (\<lambda>s. P s \<and> M s < n) (f b) Q D" for n
  proof (induction n)
    case 0
    then show ?case by (simp add: halts_def)
  next
    case (Suc n)
    show ?case by (rule assms) (rule Suc)
  qed
  show ?thesis
  proof (rule haltsI)
    fix s
    assume "P s"
    then have P: "P s \<and> M s < Suc (M s)" by simp
    show "\<exists>r t. f a s = Some (r, t) \<and> M t \<le> M s \<and> (\<forall>a. r = Ret a \<longrightarrow> Q a t \<and> (D a \<longrightarrow> M t < M s))"
      by (rule haltsE [OF below P]) blast
  qed
qed

end
