(* ===== verification/Qda_Halts.thy ===== *)
theory Qda_Halts
  imports Halting Dfu_Util_Qda
begin

unbundle bit_operations_syntax

text \<open>
  Requests over a transport with finite input. An operation that reports success has read a
  response of another type than its request, so the transport has consumed input: that is
  what bounds the loops of the program, none of which counts its turns.
\<close>

section \<open>XMODEM on a port with finite input\<close>

context finite_port
begin

lemma transmit_left:
  assumes "xmodem_transmit_package p data x = (r, y)"
  shows "left (dev y) \<le> left (dev x)"
proof -
  have "port_inv p (\<lambda>s. left s \<le> left (dev x))"
  proof
    show "left (snd (x_getc p ch s)) \<le> left (dev x)" if "left s \<le> left (dev x)" for s ch
      using that left_getc [of ch s "fst (fst (x_getc p ch s))" "snd (fst (x_getc p ch s))" "snd (x_getc p ch s)"]
      by (auto split: if_splits)
    show "left (x_putc p b s) \<le> left (dev x)" if "left s \<le> left (dev x)" for s b
      using that left_putc order.trans by blast
    show "left (snd (x_set_timeout p ms s)) \<le> left (dev x)" if "left s \<le> left (dev x)" for s ms
      using that left_set_timeout order.trans by blast
  qed
  from port_inv.transmit_inv [OF this assms] show ?thesis by simp
qed

lemma read_pkt_err: "xmodem_read_pkt p e buf off len x = Some ((ERR, buf'), y) \<Longrightarrow> buf' = buf"
  by (auto simp: xmodem_read_pkt_def Let_def split: prod.splits if_splits option.splits)

text \<open>A reception that changes the buffer has read a packet.\<close>

lemma read_rest_complete: "read_rest p i n x = (True, y) \<Longrightarrow> left (dev y) + n \<le> left (dev x)"
proof (induction n arbitrary: i x)
  case (Suc n)
  obtain r b x1 where 1: "xm_getc p (pkt_bytes (pkt_buf x) ! i) x = ((r, b), x1)"
    by (metis surj_pair)
  have r: "\<not> r < 0" "read_rest p (Suc i) n (x1\<lparr>pkt_buf := pkt_poke i b (pkt_buf x1)\<rparr>) = (True, y)"
    using Suc.prems by (auto simp: 1 Let_def split: if_splits)
  show ?case using Suc.IH [OF r(2)] left_xm_getc(2) [OF 1] r(1) by simp
qed simp

lemma read_pkt_changed:
  assumes "xmodem_read_pkt p e buf off len x = Some ((st, buf'), y)" and "buf' \<noteq> buf"
  shows "left (dev y) + pkt_size \<le> left (dev x)"
proof -
  obtain r c x1 where 1: "xm_getc p ERR x = ((r, c), x1)" by (metis surj_pair)
  obtain ok x2 where 2: "read_rest p 1 (pkt_size - 1) x1 = (ok, x2)" by fastforce
  have r: "\<not> r < 0" "c = SOH" "ok" "y = x2"
    using assms by (auto simp: xmodem_read_pkt_def 1 2 [simplified] Let_def split: if_splits option.splits)
  show ?thesis
    using left_xm_getc(2) [OF 1] read_rest_complete [of 1 "pkt_size - 1" x1 x2] 2 r
    by (simp add: pkt_size_def)
qed

lemma receive_loop_left:
  assumes "receive_loop p e cmd nak err cnt buf len x = Some ((v, c, buf'), y)"
  shows "left (dev y) \<le> left (dev x) \<and> (buf' \<noteq> buf \<longrightarrow> left (dev y) + pkt_size \<le> left (dev x))"
proof -
  have "left (dev (snd r)) \<le> left (dev x) \<and> (snd (snd (fst r)) \<noteq> buf \<longrightarrow> left (dev (snd r)) + pkt_size \<le> left (dev x))"
    if "receive_loop p e cmd nak err cnt buf len x = Some r" for r
    using that
  proof (induction rule: receive_loop_induct)
    case (step f e cmd nak err cnt buf len x r)
    obtain st b z where 1: "xmodem_read_pkt p e buf cnt len (xm_putc p cmd x) = Some ((st, b), z)"
      and le: "left (dev z) \<le> left (dev (xm_putc p cmd x))"
      using read_pkt_returns by blast
    have z: "left (dev z) \<le> left (dev x)" "b \<noteq> buf \<longrightarrow> left (dev z) + pkt_size \<le> left (dev x)"
      using le read_pkt_changed [OF 1] left_xm_putc [of cmd x] by auto
    have "left (dev (snd r)) \<le> left (dev z) \<and>
        (snd (snd (fst r)) \<noteq> b \<longrightarrow> left (dev (snd r)) + pkt_size \<le> left (dev z))" if "err < 5"
      using step(2) step(1) that by (auto simp: 1 split: if_splits)
    then show ?case using z step(2) by (cases "err < 5") force+
  qed
  from this [OF assms] show ?thesis by simp
qed

lemma receive_left:
  "\<exists>r buf' y. xmodem_receive_package p buf x = Some ((r, buf'), y) \<and> left (dev y) \<le> left (dev x) \<and>
     (buf' \<noteq> buf \<longrightarrow> left (dev y) + pkt_size \<le> left (dev x))"
proof -
  obtain r y where 1: "xmodem_receive_package p buf x = Some (r, y)" using receive_returns by blast
  obtain v buf' where r: "r = (v, buf')" by fastforce
  obtain c z where z: "receive_loop p 1 char_C char_C 0 0 buf (length buf) (xm_set_timeout p TIMEOUT_STD x) =
      Some ((v, c, buf'), z)" "y = xm_putc p c z"
    using 1 by (auto simp: xmodem_receive_package_def r split: option.splits)
  show ?thesis
    using receive_loop_left [OF z(1)] left_xm_putc [of c z] left_xm_set_timeout [of TIMEOUT_STD x] 1
    by (auto simp: r z(2) intro: order.trans le_less_trans)
qed

end

section \<open>The operations of qda.c\<close>

text \<open>\<open>\<mu>\<close> measures the input that is left.\<close>

locale qda_finite = qda_transport c I for c :: "'s qda_conf" and I +
  fixes \<mu> :: "'s \<Rightarrow> nat"
  assumes send_returns: "I d \<Longrightarrow> \<exists>rc d'. conf_send c bs d = Some (rc, d') \<and> \<mu> d' \<le> \<mu> d"
    and receive_returns: "I d \<Longrightarrow> \<exists>n buf' d'. conf_receive c buf d = Some ((n, buf'), d') \<and>
      \<mu> d' \<le> \<mu> d \<and> (buf' \<noteq> buf \<longrightarrow> \<mu> d' < \<mu> d)"
begin

abbreviation left :: "'s qda \<Rightarrow> nat" where
  "left s \<equiv> \<mu> (io s)"

text \<open>The buffer holds a request of type \<open>t\<close>.\<close>

definition typed :: "qda_pkt_type \<Rightarrow> 's qda \<Rightarrow> bool" where
  "typed t s \<longleftrightarrow> qda_ok s \<and> get32 (qda_buf s) 0 = pkt_code t"

lemma halts_put_type: "halts left qda_ok (put_type t) (\<lambda>_. typed t) (\<lambda>_. False)"
  unfolding put_type_def put_at_def
  by (rule halts_modifyp)
    (auto simp: typed_def qda_ok_def qda_buf_size_def mem_write_def intro: get32_le32)

lemma halts_put_at:
  assumes "4 \<le> off" and "off + length bs \<le> qda_buf_size"
  shows "halts left (typed t) (put_at off bs) (\<lambda>_. typed t) (\<lambda>_. False)"
proof -
  have "get32 (mem_write buf off bs) 0 = get32 buf 0" if "length buf = qda_buf_size" for buf
    using assms that by (auto simp: get32_def mem_write_def nth_append qda_buf_size_def)
  then show ?thesis
    unfolding put_at_def
    by (intro halts_modifyp) (use assms in \<open>auto simp: typed_def qda_ok_def qda_buf_size_def\<close>)
qed

lemma halts_send: "halts left (typed t) (qda_send n) (\<lambda>_. typed t) (\<lambda>_. False)"
proof (rule haltsI)
  fix s
  assume t: "typed t s"
  then obtain rc d where 1: "conf_send c (take n (qda_buf s)) (io s) = Some (rc, d)" "\<mu> d \<le> left s"
    using send_returns [of "io s" "take n (qda_buf s)"] by (auto simp: typed_def qda_ok_def)
  then show "\<exists>r u. qda_send n s = Some (r, u) \<and> left u \<le> left s \<and> (\<forall>a. r = Ret a \<longrightarrow> typed t u \<and> (False \<longrightarrow> left u < left s))"
    using t send_inv [OF _ 1(1)] by (auto simp: typed_def qda_ok_def qda_send_def)
qed

text \<open>Receiving a response of another type consumes input.\<close>

lemma receive_typed:
  assumes "typed t s" and "t \<noteq> t'"
  obtains n u where "qda_receive s = Some (Ret n, u)" and "qda_ok u" and "left u \<le> left s"
    and "get32 (qda_buf u) 0 = pkt_code t' \<Longrightarrow> left u < left s"
proof -
  have s: "qda_ok s" "get32 (qda_buf s) 0 = pkt_code t" using assms(1) by (simp_all add: typed_def)
  then obtain n buf' d where 1: "conf_receive c (qda_buf s) (io s) = Some ((n, buf'), d)"
    and le: "\<mu> d \<le> left s" and lt: "buf' \<noteq> qda_buf s \<longrightarrow> \<mu> d < left s"
    using receive_returns [of "io s" "qda_buf s"] by (auto simp: qda_ok_def)
  have r: "qda_receive s = Some (Ret (int n), s\<lparr>qda_buf := buf', io := d\<rparr>)"
    using s(1) 1 by (simp add: qda_receive_def qda_ok_def)
  show thesis
  proof (rule that [OF r])
    show "qda_ok (s\<lparr>qda_buf := buf', io := d\<rparr>)" using s(1) receive_inv [OF _ 1] by (simp add: qda_ok_def)
    show "left (s\<lparr>qda_buf := buf', io := d\<rparr>) < left s"
      if "get32 (qda_buf (s\<lparr>qda_buf := buf', io := d\<rparr>)) 0 = pkt_code t'"
      using that s(2) assms(2) lt by auto
  qed (use le in simp)
qed

lemma halts_transact:
  assumes "t \<noteq> t'" and "\<not> D e" and "\<And>buf. halts left qda_ok (m buf) (\<lambda>_. qda_ok) (\<lambda>_. False)"
  shows "halts left (typed t) (transact n t' e m) (\<lambda>_. qda_ok) D"
proof -
  have tail: "halts left (typed t) (bindp qda_receive (\<lambda>_. bindp (getp qda_buf) (\<lambda>buf.
      fail_if (get32 buf 0 \<noteq> pkt_code t') e (m buf)))) (\<lambda>_. qda_ok) D"
  proof (rule haltsI)
    fix s
    assume "typed t s"
    then obtain k u where u: "qda_receive s = Some (Ret k, u)" "qda_ok u" "left u \<le> left s"
      "get32 (qda_buf u) 0 = pkt_code t' \<Longrightarrow> left u < left s"
      by (rule receive_typed [OF _ assms(1)]) blast
    obtain r v where v: "m (qda_buf u) u = Some (r, v)" "left v \<le> left u" "\<And>a. r = Ret a \<Longrightarrow> qda_ok v"
      by (rule haltsE [OF assms(3) u(2)]) blast
    show "\<exists>r v. bindp qda_receive (\<lambda>_. bindp (getp qda_buf) (\<lambda>buf. fail_if (get32 buf 0 \<noteq> pkt_code t') e (m buf))) s =
        Some (r, v) \<and> left v \<le> left s \<and> (\<forall>a. r = Ret a \<longrightarrow> qda_ok v \<and> (D a \<longrightarrow> left v < left s))"
      using u v assms(2)
      by (cases "get32 (qda_buf u) 0 = pkt_code t'") (auto simp: bindp_def getp_def fail_if_def retp_def)
  qed
  show ?thesis
    unfolding transact_def fail_if_def [of "_ < (0 :: int)"]
    by (rule halts_bindp [OF halts_send], intro halts_if halts_retp tail)
      (use assms(2) in \<open>auto simp: typed_def\<close>)
qed

lemmas halts_request = halts_bindp [OF halts_put_type] halts_bindp [OF halts_put_at] halts_transact
  halts_retp

abbreviation progress :: "('s qda, 'a) prog \<Rightarrow> ('a \<Rightarrow> bool) \<Rightarrow> bool" where
  "progress m D \<equiv> halts left qda_ok m (\<lambda>_. qda_ok) D"

lemma progress_ops:
  "progress (qda_get_dfu_desc dif) (\<lambda>r. 0 \<le> fst r)" "progress (qda_set_alt_setting alt) (\<lambda>r. 0 \<le> r)"
  "progress (qda_dfu_getstatus st) (\<lambda>r. 0 \<le> fst r)" "progress qda_dfu_getstate (\<lambda>r. 0 \<le> r)"
  "progress qda_dfu_abort (\<lambda>r. 0 \<le> r)"
  unfolding qda_get_dfu_desc_def qda_set_alt_setting_def qda_dfu_getstatus_def qda_dfu_getstate_def
    qda_dfu_abort_def
  by (intro halts_request; simp add: qda_buf_size_def)+

lemma progress_download: "progress (qda_dfu_download len n data) (\<lambda>r. 0 \<le> r)"
proof -
  have copy: "halts left (typed QDA_PKT_DFU_DNLOAD_REQ) (if len = 0 then retp () else case data of None \<Rightarrow> undefp
      | Some d \<Rightarrow> if length d < unat len then undefp else put_at 8 (take (unat len) d))
      (\<lambda>_. typed QDA_PKT_DFU_DNLOAD_REQ) (\<lambda>_. False)"
    if "\<not> qda_buf_size - 4 - 4 < unat len"
    using that
    by (auto simp: qda_buf_size_def not_less min_absorb2 split: option.split
        intro!: halting halts_put_at)
  show ?thesis
    unfolding qda_dfu_download_def
    by (intro halts_request halts_if halts_bindp [OF copy] halts_bindp [OF halts_getp])
      (auto simp: qda_buf_size_def typed_def)
qed

lemma progress_upload: "progress (qda_dfu_upload len n data) (\<lambda>r. 0 \<le> fst r)"
  unfolding qda_dfu_upload_def Let_def
  by (intro halts_request) (auto simp: qda_buf_size_def fail_if_def intro!: halting)

lemma progress_init: "halts left (\<lambda>s. length (qda_buf s) = qda_buf_size \<and> I (io s)) (qda_init c) (\<lambda>_. qda_ok) (\<lambda>_. False)"
  unfolding qda_init_def by (intro halts_bindp [OF halts_modifyp] halting) (auto simp: qda_ok_def)

text \<open>A reset and a pulse on the line come once; they need no progress.\<close>

lemma returns_reset: "returns qda_ok qda_reset (\<lambda>_. qda_ok)"
proof -
  have "halts left (typed t) qda_receive (\<lambda>_. qda_ok) (\<lambda>_. False)" for t
  proof (rule haltsI)
    fix s
    assume t: "typed t s"
    obtain t' where "t \<noteq> t'" by (cases t) blast+
    then obtain n u where "qda_receive s = Some (Ret n, u)" "qda_ok u" "left u \<le> left s"
      by (rule receive_typed [OF t])
    then show "\<exists>r u. qda_receive s = Some (r, u) \<and> left u \<le> left s \<and>
        (\<forall>a. r = Ret a \<longrightarrow> qda_ok u \<and> (False \<longrightarrow> left u < left s))" by simp
  qed
  then have "progress qda_reset (\<lambda>_. False)"
    unfolding qda_reset_def fail_if_def
    by (intro halts_bindp [OF halts_put_type] halts_bindp [OF halts_send] halts_bindp [of _ _ qda_receive]
        halts_bindp [OF halts_getp] halting) (auto simp: typed_def)
  then show ?thesis by (rule halts_returns)
qed

lemma returns_detach: "returns qda_ok qda_dfu_detach (\<lambda>_. qda_ok)"
  by (rule haltsI)
    (auto simp: qda_dfu_detach_def qda_ok_def fail_if_def retp_def split: prod.split dest: detach_inv)

end

section \<open>The serial port\<close>

lemma serial_ok_self: "serial_ok (serial_handle (dev x)) (tio_initial (dev x)) x \<longleftrightarrow> xm_wf x"
  by (simp add: serial_ok_def serial_statics_def)

interpretation serial_wf: qda_transport "serial_conf os" xm_wf for os
proof
  fix os :: "'t tty_os" and d d' :: "'t serial xm" and bs rc buf n buf'
  let ?ok = "serial_ok (serial_handle (dev d)) (tio_initial (dev d)) :: 't serial xm \<Rightarrow> bool"
  assume "xm_wf d"
  then have ok: "?ok d" by (simp add: serial_ok_self)
  show "xm_wf d'" if "conf_send (serial_conf os) bs d = Some (rc, d')"
    using serial_tr.send_inv [OF ok that] by (simp add: serial_ok_def)
  show "xm_wf d' \<and> length buf' = length buf \<and> n \<le> length buf"
    if "conf_receive (serial_conf os) buf d = Some ((n, buf'), d')"
    using serial_tr.receive_inv [OF ok that] by (simp add: serial_ok_def)
  show "xm_wf (snd (conf_detach (serial_conf os) d))"
    using serial_tr.detach_inv [OF ok] by (simp add: serial_ok_def)
qed

sublocale line_tty \<subseteq> halt: qda_finite "serial_conf os" xm_wf "\<lambda>x. length (rx (world (dev x)))"
proof
  show "\<exists>rc d'. conf_send (serial_conf os) bs d = Some (rc, d') \<and>
      length (rx (world (dev d'))) \<le> length (rx (world (dev d)))" for d bs
    using finite.transmit_left [of bs d]
    by (cases "xmodem_transmit_package (serial_xport os) bs d")
      (simp add: serial_conf_def util_conf_def dfu_util_qda_send_def)
  show "\<exists>n buf' d'. conf_receive (serial_conf os) buf d = Some ((n, buf'), d') \<and>
      length (rx (world (dev d'))) \<le> length (rx (world (dev d))) \<and>
      (buf' \<noteq> buf \<longrightarrow> length (rx (world (dev d'))) < length (rx (world (dev d))))" for d buf
    using finite.receive_left [of buf d]
    by (fastforce simp: pkt_size_def serial_conf_def util_conf_def dfu_util_qda_receive_def)
qed

end
