(* ===== verification/Serial_Meter.thy ===== *)
theory Serial_Meter
  imports Qda_Halts
begin

unbundle bit_operations_syntax

text \<open>
  The serial port over a terminal of which more is known than that it is one: a property that
  no call changes, or a bound on the bytes that are still to come. The transport of qda.c
  keeps them through whole runs of the program.
\<close>

section \<open>A property that the calls keep\<close>

locale kept_tty = posix_tty os attrs for os :: "'w tty_os" and attrs +
  fixes J :: "'w \<Rightarrow> bool"
  assumes keep_read: "J w \<Longrightarrow> J (snd (os_read os fd ch w))"
    and keep_write: "J w \<Longrightarrow> J (snd (os_write os fd b w))"
    and keep_open: "J w \<Longrightarrow> J (snd (os_open os path w))"
    and keep_isatty: "J w \<Longrightarrow> J (snd (os_isatty os fd w))"
    and keep_getattr: "J w \<Longrightarrow> J (snd (os_tcgetattr os fd t w))"
    and keep_setattr: "J w \<Longrightarrow> J (snd (os_tcsetattr os fd t w))"
    and keep_tiocmget: "J w \<Longrightarrow> J (snd (os_tiocmget os fd m w))"
    and keep_tiocmset: "J w \<Longrightarrow> J (snd (os_tiocmset os fd m w))"
    and keep_usleep: "J w \<Longrightarrow> J (os_usleep os us w)"
    and keep_signal: "J w \<Longrightarrow> J (os_signal os w)"
    and keep_close: "J w \<Longrightarrow> J (snd (os_close os fd w))"

sublocale kept_tty \<subseteq> keep: port_inv "serial_xport os" "\<lambda>s. J (world s)"
proof
  show "J (world (snd (x_getc (serial_xport os) ch s)))" if "J (world s)" for s ch
    using keep_read [OF that, of "serial_handle s" ch]
    by (auto simp: serial_xport_def xmodem_getc_def split: prod.splits)
  show "J (world (x_putc (serial_xport os) b s))" if "J (world s)" for s b
    using keep_write [OF that] by (simp add: serial_xport_def xmodem_putc_def)
  show "J (world (snd (x_set_timeout (serial_xport os) ms s)))" if "J (world s)" for s ms
    using keep_setattr keep_getattr [OF that, of "serial_handle s" termios0]
    by (auto simp: serial_xport_def xmodem_set_timeout_def case_prod_beta)
qed

definition kept_ok :: "('w \<Rightarrow> bool) \<Rightarrow> int \<Rightarrow> termios \<Rightarrow> 'w serial xm \<Rightarrow> bool" where
  "kept_ok J h a x \<longleftrightarrow> serial_ok h a x \<and> J (world (dev x))"

context kept_tty
begin

lemma keep_detach:
  assumes "J (world s)"
  shows "J (world (snd (serial_detach os s)))"
proof -
  obtain r1 m w1 where 1: "os_tiocmget os (serial_handle s) 0 (world s) = ((r1, m), w1)"
    by (metis surj_pair)
  obtain r2 w2 where 2: "os_tiocmset os (serial_handle s) (m OR TIOCM_RTS) w1 = (r2, w2)" by fastforce
  obtain r3 w3 where
    3: "os_tiocmset os (serial_handle s) ((m OR TIOCM_RTS) AND NOT TIOCM_RTS) (os_usleep os 100000 w2) = (r3, w3)"
    by fastforce
  have "J w1" using keep_tiocmget [OF assms, of "serial_handle s" 0] by (simp add: 1)
  moreover from this have "J w2" using keep_tiocmset [of w1 "serial_handle s" "m OR TIOCM_RTS"] by (simp add: 2)
  moreover from this have "J w3"
    using keep_tiocmset [OF keep_usleep, of w2 "serial_handle s" "(m OR TIOCM_RTS) AND NOT TIOCM_RTS" 100000] by (simp add: 3)
  ultimately show ?thesis by (simp add: serial_detach_def Let_def 1 2 3)
qed

lemma keep_serial_open:
  assumes "J (world s)"
  shows "J (world (snd (serial_io_open os path speed s)))"
proof -
  obtain h w1 where 1: "os_open os path (world s) = (h, w1)" by fastforce
  obtain r2 w2 where 2: "os_isatty os h w1 = (r2, w2)" by fastforce
  obtain r3 t w3 where 3: "os_tcgetattr os h (tio_initial s) w2 = ((r3, t), w3)" by (metis surj_pair)
  have w: "J w1" "J w2" "J w3"
    using keep_open [OF assms, of path] keep_isatty [of w1 h] keep_getattr [of w2 h "tio_initial s"]
    by (simp_all add: 1 2 3)
  have "J (snd (os_tcsetattr os h u (os_signal os w3)))" for u
    by (rule keep_setattr [OF keep_signal [OF w(3)]])
  then show ?thesis
    using w keep_signal [OF w(3)]
    by (auto simp: serial_io_open_def Let_def 1 2 3 case_prod_beta split: option.split)
qed

end

sublocale kept_tty \<subseteq> tr: qda_transport "serial_conf os" "kept_ok J h a" for h a
proof
  show "kept_ok J h a d'" if "kept_ok J h a d" "conf_send (serial_conf os) bs d = Some (rc, d')" for d bs rc d'
    using that serial_tr.send_inv [of h a d os bs rc d'] keep.transmit_inv [of bs d rc d']
    by (simp add: kept_ok_def serial_conf_def util_conf_def dfu_util_qda_send_def)
  show "kept_ok J h a d' \<and> length buf' = length buf \<and> n \<le> length buf"
    if d: "kept_ok J h a d" and r: "conf_receive (serial_conf os) buf d = Some ((n, buf'), d')" for d buf n buf' d'
  proof -
    obtain ret where "xmodem_receive_package (serial_xport os) buf d = Some ((ret, buf'), d')"
      using r by (auto simp: serial_conf_def util_conf_def dfu_util_qda_receive_def split: option.splits)
    from keep.receive_inv [OF this] show ?thesis
      using d serial_tr.receive_inv [OF _ r, of h a] by (simp add: kept_ok_def)
  qed
  show "kept_ok J h a (snd (conf_detach (serial_conf os) d))" if "kept_ok J h a d" for d
    using that serial_tr.detach_inv [of h a d os] keep_detach [of "dev d"]
    by (auto simp: kept_ok_def serial_conf_def util_conf_def split: prod.splits)
qed

text \<open>Nothing need be known of a terminal.\<close>

sublocale posix_tty \<subseteq> plain: kept_tty os attrs "\<lambda>_. True"
  by unfold_locales simp_all

section \<open>A bound on what is still to come\<close>

text \<open>
  \<open>left\<close> is the number of bytes the line still delivers, at most: only reading a byte
  changes it, and makes it smaller.
\<close>

locale metered_tty = posix_tty os attrs for os :: "'w tty_os" and attrs +
  fixes left :: "'w \<Rightarrow> nat"
  assumes left_read: "left (snd (os_read os fd ch w)) \<le> left w"
    and left_byte: "os_read os fd ch w = ((1, ch'), w') \<Longrightarrow> left w' < left w"
    and left_write: "left (snd (os_write os fd b w)) \<le> left w"
    and left_open: "left (snd (os_open os path w)) \<le> left w"
    and left_isatty: "left (snd (os_isatty os fd w)) \<le> left w"
    and left_getattr: "left (snd (os_tcgetattr os fd t w)) \<le> left w"
    and left_setattr: "left (snd (os_tcsetattr os fd t w)) \<le> left w"
    and left_tiocmget: "left (snd (os_tiocmget os fd m w)) \<le> left w"
    and left_tiocmset: "left (snd (os_tiocmset os fd m w)) \<le> left w"
    and left_usleep: "left (os_usleep os us w) \<le> left w"
    and left_signal: "left (os_signal os w) \<le> left w"
    and left_close: "left (snd (os_close os fd w)) \<le> left w"

sublocale metered_tty \<subseteq> bounded: kept_tty os attrs "\<lambda>w. left w \<le> n" for n
  by unfold_locales
    (blast intro: order.trans left_read left_write left_open left_isatty left_getattr left_setattr
      left_tiocmget left_tiocmset left_usleep left_signal left_close)+

sublocale metered_tty \<subseteq> meter: finite_port "serial_xport os" "\<lambda>s. left (world s)"
proof
  show "if 0 \<le> r then left (world t) < left (world s) else left (world t) \<le> left (world s)"
    if "x_getc (serial_xport os) ch s = ((r, ch'), t)" for ch s r ch' t
    using that left_read [of "serial_handle s" ch "world s"] left_byte [of "serial_handle s" ch "world s"]
    by (auto simp: serial_xport_def xmodem_getc_def ETIMEDOUT_def EIO_def split: prod.splits if_splits)
  show "left (world (x_putc (serial_xport os) b s)) \<le> left (world s)" for b s
    by (simp add: serial_xport_def xmodem_putc_def left_write)
  show "left (world (snd (x_set_timeout (serial_xport os) ms s))) \<le> left (world s)" for ms s
    using bounded.keep.inv_set_timeout [of s "left (world s)" ms] by simp
qed

text \<open>
  Whatever qda.c takes for a response came in a packet of 133 bytes: the input in packets
  bounds the requests that succeed.
\<close>

sublocale metered_tty \<subseteq> packets:
  qda_finite "serial_conf os" "kept_ok (\<lambda>w. left w \<le> n) h a" "\<lambda>x. left (world (dev x)) div pkt_size" for n h a
proof
  show "\<exists>rc d'. conf_send (serial_conf os) bs d = Some (rc, d') \<and>
      left (world (dev d')) div pkt_size \<le> left (world (dev d)) div pkt_size" for d bs
    using meter.transmit_left [of bs d]
    by (cases "xmodem_transmit_package (serial_xport os) bs d")
      (simp add: serial_conf_def util_conf_def dfu_util_qda_send_def div_le_mono)
  show "\<exists>n buf' d'. conf_receive (serial_conf os) buf d = Some ((n, buf'), d') \<and>
      left (world (dev d')) div pkt_size \<le> left (world (dev d)) div pkt_size \<and>
      (buf' \<noteq> buf \<longrightarrow> left (world (dev d')) div pkt_size < left (world (dev d)) div pkt_size)" for d buf
  proof -
    have less: "k div pkt_size < l div pkt_size" if "k + pkt_size \<le> l" for k l
      using div_le_mono [OF that, of pkt_size] by (simp add: pkt_size_def)
    obtain r buf' y where "xmodem_receive_package (serial_xport os) buf d = Some ((r, buf'), y)"
      "left (world (dev y)) \<le> left (world (dev d))"
      "buf' \<noteq> buf \<longrightarrow> left (world (dev y)) + pkt_size \<le> left (world (dev d))"
      using meter.receive_left [of buf d] by blast
    then show ?thesis
      using less by (auto simp: serial_conf_def util_conf_def dfu_util_qda_receive_def div_le_mono)
  qed
qed

interpretation script_meter: metered_tty script_os tty_attrs "\<lambda>w. length (tty_rx w)"
  by unfold_locales (auto split: if_splits list.splits option.splits)

end
