(* ===== verification/Dfu_Load_Safe.thy ===== *)
theory Dfu_Load_Safe
  imports Dfu_Load_Lemmas Serial_Meter
begin

unbundle bit_operations_syntax

text \<open>
  The transfers of dfu_load.c with any device: over requests that keep to the buffers they are
  given they touch no memory outside their own, keep the state below well formed, and return
  or exit with the values stated. The operations of qda.c are such requests.
\<close>

section \<open>Triples of loops\<close>

text \<open>
  A loop satisfies a triple when its body does, for a recursive call that satisfies it. The
  triple of the recursive call is in the form in which the induction rules of the loops give
  it.
\<close>

definition good :: "('a \<Rightarrow> 's \<Rightarrow> bool) \<Rightarrow> (int \<Rightarrow> 's \<Rightarrow> bool) \<Rightarrow> 'a res \<times> 's \<Rightarrow> bool" where
  "good Q E y \<longleftrightarrow> (case y of (Ret a, t) \<Rightarrow> Q a t | (Exit c, t) \<Rightarrow> E c t | (Undef, t) \<Rightarrow> False)"

lemma valid_good: "valid P m Q E \<longleftrightarrow> (\<forall>s y. P s \<longrightarrow> m s = Some y \<longrightarrow> good Q E y)"
  by (rule iffI; clarsimp simp: valid_def good_def split: option.splits res.splits; fastforce)

lemma good_bindp: "bindp m f s = Some y \<Longrightarrow> valid P (bindp m f) Q E \<Longrightarrow> P s \<Longrightarrow> good Q E y"
  by (simp add: valid_good del: split_paired_All)

lemma good_if:
  "(if b then m else n) s = Some y \<Longrightarrow> valid P (if b then m else n) Q E \<Longrightarrow> P s \<Longrightarrow> good Q E y"
  by (simp add: valid_good del: split_paired_All)

lemma valid_absurd: "(\<And>s. \<not> P s) \<Longrightarrow> valid P m Q E"
  by (simp add: valid_def)

lemma valid_prod [vcg]:
  "(\<And>x y. p = (x, y) \<Longrightarrow> valid P (f x y) Q E) \<Longrightarrow> valid P (case p of (x, y) \<Rightarrow> f x y) Q E"
  by (cases p) simp

lemma valid_on_link:
  assumes "valid P m Q E" and "\<And>h. R h \<Longrightarrow> P (link h)" and "\<And>a h s. R h \<Longrightarrow> Q a s \<Longrightarrow> T a (h\<lparr>link := s\<rparr>)"
    and "\<And>c h s. R h \<Longrightarrow> E c s \<Longrightarrow> F c (h\<lparr>link := s\<rparr>)"
  shows "valid R (on_link m) T F"
  using assms by (fastforce simp: valid_def on_link_def split: option.splits res.splits)

lemma valid_on_env:
  assumes "valid P m Q E" and "\<And>h. R h \<Longrightarrow> P (env h)" and "\<And>a h w. R h \<Longrightarrow> Q a w \<Longrightarrow> T a (h\<lparr>env := w\<rparr>)"
    and "\<And>c h w. R h \<Longrightarrow> E c w \<Longrightarrow> F c (h\<lparr>env := w\<rparr>)"
  shows "valid R (on_env m) T F"
  using assms by (fastforce simp: valid_def on_env_def split: option.splits res.splits)

text \<open>A file as \<open>dfu_load_file\<close> leaves it: the suffix lies within it.\<close>

definition loaded :: "dfu_file \<Rightarrow> bool" where
  "loaded f \<longleftrightarrow> size_total f = int (length (firmware f)) \<and> 0 \<le> size_suffix f \<and> size_suffix f \<le> size_total f"

lemma uint_le_int: "uint w \<le> int m \<longleftrightarrow> unat w \<le> m"
  by (simp only: unat_eq_nat_uint nat_le_iff)

section \<open>The contract of the requests\<close>

text \<open>
  \<open>ok\<close> is an invariant of the state below, \<open>limit\<close> the largest block that can be uploaded.
  Requests return, or do not, but never end the program.
\<close>

abbreviation safely :: "('l \<Rightarrow> bool) \<Rightarrow> ('l, 'a) prog \<Rightarrow> bool" where
  "safely ok m \<equiv> valid ok m (\<lambda>_. ok) (\<lambda>_ _. False)"

abbreviation fits :: "('l \<Rightarrow> bool) \<Rightarrow> ('l, int \<times> u8 list) prog \<Rightarrow> nat \<Rightarrow> bool" where
  "fits ok m k \<equiv> valid ok m (\<lambda>(rc, buf) s. ok s \<and> rc \<le> int k \<and> length buf = k) (\<lambda>_ _. False)"

locale dfu_device =
  fixes ops :: "'l dfu_ops" and ok :: "'l \<Rightarrow> bool" and limit :: nat
  assumes download_ok: "(case src of None \<Rightarrow> len = 0 | Some d \<Rightarrow> unat len \<le> length d) \<Longrightarrow>
      safely ok (dfu_download ops len n src)"
    and upload_ok: "unat len = length buf \<Longrightarrow> length buf \<le> limit \<Longrightarrow>
      fits ok (dfu_upload ops len n buf) (length buf)"
    and get_status_ok: "safely ok (dfu_get_status ops st)"
    and clear_status_ok: "safely ok (dfu_clear_status ops)"
    and abort_ok: "safely ok (dfu_abort ops)"
    and detach_ok: "safely ok (dfu_detach ops)"
    and set_alt_ok: "safely ok (set_interface_alt_setting ops alt)"
    and reset_ok: "safely ok (reset_device ops)"
begin

abbreviation safe :: "('l, 'a) prog \<Rightarrow> bool" where
  "safe m \<equiv> safely ok m"

lemmas safe_requests = get_status_ok clear_status_ok abort_ok detach_ok set_alt_ok reset_ok

abbreviation host_safe :: "('l, 'w) host \<Rightarrow> bool" where
  "host_safe h \<equiv> ok (link h)"

abbreviation exits :: "int \<Rightarrow> int \<Rightarrow> ('l, 'w) host \<Rightarrow> bool" where
  "exits n \<equiv> (\<lambda>d h. d = n \<and> host_safe h)"

lemma safe_on_link: "safe m \<Longrightarrow> valid host_safe (on_link m) (\<lambda>_. host_safe) F"
  by (erule valid_on_link) auto

lemma safe_sleep: "valid host_safe (milli_sleep e t) (\<lambda>_. host_safe) F"
  by (simp add: milli_sleep_def valid_def retp_def on_env_def modifyp_def)

lemma poll_safe: "valid host_safe (dnload_poll ops e dst) (\<lambda>_. host_safe) (exits EX_IOERR)"
proof -
  have "o' = ops \<longrightarrow> host_safe h \<longrightarrow> good (\<lambda>_. host_safe) (exits EX_IOERR) y"
    if run: "dnload_poll o' e dst h = Some y" for o' h y
    apply (rule dnload_poll.raw_induct
        [where P = "\<lambda>o' _ _ h y. o' = ops \<longrightarrow> host_safe h \<longrightarrow> good (\<lambda>_. host_safe) (exits EX_IOERR) y", OF _ run])
    subgoal premises prems for loop o' e dst h y
    proof (intro impI)
      assume o: "o' = ops" and h: "host_safe h"
      have rec: "valid host_safe (loop ops e dst) (\<lambda>_. host_safe) (exits EX_IOERR)" for e dst
        using prems(1) by (simp add: valid_good del: split_paired_All)
      show "good (\<lambda>_. host_safe) (exits EX_IOERR) y"
        by (intro good_bindp [where P = host_safe, OF prems(2) [unfolded o] _ h]
            valid_bindp [OF safe_on_link [OF get_status_ok]] valid_bindp [OF safe_sleep] valid_prod valid_if rec)
          (simp_all add: vcg)
    qed
    done
  then show ?thesis by (simp add: valid_good)
qed

lemma manifest_safe: "valid host_safe (dnload_manifest ops e dst) (\<lambda>_. host_safe) (exits EX_IOERR)"
proof -
  have "o' = ops \<longrightarrow> host_safe h \<longrightarrow> good (\<lambda>_. host_safe) (exits EX_IOERR) y"
    if run: "dnload_manifest o' e dst h = Some y" for o' h y
    apply (rule dnload_manifest.raw_induct
        [where P = "\<lambda>o' _ _ h y. o' = ops \<longrightarrow> host_safe h \<longrightarrow> good (\<lambda>_. host_safe) (exits EX_IOERR) y", OF _ run])
    subgoal premises prems for loop o' e dst h y
    proof (intro impI)
      assume o: "o' = ops" and h: "host_safe h"
      have rec: "valid host_safe (loop ops e dst) (\<lambda>_. host_safe) (exits EX_IOERR)" for e dst
        using prems(1) by (simp add: valid_good del: split_paired_All)
      show "good (\<lambda>_. host_safe) (exits EX_IOERR) y"
        by (intro good_bindp [where P = host_safe, OF prems(2) [unfolded o] _ h]
            valid_bindp [OF safe_on_link [OF get_status_ok]] valid_bindp [OF safe_sleep] valid_prod valid_if rec)
          (simp_all add: vcg)
    qed
    done
  then show ?thesis by (simp add: valid_good)
qed

text \<open>The blocks stay within the file.\<close>

lemma block_safe:
  assumes "0 \<le> sent" and "sent + m \<le> int (length bs)" and "0 \<le> m"
  shows "safe (dfu_download ops (word_of_int m) n (if m \<noteq> 0 then Some (drop (nat sent) bs) else None))"
proof (rule download_ok)
  define u where "u = unat (word_of_int m :: u16)"
  have "int u = m mod 65536" by (simp add: u_def uint_word_of_int)
  then have "int u \<le> m" using assms(3) by (simp add: zmod_le_nonneg_dividend)
  then have "u \<le> length (drop (nat sent) bs)" using assms(1,2) by simp
  then have "unat (word_of_int m :: u16) \<le> length (drop (nat sent) bs)" by (simp only: u_def)
  then show "case (if m \<noteq> 0 then Some (drop (nat sent) bs) else None) of None \<Rightarrow> (word_of_int m :: u16) = 0
      | Some d \<Rightarrow> unat (word_of_int m :: u16) \<le> length d"
    by simp
qed

lemma chunk_bounds: "0 \<le> k \<Longrightarrow> sent < tot \<Longrightarrow> 0 \<le> chunk_size tot sent k \<and> sent + chunk_size tot sent k \<le> tot"
  by (simp add: chunk_size_def Let_def)

lemma dnload_loop_safe:
  assumes "0 \<le> k" and "0 \<le> sent" and "tot \<le> int (length (firmware f))"
  shows "valid host_safe (dnload_loop ops e f k tot sent n dst)
    (\<lambda>(out, sent', n') h. host_safe h \<and> sent \<le> sent' \<and> sent' \<le> max sent tot) (exits EX_IOERR)"
proof -
  let ?Q = "\<lambda>sent tot (out, sent', n') h. host_safe h \<and> sent \<le> sent' \<and> sent' \<le> max sent tot"
  let ?P = "\<lambda>f k tot sent. 0 \<le> k \<and> (0 :: int) \<le> sent \<and> tot \<le> int (length (firmware f))"
  have "o' = ops \<longrightarrow> ?P f k tot sent \<longrightarrow> host_safe h \<longrightarrow> good (?Q sent tot) (exits EX_IOERR) y"
    if run: "dnload_loop o' e f k tot sent n dst h = Some y" for o' h y
    apply (rule dnload_loop.raw_induct
        [where P = "\<lambda>o' _ f k tot sent _ _ h y. o' = ops \<longrightarrow> ?P f k tot sent \<longrightarrow> host_safe h \<longrightarrow> good (?Q sent tot) (exits EX_IOERR) y",
          OF _ run])
    subgoal premises prems for loop o' e f k tot sent n dst h y
    proof (intro impI)
      assume o: "o' = ops" and p: "?P f k tot sent" and h: "host_safe h"
      let ?m = "chunk_size tot sent k"
      have rec: "valid host_safe (loop ops e f k tot (sent + ?m) n dst) (?Q sent tot) (exits EX_IOERR)"
        if "sent < tot" for n dst
      proof -
        have b: "0 \<le> ?m" "sent + ?m \<le> tot" using chunk_bounds p that by auto
        then have "valid host_safe (loop ops e f k tot (sent + ?m) n dst) (?Q (sent + ?m) tot) (exits EX_IOERR)"
          unfolding valid_good using prems(1) [of ops e f k tot "sent + ?m" n dst] p b by auto
        then show ?thesis by (rule valid_weaken) (use b in auto)
      qed
      have bl: "safe (dfu_download ops (word_of_int ?m) n
          (if ?m \<noteq> 0 then Some (drop (nat sent) (firmware f)) else None))" if "sent < tot"
        using chunk_bounds [of k sent tot] p that by (intro block_safe) auto
      show "good (?Q sent tot) (exits EX_IOERR) y"
        by (rule good_if [where P = host_safe, OF prems(2) [unfolded o] _ h],
            intro valid_bindp [OF safe_on_link] valid_bindp [OF poll_safe] valid_if rec bl)
          (use chunk_bounds [of k sent tot] p in \<open>auto simp: vcg intro!: vcg\<close>)
    qed
    done
  then show ?thesis using assms by (simp add: valid_good)
qed

lemma dnload_safe:
  assumes "0 \<le> k" and "loaded f"
  shows "valid host_safe (dfuload_do_dnload ops e k f)
    (\<lambda>n h. host_safe h \<and> 0 \<le> n \<and> n \<le> size_total f - size_suffix f) (exits EX_IOERR)"
proof -
  let ?t = "size_total f - size_suffix f"
  have t: "?t \<le> int (length (firmware f))" "0 \<le> ?t" using assms(2) by (auto simp: loaded_def)
  have end_safe: "valid host_safe (on_link (dfu_download ops 0 n None)) (\<lambda>_. host_safe) (exits EX_IOERR)" for n
    by (rule safe_on_link [OF download_ok]) simp
  have after: "valid (\<lambda>h. host_safe h \<and> 0 \<le> sent \<and> sent \<le> max 0 ?t)
      (if out then retp sent else bindp (on_link (dfu_download ops 0 n None)) (\<lambda>ret.
        if ret < 0 then exitp EX_IOERR else bindp (dnload_manifest ops e dfu_status0) (\<lambda>_. retp sent)))
      (\<lambda>n h. host_safe h \<and> 0 \<le> n \<and> n \<le> ?t) (exits EX_IOERR)" for out sent n
  proof (cases "0 \<le> sent \<and> sent \<le> max 0 ?t")
    case True
    have "valid host_safe (if out then retp sent else bindp (on_link (dfu_download ops 0 n None)) (\<lambda>ret.
        if ret < 0 then exitp EX_IOERR else bindp (dnload_manifest ops e dfu_status0) (\<lambda>_. retp sent)))
      (\<lambda>n h. host_safe h \<and> 0 \<le> n \<and> n \<le> ?t) (exits EX_IOERR)"
      by (intro valid_if valid_bindp [OF end_safe] valid_bindp [OF manifest_safe] vcg) (use True t in auto)
    then show ?thesis by (rule valid_weaken) auto
  qed (rule valid_absurd, blast)
  show ?thesis
    unfolding dfuload_do_dnload_def Let_def
    by (rule valid_bindp [OF dnload_loop_safe [OF assms(1) order_refl t(1)]])
      (use after in \<open>auto intro!: valid_prod\<close>)
qed

definition upload_exits :: "int \<Rightarrow> ('l, 'w) host \<Rightarrow> bool" where
  "upload_exits n h \<longleftrightarrow> n \<in> {EX_SOFTWARE, EX_IOERR} \<and> host_safe h"

end

section \<open>Devices with finitely many bytes to upload\<close>

text \<open>
  \<open>dfuload_do_upload\<close> counts in an \<open>int\<close> what it receives, and the count overflows with a device
  that never ends an upload. \<open>left\<close> bounds what is still to come: each upload that succeeds
  takes the bytes it returns from it.
\<close>

locale dfu_device_finite = dfu_device ops ok limit for ops :: "'l dfu_ops" and ok and limit +
  fixes left :: "'l \<Rightarrow> nat"
  assumes upload_left: "unat len = length buf \<Longrightarrow> length buf \<le> limit \<Longrightarrow> ok s \<Longrightarrow>
      dfu_upload ops len n buf s = Some (Ret (rc, buf'), t) \<Longrightarrow> 0 \<le> rc \<Longrightarrow> left t + nat rc \<le> left s"
begin

text \<open>\<open>tot\<close> bytes were received and the count will not overflow.\<close>

definition room :: "int \<Rightarrow> 'l \<Rightarrow> bool" where
  "room tot s \<longleftrightarrow> ok s \<and> tot + int (left s) < 2 ^ 31"

abbreviation host_room :: "int \<Rightarrow> ('l, 'w) host \<Rightarrow> bool" where
  "host_room tot h \<equiv> room tot (link h)"

lemma upload_block_safe:
  assumes "length buf = k" and "k \<le> limit" and "k < 65536"
  shows "valid (host_room tot) (on_link (dfu_upload ops (word_of_int (int k)) n buf))
    (\<lambda>(rc, buf') h. (if rc < 0 then host_safe h else host_room (tot + rc) h) \<and> rc \<le> int k \<and> length buf' = k) upload_exits"
proof -
  have u: "unat (word_of_int (int k) :: u16) = length buf"
    using assms(1,3) by (simp add: unat_of_nat)
  have l: "length buf \<le> limit" using assms(1,2) by simp
  have "good (\<lambda>(rc, buf') s. (if rc < 0 then ok s else room (tot + rc) s) \<and> rc \<le> int k \<and> length buf' = k) (\<lambda>_ _. False) y"
    if s: "room tot s" and y: "dfu_upload ops (word_of_int (int k)) n buf s = Some y" for s y
  proof -
    have "ok s" using s by (simp add: room_def)
    then have g: "good (\<lambda>(rc, buf') s. ok s \<and> rc \<le> int (length buf) \<and> length buf' = length buf) (\<lambda>_ _. False) y"
      using upload_ok [OF u l, of n] y unfolding valid_good by blast
    then obtain rc buf' t where t: "y = (Ret (rc, buf'), t)" "ok t" "rc \<le> int (length buf)" "length buf' = length buf"
      by (auto simp: good_def split: prod.splits res.splits)
    have "0 \<le> rc \<Longrightarrow> left t + nat rc \<le> left s"
      using upload_left [OF u l \<open>ok s\<close>] y t(1) by blast
    then show ?thesis using t s assms(1) by (auto simp: good_def room_def)
  qed
  then have "valid (room tot) (dfu_upload ops (word_of_int (int k)) n buf)
      (\<lambda>(rc, buf') s. (if rc < 0 then ok s else room (tot + rc) s) \<and> rc \<le> int k \<and> length buf' = k) (\<lambda>_ _. False)"
    unfolding valid_good by blast
  then show ?thesis by (rule valid_on_link) auto
qed

lemma write_crc_safe:
  assumes "0 \<le> n" and "n \<le> int (length buf)" and "0 \<le> tot"
  shows "valid (host_room tot) (on_env (dfu_file_write_crc fs fd crc buf n)) (\<lambda>_. host_room tot) upload_exits"
proof (rule valid_on_env [of "\<lambda>_. True" _ "\<lambda>_ _. True" "\<lambda>c _. c = EX_IOERR"])
  show "valid (\<lambda>_. True) (dfu_file_write_crc fs fd crc buf n) (\<lambda>_ _. True) (\<lambda>c _. c = EX_IOERR)"
    using assms
    by (auto simp: valid_def dfu_file_write_crc_def sysp_def bindp_def exit_if_def Let_def retp_def exitp_def
        split: prod.splits)
qed (auto simp: upload_exits_def room_def)

lemma upload_loop_safe:
  assumes "length buf = k" and "k \<le> limit" and "0 \<le> tot" and "k < 65536"
  shows "valid (host_room tot) (upload_loop ops e (int k) fd tot n buf)
    (\<lambda>(ret, tot') h. host_safe h \<and> ret \<le> 0 \<and> 0 \<le> tot') upload_exits"
proof -
  let ?Q = "\<lambda>(ret, tot') h. host_safe h \<and> ret \<le> 0 \<and> (0 :: int) \<le> tot'"
  have "o' = ops \<longrightarrow> k' = int k \<and> length buf = k \<and> 0 \<le> tot \<longrightarrow> host_room tot h \<longrightarrow> good ?Q upload_exits y"
    if run: "upload_loop o' e k' fd tot n buf h = Some y" for o' k' h y
    apply (rule upload_loop.raw_induct
        [where P = "\<lambda>o' _ k' _ tot _ buf h y. o' = ops \<longrightarrow> k' = int k \<and> length buf = k \<and> 0 \<le> tot \<longrightarrow> host_room tot h \<longrightarrow>
          good ?Q upload_exits y", OF _ run])
    subgoal premises prems for loop o' e k' fd tot n buf h y
    proof (intro impI)
      assume o: "o' = ops" and p: "k' = int k \<and> length buf = k \<and> 0 \<le> tot" and h: "host_room tot h"
      have rec: "valid (host_room tot) (loop ops e k' fd tot n buf) ?Q upload_exits" if "length buf = k" "0 \<le> tot" for tot n buf
        unfolding valid_good using prems(1) [of ops e k' fd tot n buf] p that by auto
      have blk: "valid (host_room tot) (on_link (dfu_upload ops (word_of_int k') n buf))
          (\<lambda>(rc, buf') h. (if rc < 0 then host_safe h else host_room (tot + rc) h) \<and> rc \<le> int k \<and> length buf' = k) upload_exits"
        using upload_block_safe [OF _ assms(2,4), of buf tot n] p by simp
      let ?body = "\<lambda>rc b. if rc < 0 then retp (rc, tot)
           else bindp (on_env (dfu_file_write_crc (env_fs e) fd 0 b rc)) (\<lambda>_.
             if 2 ^ 31 \<le> tot + rc then undefp
             else if tot + rc < 0 then exitp EX_SOFTWARE
             else if rc < k' then retp (0, tot + rc)
             else loop ops e k' fd (tot + rc) (n + 1) b)"
      have body: "valid (\<lambda>h. (if rc < 0 then host_safe h else host_room (tot + rc) h) \<and> rc \<le> int k \<and> length b = k)
          (?body rc b) ?Q upload_exits" for rc b
      proof (cases "rc \<le> int k \<and> length b = k")
        case True
        show ?thesis
        proof (cases "rc < 0")
          case False
          have over: "valid (host_room (tot + rc)) undefp ?Q upload_exits" if "2 ^ 31 \<le> tot + rc"
            by (rule valid_absurd) (use that in \<open>simp add: room_def\<close>)
          have "valid (host_room (tot + rc)) (?body rc b) ?Q upload_exits"
            by (intro valid_if valid_bindp [OF write_crc_safe] over rec vcg)
              (use p True False in \<open>auto simp: room_def\<close>)
          then show ?thesis by (rule valid_weaken) (use False in auto)
        qed (use p True in \<open>auto intro!: valid_retp\<close>)
      qed (rule valid_absurd, blast)
      show "good ?Q upload_exits y"
        by (rule good_bindp [where P = "host_room tot", OF prems(2) [unfolded o] valid_bindp [OF blk] h], rule valid_prod)
          (use body in \<open>simp only: prod.case\<close>)
    qed
    done
  then show ?thesis using assms by (simp add: valid_good)
qed

lemma upload_safe:
  assumes "k \<le> limit" and "k < 65536"
  shows "valid (host_room 0) (dfuload_do_upload ops e (int k) expected fd) (\<lambda>ret h. host_safe h \<and> ret \<le> 0) upload_exits"
proof -
  have km: "int k mod 2 ^ 64 = int k" using assms(2) by simp
  have m: "valid (host_room 0) (on_env (dfu_malloc (env_fs e) (int k))) (\<lambda>_. host_room 0) upload_exits"
    by (rule valid_on_env [of "\<lambda>_. True" _ "\<lambda>_ _. True" "\<lambda>c _. c = EX_SOFTWARE"])
      (auto simp: valid_def dfu_malloc_def sysp_def bindp_def exit_if_def retp_def exitp_def upload_exits_def room_def
        split: prod.splits)
  have r: "valid (\<lambda>h. host_safe h \<and> ret \<le> 0 \<and> 0 \<le> tot)
      (if expected \<noteq> 0 \<and> tot \<noteq> expected then exitp EX_SOFTWARE else retp ret)
      (\<lambda>ret h. host_safe h \<and> ret \<le> 0) upload_exits" for ret tot
    by (intro valid_if vcg) (auto simp: upload_exits_def)
  show ?thesis
    unfolding dfuload_do_upload_def km
    by (intro valid_bindp [OF m] valid_bindp [OF upload_loop_safe [OF _ assms(1) _ assms(2)]] valid_prod)
      (use r in \<open>simp_all only: prod.case length_replicate nat_int order_refl\<close>)
qed

end

section \<open>The operations of qda.c\<close>

context qda_transport
begin

lemma upload_fits:
  assumes "unat len = length buf" and "length buf \<le> 8186"
  shows "fits qda_ok (qda_dfu_upload len n buf) (length buf)"
proof -
  have s: "safe (qda_dfu_upload len n buf)"
    by (rule safe_upload) (use assms in \<open>simp_all add: qda_buf_size_def\<close>)
  have "rc \<le> int (length buf) \<and> length buf' = length buf"
    if "qda_dfu_upload len n buf s = Some (Ret (rc, buf'), t)" for s rc buf' t
    using that assms(1)
    by (auto simp: qda_dfu_upload_def transact_def fail_if_def bindp_eq_Some Let_def mem_write_def mem_read_def
        put_type_def put_at_def getp_def split: if_splits) (simp add: uint_le_int)
  with s show ?thesis
    by (fastforce simp: valid_def split: option.splits res.splits)
qed

end

sublocale qda_transport \<subseteq> device: dfu_device qda_ops qda_ok 8186
  by unfold_locales
    (use upload_fits in \<open>auto intro!: safe_download safe_ops safe_detach\<close>)

context qda_transport
begin

abbreviation host_safe :: "('s qda, 'w) host \<Rightarrow> bool" where
  "host_safe h \<equiv> qda_ok (link h)"

end

text \<open>An upload that succeeds has read a packet, and returns at most 8186 bytes.\<close>

sublocale qda_finite \<subseteq> counted: dfu_device_finite qda_ops qda_ok 8186 "\<lambda>s. 8186 * \<mu> (io s)"
proof
  fix len n :: u16 and buf buf' :: "u8 list" and s t :: "'s qda" and rc :: int
  assume l: "unat len = length buf" "length buf \<le> 8186" and s: "qda_ok s" and rc: "0 \<le> rc"
    and u: "dfu_upload qda_ops len n buf s = Some (Ret (rc, buf'), t)"
  then have run: "qda_dfu_upload len n buf s = Some (Ret (rc, buf'), t)" by simp
  obtain r v where "qda_dfu_upload len n buf s = Some (r, v)" "\<And>a. r = Ret a \<Longrightarrow> 0 \<le> fst a \<Longrightarrow> left v < left s"
    by (rule haltsE [OF progress_upload s]) blast
  then have "left t < left s" using run rc by auto
  moreover have "good (\<lambda>(rc, buf') s. qda_ok s \<and> rc \<le> int (length buf) \<and> length buf' = length buf) (\<lambda>_ _. False)
      (Ret (rc, buf'), t)"
    using upload_fits [OF l, of n] s run unfolding valid_good by blast
  then have "rc \<le> 8186" using l(2) by (simp add: good_def)
  ultimately show "8186 * left t + nat rc \<le> 8186 * left s" by linarith
qed

section \<open>Uploads over the serial port\<close>

text \<open>
  34 million bytes on the line are 255639 packets, and so less than $2^{31}$ bytes uploaded.
\<close>

abbreviation few_left :: "('t \<Rightarrow> nat) \<Rightarrow> ('t serial xm qda, 'w) host \<Rightarrow> bool" where
  "few_left left h \<equiv> left (world (dev (io (link h)))) \<le> 34000000"

context metered_tty
begin

lemma few_ok: "bounded.tr.qda_ok 34000000 h a (link k) \<longleftrightarrow> serial_tr.qda_ok os h a (link k) \<and> few_left left k"
  by (auto simp: bounded.tr.qda_ok_def serial_tr.qda_ok_def kept_ok_def)

lemma few_room:
  "packets.counted.host_room 34000000 h a 0 k \<longleftrightarrow> serial_tr.qda_ok os h a (link k) \<and> few_left left k"
proof -
  have "8186 * int (left w div pkt_size) < 2 ^ 31" if "left w \<le> 34000000" for w
  proof -
    have "left w div pkt_size \<le> 34000000 div pkt_size" using that by (rule div_le_mono)
    then have "int (left w div pkt_size) \<le> 255639" by (simp add: pkt_size_def)
    then show ?thesis by simp
  qed
  then show ?thesis by (auto simp: packets.counted.room_def few_ok)
qed

lemma metered_upload_safe:
  assumes "k \<le> 8186"
  shows "valid (\<lambda>m. serial_tr.qda_ok os h a (link m) \<and> few_left left m)
    (dfuload_do_upload qda_ops e (int k) expected fd)
    (\<lambda>ret m. serial_tr.qda_ok os h a (link m) \<and> few_left left m \<and> ret \<le> 0)
    (\<lambda>c m. c \<in> {EX_SOFTWARE, EX_IOERR} \<and> serial_tr.qda_ok os h a (link m) \<and> few_left left m)"
  using packets.counted.upload_safe [OF assms order.strict_trans1 [OF assms], of 34000000 h a e expected fd]
  unfolding few_room few_ok bounded.tr.device.upload_exits_def by simp

end

end
