(* ===== verification/Dfu_Main_Safe.thy ===== *)
theory Dfu_Main_Safe
  imports Dfu_Main Dfu_Load_Safe
begin

unbundle bit_operations_syntax

text \<open>
  What every run of the main program keeps, stage by stage: the state of qda.c and of the
  serial port stays well formed, no memory outside an object is accessed, and the program
  ends with one of its documented exit codes.
\<close>

section \<open>The transfer size\<close>

text \<open>Signed and unsigned readings of a 32 bit word.\<close>

lemma sint_eq_uint: "uint (x :: u32) < 2 ^ 31 \<Longrightarrow> sint x = uint x"
proof -
  assume "uint x < 2 ^ 31"
  moreover have "- (2 ^ 31) \<le> uint x" by (rule order_trans [OF _ uint_ge_0]) simp
  ultimately show ?thesis by (simp add: sint_uint signed_take_bit_int_eq_self)
qed

lemma sint_nonneg: "0 \<le> sint (x :: u32) \<Longrightarrow> sint x = uint x"
proof -
  assume "0 \<le> sint x"
  moreover have "sint x < 2 ^ 32" using sint_lt [of x] by simp
  ultimately have "take_bit 32 (sint x) = sint x" by (intro take_bit_int_eq_self) simp_all
  then show ?thesis using uint_sint [of x] by simp
qed

lemma sint_ucast: "sint (ucast (a :: u16) :: u32) = uint a" "sint (ucast (b :: u8) :: u32) = uint b"
  using uint_lt2p [of a] uint_lt2p [of b] 
  by (simp_all add: sint_eq_uint unsigned_ucast_eq take_bit_int_eq_self)

lemma uint_ucast_u8: "uint (ucast (b :: u8) :: u32) = uint b"
  using uint_lt2p [of b] by (simp add: unsigned_ucast_eq take_bit_int_eq_self)

lemma unat_ucast_widen: "unat (ucast (a :: u16) :: u32) = unat a" "unat (ucast (b :: u8) :: u32) = unat b"
proof -
  have "uint (ucast (a :: u16) :: u32) = uint a"
    using uint_lt2p [of a] by (simp add: unsigned_ucast_eq take_bit_int_eq_self)
  then show "unat (ucast (a :: u16) :: u32) = unat a" by (simp only: unat_eq_nat_uint)
  show "unat (ucast (b :: u8) :: u32) = unat b" by (simp only: unat_eq_nat_uint uint_ucast_u8)
qed

lemma choose_transfer_size_bounds:
  assumes "choose_transfer_size pg root user = Some n" and "0 < pg" and "pg < 2 ^ 31" and "0 \<le> sint user"
  shows "0 < sint n \<and> sint n \<le> max pg (uint (bMaxPacketSize0 root))"
proof -
  define u where "u = (if user = 0 then ucast (wTransferSize (func_dfu root)) else user)"
  define p where "p = (if pg < sint u then word_of_int pg else u)"
  let ?b = "ucast (bMaxPacketSize0 root) :: u32"
  have nz: "u \<noteq> 0" and n: "n = (if p < ?b then ?b else p)"
    using assms(1) by (auto simp: choose_transfer_size_def Let_def u_def p_def split: if_splits)
  have "0 \<le> sint u" using assms(4) uint_ge_0 by (simp add: u_def sint_ucast)
  then have u: "sint u = uint u" "0 < uint u"
    using nz sint_nonneg [of u] uint_ge_0 [of u] by (simp_all add: order_less_le unsigned_eq_0_iff)
  have "sint (word_of_int pg :: u32) = pg" 
    using assms(2,3) by (simp add: sint_eq_uint uint_word_of_int)
  then have p: "0 < sint p" "sint p \<le> pg" using u assms(2) by (auto simp: p_def)
  have "p < ?b \<Longrightarrow> 0 < sint ?b" using p sint_nonneg [of p]
    by (simp add: word_less_def sint_ucast uint_ucast_u8)
  then show ?thesis using p n by (simp add: sint_ucast le_max_iff_disj)
qed
section \<open>The stages that talk to the device\<close>

context dfu_device
begin

definition exits_in :: "int set \<Rightarrow> int \<Rightarrow> ('l, 'w) host \<Rightarrow> bool" where
  "exits_in C n h \<longleftrightarrow> n \<in> C \<and> host_safe h"

abbreviation stage_safe_in :: "int set \<Rightarrow> (('l, 'w) host, 'a) prog \<Rightarrow> bool" where
  "stage_safe_in C m \<equiv> valid host_safe m (\<lambda>_. host_safe) (exits_in C)"

abbreviation stage_safe :: "(('l, 'w) host, 'a) prog \<Rightarrow> bool" where
  "stage_safe m \<equiv> stage_safe_in {1, EX_SOFTWARE, EX_IOERR} m"

lemma stage_exit: "n \<in> C \<Longrightarrow> stage_safe_in C (exitp n)"
  by (rule valid_exitp) (simp add: exits_in_def)

lemma stage_ret: "stage_safe_in C (retp a)"
  by (rule valid_retp)

lemma stage_link: "safe m \<Longrightarrow> stage_safe_in C (on_link m)"
  by (rule safe_on_link)

lemma stage_env: "valid (\<lambda>_. True) m (\<lambda>_ _. True) (\<lambda>n _. n \<in> C) \<Longrightarrow> stage_safe_in C (on_env m)"
  by (rule valid_on_env [where Q = "\<lambda>_ _. True" and E = "\<lambda>n _. n \<in> C"]) (auto simp: exits_in_def)

lemma stage_bind: "stage_safe_in C m \<Longrightarrow> (\<And>a. stage_safe_in C (f a)) \<Longrightarrow> stage_safe_in C (bindp m f)"
  by (rule valid_bindp)

lemma stage_weaken: "stage_safe_in C m \<Longrightarrow> C \<subseteq> D \<Longrightarrow> stage_safe_in D m"
  by (erule valid_weaken) (auto simp: exits_in_def)

lemmas stage_intros = stage_bind stage_exit stage_ret stage_link safe_sleep valid_prod valid_if

lemma status_again_safe: "stage_safe (status_again ops e st)"
proof -
  have "o' = ops \<longrightarrow> host_safe h \<longrightarrow> good (\<lambda>_. host_safe) (exits_in {1, EX_SOFTWARE, EX_IOERR}) y"
    if run: "status_again o' e st h = Some y" for o' h y
    apply (rule status_again.raw_induct
        [where P = "\<lambda>o' _ _ h y. o' = ops \<longrightarrow> host_safe h \<longrightarrow> good (\<lambda>_. host_safe) (exits_in {1, EX_SOFTWARE, EX_IOERR}) y", OF _ run])
    subgoal premises prems for loop o' e st h y
    proof (intro impI)
      assume o: "o' = ops" and h: "host_safe h"
      have rec: "stage_safe (loop ops e st)" for e st
        using prems(1) by (simp add: valid_good del: split_paired_All)
      show "good (\<lambda>_. host_safe) (exits_in {1, EX_SOFTWARE, EX_IOERR}) y"
        by (intro good_bindp [where P = host_safe, OF prems(2) [unfolded o] _ h] stage_intros safe_requests rec)
          simp_all
    qed
    done
  then show ?thesis by (simp add: valid_good)
qed

lemma check_status_safe: "stage_safe (check_status ops e st)"
  unfolding check_status_def by (intro stage_intros safe_requests) simp_all

lemma detach_stage_safe: "stage_safe_in C (bindp (on_link (dfu_detach ops)) (\<lambda>_. retp ()))"
  by (intro stage_intros safe_requests)

text \<open>
  The transfer, where \<open>C\<close> has also the exit codes of what a build does with DfuSe devices, and
  pages fit a block.
\<close>

lemma transfer_stage_safe:
  assumes "build_ops b = ops" and "\<And>m fd. stage_safe_in C (dfuse_upload b m fd)"
    and "\<And>m f. loaded f \<Longrightarrow> stage_safe_in C (dfuse_dnload b m f)" and "{1, EX_SOFTWARE, EX_IOERR} \<subseteq> C"
    and "main_mode opts = MODE_DOWNLOAD \<longrightarrow> loaded (main_file opts)" and "0 < env_pagesize e"
    and "env_pagesize e \<le> int limit" and "255 \<le> limit" and "limit < 65536" and "0 \<le> sint (transfer_size opts)"
    and up: "\<And>n fd. main_mode opts = MODE_UPLOAD \<Longrightarrow> 0 < n \<Longrightarrow> n \<le> int limit \<Longrightarrow>
      stage_safe_in C (dfuload_do_upload ops e n (expected_size opts) fd)"
  shows "stage_safe_in C (transfer_stage b e opts root v p)"
proof (cases "choose_transfer_size (env_pagesize e) root (transfer_size opts)")
  case None
  then show ?thesis using assms(4) by (simp add: transfer_stage_def stage_exit)
next
  case (Some n)
  have n: "0 < sint n" "sint n \<le> int limit"
    using choose_transfer_size_bounds [OF Some assms(6) _ assms(10)] assms(7-9)
      uint_lt2p [of "bMaxPacketSize0 root"] by auto
  have c: "1 \<in> C" "EX_SOFTWARE \<in> C" "EX_IOERR \<in> C" using assms(4) by auto
  have dn: "stage_safe_in C (dfuload_do_dnload ops e (sint n) (main_file opts))" if "main_mode opts = MODE_DOWNLOAD"
    by (rule valid_weaken [OF dnload_safe]) (use n assms(5) that c in \<open>auto simp: exits_in_def\<close>)
  have sy: "stage_safe_in C (on_env (sysp f))" for f
    by (rule stage_env) (simp add: valid_def sysp_def split: prod.split)
  have md: "stage_safe_in C (on_env (modifyp f))" for f
    by (rule stage_env) (simp add: valid_modifyp)
  have "stage_safe_in C (upload_stage b e opts d (sint n))" if "main_mode opts = MODE_UPLOAD" for d
    unfolding upload_stage_def assms(1) by (intro stage_intros sy up [OF that] md assms(2) c n)
  moreover have "stage_safe_in C (download_stage b e opts root v p d (sint n))"
    if "main_mode opts = MODE_DOWNLOAD" for d v p
    unfolding download_stage_def Let_def assms(1)
    by (intro stage_intros dn assms(3) that c) (use assms(5) that in simp_all)
  ultimately show ?thesis
    using c by (simp add: transfer_stage_def Some Let_def stage_exit detach_stage_safe assms(1) split: mode.split)
qed

end

section \<open>The whole program\<close>

text \<open>
  Before the port is opened: the buffers have their size and the line the attributes \<open>a0\<close>.
  Afterwards \<open>hd\<close> and \<open>a\<close> are the handle and the settings to restore.
\<close>

definition init_ok :: "('t \<Rightarrow> termios) \<Rightarrow> termios \<Rightarrow> ('t, 'w) program \<Rightarrow> bool" where
  "init_ok attrs a0 h \<longleftrightarrow> xm_wf (io (link h)) \<and> length (qda_buf (link h)) = qda_buf_size \<and>
     attrs (world (dev (io (link h)))) = a0"

text \<open>After closing: the settings are restored when the terminal takes them.\<close>

definition line_restored :: "'t tty_os \<Rightarrow> ('t \<Rightarrow> termios) \<Rightarrow> termios \<Rightarrow> ('t, 'w) program \<Rightarrow> bool" where
  "line_restored os attrs a0 h \<longleftrightarrow>
     (\<forall>t w. fst (os_tcsetattr os (serial_handle (dev (io (link h)))) t w) = 0) \<longrightarrow>
       attrs (world (dev (io (link h)))) = a0"

definition exit_codes :: "int set" where
  "exit_codes = {0, 1, 64, 70, 74}"

lemma exit_codes: "0 \<in> exit_codes" "1 \<in> exit_codes" "EX_USAGE \<in> exit_codes" "EX_SOFTWARE \<in> exit_codes"
  "EX_IOERR \<in> exit_codes"
  by (simp_all add: exit_codes_def EX_USAGE_def EX_SOFTWARE_def EX_IOERR_def)

text \<open>The file is loaded before the device is looked for.\<close>

lemma load_stage_keeps:
  assumes "file_name (main_file opts) \<noteq> ''-''" and "\<And>h w. I (h\<lparr>env := w\<rparr>) \<longleftrightarrow> I h"
  shows "valid I (load_stage e opts) (\<lambda>opts' h. I h \<and>
    (\<exists>f v p. opts' = opts\<lparr>main_file := f, match_vendor := v, match_product := p\<rparr> \<and>
       (main_mode opts = MODE_DOWNLOAD \<longrightarrow> loaded f))) (\<lambda>c _. c \<in> exit_codes)"
proof -
  let ?Q = "\<lambda>opts'. \<exists>f v p. opts' = opts\<lparr>main_file := f, match_vendor := v, match_product := p\<rparr> \<and>
       (main_mode opts = MODE_DOWNLOAD \<longrightarrow> loaded f)"
  have l: "valid I (on_env (dfu_load_file (env_fs e) (main_file opts) MAYBE_SUFFIX MAYBE_PREFIX))
      (\<lambda>f h. I h \<and> loaded f) (\<lambda>c _. c \<in> exit_codes)"
    by (rule valid_on_env [OF load_valid [OF assms(1)]]) (use exit_codes assms(2) in \<open>auto simp: loaded_def\<close>)
  have q: "?Q (let o1 = opts\<lparr>main_file := f\<rparr>;
          o2 = (if match_vendor o1 < 0 \<and> idVendor f \<noteq> 0xffff then o1\<lparr>match_vendor := uint (idVendor f)\<rparr> else o1)
        in if match_product o2 < 0 \<and> idProduct f \<noteq> 0xffff then o2\<lparr>match_product := uint (idProduct f)\<rparr> else o2)"
    if "loaded f" for f
    using that
    by (intro exI [of _ f] exI [of _ "if match_vendor opts < 0 \<and> idVendor f \<noteq> 0xffff then uint (idVendor f) else match_vendor opts"]
        exI [of _ "if match_product opts < 0 \<and> idProduct f \<noteq> 0xffff then uint (idProduct f) else match_product opts"])
      (simp add: Let_def)
  show ?thesis
    unfolding load_stage_def Let_def
  proof (intro valid_if vcg, goal_cases)
    case (1 h)
    then show ?case
      by (intro conjI exI [of _ "main_file opts"] exI [of _ "match_vendor opts"] exI [of _ "match_product opts"]) simp_all
  next
    case 2
    show ?case
      by (rule valid_bindp [OF l], rule valid_retp) (use q in \<open>simp add: Let_def\<close>)
  qed
qed

lemma valid_ex: "(\<And>p. A p \<Longrightarrow> valid (P p) m Q E) \<Longrightarrow> valid (\<lambda>h. \<exists>p. A p \<and> P p h) m Q E"
  by (fastforce simp: valid_def)

lemma parse_options_exit: "parse_options args opts = Inl c \<Longrightarrow> c = EX_USAGE"
proof (induction args arbitrary: opts)
  case (Cons x args)
  have "parse_option a b opts = Inl c \<Longrightarrow> c = EX_USAGE" for a b
    by (auto simp: parse_option_def split: prod.splits if_splits)
  with Cons show ?case by (auto split: sum.splits)
qed simp

text \<open>The stages over a terminal whose calls keep \<open>J\<close>.\<close>

context kept_tty
begin

abbreviation port_open :: "int \<Rightarrow> termios \<Rightarrow> ('w, 'e) program \<Rightarrow> bool" where
  "port_open p a \<equiv> \<lambda>h. tr.qda_ok p a (link h)"

abbreviation start_ok :: "termios \<Rightarrow> ('w, 'e) program \<Rightarrow> bool" where
  "start_ok a0 h \<equiv> init_ok attrs a0 h \<and> J (world (dev (io (link h))))"

abbreviation stage_ok :: "int \<Rightarrow> termios \<Rightarrow> (('w, 'e) program, 'a) prog \<Rightarrow> bool" where
  "stage_ok p a m \<equiv> valid (port_open p a) m (\<lambda>_. port_open p a) (\<lambda>c _. c \<in> exit_codes)"

lemma port_stage:
  assumes "valid (port_open p a) m (\<lambda>_. port_open p a) (tr.device.exits_in p a {1, EX_SOFTWARE, EX_IOERR})"
  shows "stage_ok p a m"
  by (rule valid_weaken [OF assms])
    (use exit_codes in \<open>auto simp: tr.device.exits_in_def\<close>)

lemma load_stage_ok:
  assumes "file_name (main_file opts) \<noteq> ''-''"
  shows "valid (start_ok a0) (load_stage e opts)
    (\<lambda>opts' h. start_ok a0 h \<and> (main_mode opts' = MODE_DOWNLOAD \<longrightarrow> loaded (main_file opts')) \<and>
       main_mode opts' = main_mode opts \<and> transfer_size opts' = transfer_size opts) (\<lambda>c _. c \<in> exit_codes)"
  by (rule valid_weaken [OF load_stage_keeps [OF assms, of "start_ok a0"]]) (auto simp: init_ok_def)

lemma open_stage_ok: "valid (start_ok a0) (open_stage os root0 opts) (\<lambda>_ h. \<exists>p \<ge> 0. port_open p a0 h)
    (\<lambda>c _. c \<in> exit_codes)"
proof -
  let ?R = "\<lambda>ret h. 0 \<le> ret \<longrightarrow> port_open ret a0 h"
  note st = tr.device.stage_intros
  have conf: "valid (start_ok a0) (on_link (qda_init (serial_conf os)))
      (\<lambda>_ h. start_ok a0 h \<and> qda_conf (link h) = Some (serial_conf os)) (\<lambda>c _. c \<in> exit_codes)"
    by (simp add: valid_def on_link_def qda_init_def bindp_def modifyp_def retp_def init_ok_def)
  have opn: "valid (\<lambda>h. start_ok a0 h \<and> qda_conf (link h) = Some (serial_conf os))
      (on_port (serial_io_open os path speed)) ?R (\<lambda>c _. c \<in> exit_codes)" for path speed
    using open_saves [of path speed] keep_serial_open [of _ path speed]
    by (fastforce simp: valid_def on_port_def init_ok_def tr.qda_ok_def kept_ok_def serial_ok_def serial_statics_def
        xm_wf_def split: prod.splits)
  have rest: "valid (?R ret) (if ret < 0 then exitp EX_IOERR
      else bindp (on_link qda_dfu_detach) (\<lambda>ret.
        if ret < 0 then exitp EX_IOERR
        else bindp (on_link (qda_get_dfu_desc root)) (\<lambda>(ret, root).
          if ret < 0 then exitp EX_IOERR else retp root))) (\<lambda>_ h. \<exists>p \<ge> 0. port_open p a0 h)
    (\<lambda>c _. c \<in> exit_codes)" for ret root
  proof (cases "ret < 0")
    case True
    then show ?thesis by (simp add: valid_exitp exit_codes)
  next
    case False
    have "stage_ok ret a0 (bindp (on_link qda_dfu_detach) (\<lambda>ret.
        if ret < 0 then exitp EX_IOERR
        else bindp (on_link (qda_get_dfu_desc root)) (\<lambda>(ret, root).
          if ret < 0 then exitp EX_IOERR else retp root)))"
      by (rule port_stage, intro st tr.safe_ops tr.safe_detach) simp_all
    then show ?thesis
      using False by (simp only: if_False) (erule valid_weaken, auto intro!: exI [of _ ret])
  qed
  show ?thesis
    unfolding open_stage_def Let_def
    by (rule valid_bindp [OF conf], rule valid_bindp [OF opn], rule rest)
qed

lemma close_stage_ok:
  assumes "0 \<le> p"
  shows "valid (port_open p a0) (close_stage os opts) (\<lambda>r h. r = 0 \<and> line_restored os attrs a0 h)
    (\<lambda>c _. c \<in> exit_codes)"
proof -
  let ?Q = "line_restored os attrs a0"
  have rs: "stage_ok p a0 (if final_reset opts
       then bindp (on_link qda_reset) (\<lambda>ret.
         if ret < 0 \<and> ret \<noteq> LIBUSB_ERROR_NOT_FOUND then exitp EX_IOERR else retp ())
       else retp ())"
    by (rule port_stage, intro tr.device.stage_intros tr.safe_ops) simp
  have "attrs (world u) = a0"
    if st: "serial_statics p a0 s" and u: "serial_io_close os s = (r, u)"
      and ok: "\<forall>t w. fst (os_tcsetattr os (serial_handle u) t w) = 0" for s r u
  proof -
    obtain r1 w1 where 1: "os_tcsetattr os p a0 (world s) = (r1, w1)" by fastforce
    obtain r2 w2 where 2: "os_close os p w1 = (r2, w2)" by fastforce
    have h: "serial_handle s = p" "tio_initial s = a0" using st by (simp_all add: serial_statics_def)
    have "serial_handle u = p"
      using u h assms by (auto simp: serial_io_close_def 1 2 split: if_splits)
    then have "r1 = 0" using ok 1 by (metis fst_conv)
    then show ?thesis
      using u h assms setattr [OF 1] close_attrs [of p w1] 2
      by (auto simp: serial_io_close_def 1)
  qed
  then have cl: "valid (port_open p a0) (on_port (serial_io_close os)) (\<lambda>_. ?Q) (\<lambda>c _. c \<in> exit_codes)"
    by (fastforce simp: valid_def on_port_def tr.qda_ok_def kept_ok_def serial_ok_def line_restored_def split: prod.splits)
  show ?thesis
    unfolding close_stage_def
    by (rule valid_bindp [OF rs], rule valid_bindp [OF cl], rule valid_retp) simp
qed

text \<open>What the terminal must do for uploads to be safe is left open here.\<close>

definition uploads_safe :: "'e env_os \<Rightarrow> bool" where
  "uploads_safe e \<longleftrightarrow> (\<forall>p a n k fd. 0 < n \<longrightarrow> n \<le> 8186 \<longrightarrow>
     valid (port_open p a) (dfuload_do_upload qda_ops e n k fd) (\<lambda>_. port_open p a)
       (tr.device.exits_in p a {1, EX_SOFTWARE, EX_IOERR}))"

lemma device_stage_ok:
  assumes "0 \<le> p" and "main_mode opts = MODE_DOWNLOAD \<longrightarrow> loaded (main_file opts)"
    and "0 < env_pagesize e" and "env_pagesize e \<le> 8186" and "0 \<le> sint (transfer_size opts)"
    and "main_mode opts = MODE_UPLOAD \<longrightarrow> uploads_safe e"
  shows "valid (port_open p a0) (device_stage os e opts root)
    (\<lambda>r h. r = 0 \<and> line_restored os attrs a0 h) (\<lambda>c _. c \<in> exit_codes)"
proof -
  have select: "stage_ok p a0 (select_stage qda_ops alt)" for alt
    unfolding select_stage_def
    by (rule port_stage, intro tr.device.stage_intros tr.device.safe_requests) simp
  have transfer: "stage_ok p a0 (transfer_stage qda_build e opts root v w)" for v w
    by (rule port_stage, rule tr.device.transfer_stage_safe)
      (use assms in \<open>auto intro: tr.device.stage_exit simp: uploads_safe_def\<close>)
  show ?thesis
    unfolding device_stage_def
    by (rule valid_bindp [OF select], rule valid_bindp [OF port_stage [OF tr.device.status_again_safe]],
        rule valid_bindp [OF port_stage [OF tr.device.check_status_safe]],
        rule valid_bindp [OF transfer], rule close_stage_ok [OF assms(1)])
qed

lemma main_ok:
  assumes "0 < env_pagesize e" and "env_pagesize e \<le> 8186"
    and "\<And>opts. parse_options args options0 = Inr opts \<Longrightarrow> file_name (main_file opts) \<noteq> ''-'' \<and>
      0 \<le> sint (transfer_size opts) \<and> (main_mode opts = MODE_UPLOAD \<longrightarrow> uploads_safe e)"
  shows "valid (start_ok a0) (main os e root0 args) (\<lambda>r h. r = 0 \<and> line_restored os attrs a0 h)
    (\<lambda>c _. c \<in> exit_codes)"
proof (cases "parse_options args options0")
  case (Inl c)
  then show ?thesis using parse_options_exit [OF Inl] by (simp add: main_def valid_exitp exit_codes)
next
  case (Inr opts)
  define o' where "o' = (if match_config_index opts = 0 then opts\<lparr>match_config_index := - 1\<rparr> else opts)"
  have o': "file_name (main_file o') \<noteq> ''-''" "0 \<le> sint (transfer_size o')"
    "main_mode o' = MODE_UPLOAD \<longrightarrow> uploads_safe e"
    using assms(3) [OF Inr] by (simp_all add: o'_def)
  let ?Q = "\<lambda>r h. r = 0 \<and> line_restored os attrs a0 h"
  let ?I = "\<lambda>opts. (main_mode opts = MODE_DOWNLOAD \<longrightarrow> loaded (main_file opts)) \<and>
        main_mode opts = main_mode o' \<and> transfer_size opts = transfer_size o'"
  have run: "valid (start_ok a0) (bindp (load_stage e o') (\<lambda>opts. bindp (open_stage os root0 opts) (\<lambda>root.
      device_stage os e opts root))) ?Q (\<lambda>c _. c \<in> exit_codes)"
  proof (rule valid_bindp [OF load_stage_ok [OF o'(1)]])
    fix opts
    show "valid (\<lambda>h. start_ok a0 h \<and> ?I opts)
        (bindp (open_stage os root0 opts) (\<lambda>root. device_stage os e opts root)) ?Q (\<lambda>c _. c \<in> exit_codes)"
    proof (cases "?I opts")
      case True
      have dev: "valid (\<lambda>h. \<exists>p \<ge> 0. port_open p a0 h) (device_stage os e opts root) ?Q (\<lambda>c _. c \<in> exit_codes)" for root
        by (rule valid_ex, rule device_stage_ok) (use True o' assms(1,2) in auto)
      have "valid (start_ok a0) (bindp (open_stage os root0 opts) (\<lambda>root. device_stage os e opts root))
          ?Q (\<lambda>c _. c \<in> exit_codes)"
        by (rule valid_bindp [OF open_stage_ok dev])
      then show ?thesis by (rule valid_weaken) auto
    qed (rule valid_absurd, blast)
  qed
  have m: "main os e root0 args = (if main_mode opts = MODE_VERSION then exitp 0
      else if main_mode opts = MODE_NONE then exitp EX_USAGE
      else bindp (load_stage e o') (\<lambda>opts. bindp (open_stage os root0 opts) (\<lambda>root. device_stage os e opts root)))"
    by (simp add: main_def Inr o'_def Let_def)
  show ?thesis
    unfolding m by (intro valid_if run valid_exitp) (simp_all add: exit_codes)
qed

end

text \<open>
  Nothing is needed of a terminal for the other modes; an upload needs a bound on what is
  still to come on the line.
\<close>

context posix_tty
begin

lemma main_no_upload:
  assumes "0 < env_pagesize e" and "env_pagesize e \<le> 8186"
    and "\<And>opts. parse_options args options0 = Inr opts \<Longrightarrow> file_name (main_file opts) \<noteq> ''-'' \<and>
      0 \<le> sint (transfer_size opts) \<and> main_mode opts \<noteq> MODE_UPLOAD"
  shows "valid (init_ok attrs a0) (main os e root0 args) (\<lambda>r h. r = 0 \<and> line_restored os attrs a0 h)
    (\<lambda>c _. c \<in> exit_codes)"
  using plain.main_ok [OF assms(1,2), of args a0 root0] assms(3) by simp

end

context metered_tty
begin

lemma metered_uploads: "bounded.uploads_safe 34000000 e"
  unfolding bounded.uploads_safe_def
proof (intro allI impI)
  fix p a fd and n k :: int
  assume n: "0 < n" "n \<le> 8186"
  have "nat n \<le> 8186" using n by simp
  from metered_upload_safe [OF this, of p a e k fd] n(1)
  show "valid (bounded.port_open 34000000 p a) (dfuload_do_upload qda_ops e n k fd)
      (\<lambda>_. bounded.port_open 34000000 p a) (bounded.tr.device.exits_in 34000000 p a {1, EX_SOFTWARE, EX_IOERR})"
    unfolding bounded.tr.device.exits_in_def few_ok
    by simp (erule valid_weaken, auto)
qed

lemma main_metered:
  assumes "0 < env_pagesize e" and "env_pagesize e \<le> 8186"
    and "\<And>opts. parse_options args options0 = Inr opts \<Longrightarrow> file_name (main_file opts) \<noteq> ''-'' \<and>
      0 \<le> sint (transfer_size opts)"
  shows "valid (\<lambda>h. init_ok attrs a0 h \<and> few_left left h) (main os e root0 args)
    (\<lambda>r h. r = 0 \<and> line_restored os attrs a0 h) (\<lambda>c _. c \<in> exit_codes)"
  by (rule bounded.main_ok [OF assms(1,2)]) (use assms(3) metered_uploads in auto)

end

end
