(* ===== verification/Dfu_Main_Lemmas.thy ===== *)
theory Dfu_Main_Lemmas
  imports Dfu_Main_Safe
begin

unbundle bit_operations_syntax

text \<open>
  The stages of the main program with a device that keeps a given dialogue, and with one that
  stays in its error state.
\<close>

section \<open>The file\<close>

text \<open>A file without a suffix, the usual case, is the firmware itself.\<close>

lemma load_plain:
  assumes "disk fs cont hnd" and "cont w (file_name f) = Some bs" and "file_name f \<noteq> ''-''"
    and "length bs < 2 ^ 31" and "\<not> dfu_signed bs"
  obtains g w' where "dfu_load_file fs f MAYBE_SUFFIX MAYBE_PREFIX w = Some (Ret g, w')"
    and "firmware g = bs" and "size_total g = int (length bs)" and "size_suffix g = 0"
    and "idVendor g = 0xffff" and "idProduct g = 0xffff" and "bcdDFU g = 0"
proof -
  let ?g = "(load_defaults f)\<lparr>firmware := bs, size_total := int (length bs)\<rparr>"
  have name: "file_name (load_defaults f) = file_name f" by (simp add: load_defaults_def)
  obtain w' where l: "load_bytes fs (file_name f) w = Some (Ret bs, w')"
    using disk.load [OF assms(1-4)] by blast
  obtain d where p: "parse_suffix ?g = Inr (True, ?g\<lparr>dwCRC := d\<rparr>)"
    using parse_suffix_unsigned [of ?g] assms(5) by auto
  define k where "k = snd (probe_prefix (?g\<lparr>dwCRC := d\<rparr>))"
  have "parse_file MAYBE_SUFFIX MAYBE_PREFIX ?g = Inr k"
    unfolding parse_file_def check_suffix_def p by (simp add: check_prefix_def k_def split: prod.split)
  then have "dfu_load_file fs f MAYBE_SUFFIX MAYBE_PREFIX w = Some (Ret k, w')"
    using assms(3) by (simp only: dfu_load_file_def Let_def bindp_ret name l) (simp add: retp_def)
  then show thesis
    by (rule that) (simp_all add: k_def probe_prefix_def Let_def load_defaults_def)
qed

text \<open>
  What \<open>load_stage\<close> makes of the options: the file, and its identifiers where none were asked
  for.
\<close>

definition with_file :: "'x options_scheme \<Rightarrow> dfu_file \<Rightarrow> 'x options_scheme" where
  "with_file opts g = opts\<lparr>main_file := g,
     match_vendor := (if match_vendor opts < 0 \<and> idVendor g \<noteq> 0xffff then uint (idVendor g) else match_vendor opts),
     match_product := (if match_product opts < 0 \<and> idProduct g \<noteq> 0xffff then uint (idProduct g) else match_product opts)\<rparr>"

lemma with_file_simps [simp]:
  "main_mode (with_file opts g) = main_mode opts" "transfer_size (with_file opts g) = transfer_size opts"
  "main_file (with_file opts g) = g" "final_reset (with_file opts g) = final_reset opts"
  "verbose (with_file opts g) = verbose opts" "options.more (with_file opts g) = options.more opts"
  by (simp_all add: with_file_def)

lemma load_stage_file:
  assumes "dfu_load_file (env_fs e) (main_file opts) MAYBE_SUFFIX MAYBE_PREFIX (env h) = Some (Ret g, w)"
    and "main_mode opts = MODE_DOWNLOAD"
  shows "load_stage e opts h = Some (Ret (with_file opts g), h\<lparr>env := w\<rparr>)"
proof -
  have "on_env (dfu_load_file (env_fs e) (main_file opts) MAYBE_SUFFIX MAYBE_PREFIX) h = Some (Ret g, h\<lparr>env := w\<rparr>)"
    by (simp add: on_env_def assms(1))
  then show ?thesis
    using assms(2) by (simp add: load_stage_def with_file_def Let_def retp_def)
qed

lemma load_stage_plain:
  assumes "disk (env_fs e) cont hnd" and "cont (env h) (file_name (main_file opts)) = Some bs"
    and "file_name (main_file opts) \<noteq> ''-''" and "length bs < 2 ^ 31" and "\<not> dfu_signed bs"
    and "main_mode opts = MODE_DOWNLOAD"
  obtains g w where "load_stage e opts h = Some (Ret (opts\<lparr>main_file := g\<rparr>), h\<lparr>env := w\<rparr>)"
    and "firmware g = bs" and "size_total g = int (length bs)" and "size_suffix g = 0"
    and "idVendor g = 0xffff" and "idProduct g = 0xffff" and "bcdDFU g = 0"
proof -
  obtain g w where g: "dfu_load_file (env_fs e) (main_file opts) MAYBE_SUFFIX MAYBE_PREFIX (env h) = Some (Ret g, w)"
    "firmware g = bs" "size_total g = int (length bs)" "size_suffix g = 0"
    "idVendor g = 0xffff" "idProduct g = 0xffff" "bcdDFU g = 0"
    by (rule load_plain [OF assms(1-5)])
  have "on_env (dfu_load_file (env_fs e) (main_file opts) MAYBE_SUFFIX MAYBE_PREFIX) h = Some (Ret g, h\<lparr>env := w\<rparr>)"
    by (simp add: on_env_def g(1))
  then have "load_stage e opts h = Some (Ret (opts\<lparr>main_file := g\<rparr>), h\<lparr>env := w\<rparr>)"
    using assms(6) g(5,6) by (simp add: load_stage_def Let_def retp_def)
  then show thesis using g(2-7) by (rule that)
qed

section \<open>Opening\<close>

lemma open_stage_run:
  assumes "serial_io_open os (serial_device_path opts) (sint (transfer_speed opts)) (dev (io (link h))) = (p, t)"
    and "0 \<le> p" and "serial_detach os t = (r, t')" and "0 \<le> r"
    and "length (qda_buf (link h)) = qda_buf_size"
    and "dialogue (serial_conf os) ((Dfu_Desc, Dfu_Desc_Resp n a to sz v) # qrs) S ((io (link h))\<lparr>dev := t'\<rparr>)"
  shows "\<exists>h'. open_stage os root0 opts h = Some (Ret (root0\<lparr>altsetting := word_of_int (match_iface_alt_index opts),
      func_dfu := (func_dfu root0)\<lparr>wTransferSize := sz, bcdDFUVersion := v\<rparr>\<rparr>), h') \<and>
    ready (serial_conf os) (dialogue (serial_conf os) qrs S) (link h') \<and> env h' = env h"
proof -
  let ?c = "serial_conf os"
  let ?root = "root0\<lparr>altsetting := word_of_int (match_iface_alt_index opts)\<rparr>"
  let ?root' = "?root\<lparr>func_dfu := (func_dfu root0)\<lparr>wTransferSize := sz, bcdDFUVersion := v\<rparr>\<rparr>"
  define h1 where "h1 = h\<lparr>link := (link h)\<lparr>qda_conf := Some ?c\<rparr>\<rparr>"
  have 1: "on_link (qda_init ?c) h = Some (Ret 0, h1)"
    by (simp add: on_link_def qda_init_def retp_def h1_def)
  define h2 where "h2 = h1\<lparr>link := (link h1)\<lparr>io := (io (link h1))\<lparr>dev := t\<rparr>\<rparr>\<rparr>"
  have 2: "on_port (serial_io_open os (serial_device_path opts) (sint (transfer_speed opts))) h1 = Some (Ret p, h2)"
    using assms(1) by (simp add: on_port_def h1_def h2_def)
  define h3 where "h3 = h2\<lparr>link := (link h2)\<lparr>io := (io (link h2))\<lparr>dev := t'\<rparr>\<rparr>\<rparr>"
  have 3: "on_link qda_dfu_detach h2 = Some (Ret 0, h3)"
    using assms(3,4) by (simp add: on_link_def qda_dfu_detach_def serial_conf_def util_conf_def h1_def h2_def h3_def
        fail_if_def retp_def)
  have r: "ready ?c (exchanges ?c Dfu_Desc (Dfu_Desc_Resp n a to sz v)
      (dialogue ?c qrs S)) (link h3)"
    using assms(5,6) by (simp add: ready_def h1_def h2_def h3_def)
  obtain u4 where 4: "qda_get_dfu_desc ?root (link h3) = Some (Ret (dfu_desc_result ?root (Dfu_Desc_Resp n a to sz v)), u4)"
    "ready ?c (dialogue ?c qrs S) u4"
    by (rule dfu_desc_exchange [OF r])
  have 6: "on_link (qda_get_dfu_desc ?root) h3 = Some (Ret (0, ?root'), h3\<lparr>link := u4\<rparr>)"
    using 4(1) by (simp add: on_link_def)
  have "open_stage os root0 opts h = Some (Ret ?root', h3\<lparr>link := u4\<rparr>)"
    using assms(2) by (simp add: open_stage_def Let_def 1 2 3 6 retp_def)
  then show ?thesis
    using 4(2) by (intro exI [of _ "h3\<lparr>link := u4\<rparr>"]) (simp add: h1_def h2_def h3_def)
qed

lemma select_stage_run:
  assumes "ready c (dialogue c ((Set_Alt alt, Ack) # qrs) S) (link h)"
  shows "\<exists>h'. select_stage qda_ops alt h = Some (Ret (), h') \<and> ready c (dialogue c qrs S) (link h') \<and> env h' = env h"
proof -
  have r: "ready c (exchanges c (Set_Alt alt) Ack (dialogue c qrs S)) (link h)" using assms by simp
  obtain u where u: "qda_set_alt_setting alt (link h) = Some (Ret (ack_result Ack), u)" "ready c (dialogue c qrs S) u"
    by (rule set_alt_exchange [OF r])
  have "select_stage qda_ops alt h = Some (Ret (), h\<lparr>link := u\<rparr>)"
    using u(1) by (simp add: select_stage_def on_link_def bindp_def ack_result_def retp_def)
  then show ?thesis using u(2) by (intro exI [of _ "h\<lparr>link := u\<rparr>"]) simp
qed

section \<open>The state of the device\<close>

lemma status_again_idle:
  assumes "serves ops (status_step (t, a, 2) # qrs) S (link h)"
  shows "\<exists>st h'. status_again ops e dst h = Some (Ret st, h') \<and> bStatus st = a \<and>
    serves ops qrs S (link h') \<and> env h' = slept e t (env h)"
proof -
  obtain ret st h1 where h1: "on_link (dfu_get_status ops dst) h = Some (Ret (ret, st), h1)" "0 \<le> ret"
    "bState st = 2" "bStatus st = a" "bwPollTimeout st = t" "serves ops qrs S (link h1)" "env h1 = env h"
    by (rule getstatus_step [OF assms])
  have "status_again ops e dst h = Some (Ret st, h1\<lparr>env := slept e t (env h1)\<rparr>)"
    using h1(1-5) by (subst status_again.simps) (simp add: milli_sleep_run retp_def)
  then show ?thesis using h1(4,6,7) by auto
qed

text \<open>
  A device that stays in the error state answers each \<open>Get_Status\<close> so and each \<open>Get_State\<close>;
  it would leave the state on \<open>Clr_Status\<close>, which is never sent.
\<close>

lemma status_again_stuck:
  assumes stay: "\<And>d. J d \<Longrightarrow> exchanges c Get_Status (Status_Resp t a 10) J d"
    and state: "\<And>d. J d \<Longrightarrow> exchanges c Get_State (State_Resp b) J d"
    and "ready c J (link h)"
  shows "status_again qda_ops e dst h = None"
proof -
  have "o' = qda_ops \<longrightarrow> ready c J (link h) \<longrightarrow> False"
    if run: "status_again o' e dst h = Some y" for o' :: "'a qda dfu_ops" and dst h y
    apply (rule status_again.raw_induct [where P = "\<lambda>o' _ _ h _. o' = qda_ops \<longrightarrow> ready c J (link h) \<longrightarrow> False", OF _ run])
    subgoal premises prems for loop o' e dst h y
    proof (intro impI notI)
      assume o: "o' = qda_ops" and r: "ready c J (link h)"
      then have "ready c (exchanges c Get_Status (Status_Resp t a 10) J) (link h)"
        using stay by (auto simp: ready_def)
      then obtain u1 where u1: "qda_dfu_getstatus dst (link h) = Some (Ret (status_result dst (Status_Resp t a 10)), u1)"
        "ready c J u1" by (rule getstatus_exchange)
      let ?dst = "dst\<lparr>bState := 10, bStatus := a, bwPollTimeout := t\<rparr>"
      have 1: "on_link (qda_dfu_getstatus dst) h = Some (Ret (0, ?dst), h\<lparr>link := u1\<rparr>)"
        using u1(1) by (simp add: on_link_def)
      obtain h2 where h2: "milli_sleep e t (h\<lparr>link := u1\<rparr>) = Some (Ret (), h2)" "link h2 = u1"
        using milli_sleep_ret [of e t "h\<lparr>link := u1\<rparr>"] by auto
      have "ready c (exchanges c Get_State (State_Resp b) J) (link h2)"
        using u1(2) h2(2) state by (auto simp: ready_def)
      then obtain u3 where u3: "qda_dfu_getstate (link h2) = Some (Ret (state_result (State_Resp b)), u3)"
        "ready c J u3" by (rule getstate_exchange)
      have 3: "on_link qda_dfu_getstate h2 = Some (Ret (uint b), h2\<lparr>link := u3\<rparr>)"
        using u3(1) by (simp add: on_link_def)
      have "loop qda_ops e ?dst (h2\<lparr>link := u3\<rparr>) = Some y"
        using prems(2) uint_ge_0 [of b] by (simp add: o 1 h2(1) 3 not_less [symmetric])
      from prems(1) [OF this] show False using u3(2) by simp
    qed
    done
  then show ?thesis using assms(3) by (cases "status_again qda_ops e dst h") auto
qed

section \<open>The transfer size\<close>

lemma choose_device_size:
  assumes "wTransferSize (func_dfu root) = sz" and "sz \<noteq> 0" and "int (unat sz) \<le> pg"
    and "unat (bMaxPacketSize0 root) \<le> unat sz"
  shows "choose_transfer_size pg root 0 = Some (ucast sz)"
proof -
  have "(ucast sz :: u32) \<noteq> 0" using assms(2) by (metis unat_0 unat_eq_zero unat_ucast_widen(1))
  moreover have "\<not> pg < sint (ucast sz :: u32)" using assms(3) by (simp add: sint_ucast)
  moreover have "\<not> (ucast sz :: u32) < ucast (bMaxPacketSize0 root)"
    using assms(4) by (simp add: word_less_nat_alt unat_ucast_widen)
  ultimately show ?thesis by (simp add: choose_transfer_size_def Let_def assms(1))
qed

section \<open>A download\<close>

lemma download_stage_run:
  assumes "serves (build_ops b) (download_session xs ms fin @ qrs) S (link k)" and "\<not> dfuse_options b"
    and "main_mode opts = MODE_DOWNLOAD"
    and "choose_transfer_size (env_pagesize e) root (transfer_size opts) = Some n" and "0 < sint n"
    and "firmware (main_file opts) = data @ rest"
    and "size_total (main_file opts) - size_suffix (main_file opts) = int (length data)"
    and "\<not> (id_mismatch (main_file opts) rv rp \<and> id_mismatch (main_file opts) (vendor root) (product root))"
    and "bcdDFU (main_file opts) \<noteq> 0x11a" and "bcdDFUVersion (func_dfu root) \<noteq> 0x11a"
    and "map fst xs = chunks (nat (sint n)) data"
    and "\<forall>(b, busy, t) \<in> set xs. \<forall>p \<in> set busy. busy_report p"
    and "\<forall>p \<in> set ms. manifesting p" and "\<not> manifesting fin"
  shows "\<exists>k'. transfer_stage b e opts root rv rp k = Some (Ret (), k') \<and> serves (build_ops b) qrs S (link k') \<and>
    env k' = fold (slept e) (download_waits xs ms fin) (env k)"
proof -
  have n: "0 < nat (sint n)" "int (nat (sint n)) = sint n" using assms(5) by simp_all
  obtain k' where k': "dfuload_do_dnload (build_ops b) e (int (nat (sint n))) (main_file opts) k =
      Some (Ret (int (length data)), k')" "serves (build_ops b) qrs S (link k')"
    "env k' = fold (slept e) (download_waits xs ms fin) (env k)"
    using dnload_run [OF assms(1,12,11) n(1) assms(6,7,13,14), of e] by blast
  have "transfer_stage b e opts root rv rp k = Some (Ret (), k')"
    using k'(1) assms(2,3,4,8-10) unfolding n(2)
    by (simp add: transfer_stage_def Let_def download_stage_def retp_def)
  then show ?thesis using k'(2,3) by blast
qed

text \<open>A file without a suffix, in blocks of the size the device asks for.\<close>

lemma download_stage_plain:
  assumes "serves (build_ops b) (download_session xs ms fin @ qrs) S (link k)" and "\<not> dfuse_options b"
    and "main_mode opts = MODE_DOWNLOAD" and "transfer_size opts = 0"
    and "firmware (main_file opts) = data" and "size_total (main_file opts) = int (length data)"
    and "size_suffix (main_file opts) = 0" and "idVendor (main_file opts) = 0xffff"
    and "idProduct (main_file opts) = 0xffff" and "bcdDFU (main_file opts) = 0"
    and "wTransferSize (func_dfu root) = sz" and "bcdDFUVersion (func_dfu root) \<noteq> 0x11a"
    and "map fst xs = chunks (unat sz) data" and "sz \<noteq> 0"
    and "int (unat sz) \<le> env_pagesize e" and "unat (bMaxPacketSize0 root) \<le> unat sz"
    and "\<forall>(b, busy, t) \<in> set xs. \<forall>p \<in> set busy. busy_report p"
    and "\<forall>p \<in> set ms. manifesting p" and "\<not> manifesting fin"
  shows "\<exists>k'. transfer_stage b e opts root rv rp k = Some (Ret (), k') \<and> serves (build_ops b) qrs S (link k')"
proof -
  have c: "choose_transfer_size (env_pagesize e) root (transfer_size opts) = Some (ucast sz)"
    unfolding assms(4) by (rule choose_device_size) (use assms(11,14-16) in simp_all)
  have n: "sint (ucast sz :: u32) = int (unat sz)" by (simp add: sint_ucast)
  have "0 < unat sz" using assms(14) by (simp add: unat_gt_0)
  then have pos: "0 < sint (ucast sz :: u32)" unfolding n by (simp only: of_nat_0_less_iff)
  have chunks: "map fst xs = chunks (nat (sint (ucast sz :: u32))) data" unfolding n using assms(13) by simp
  show ?thesis
    using download_stage_run [OF assms(1-3) c pos, where data = data and rest = "[]" and rv = rv and rp = rp] chunks assms(5-10,12,17-19)
    by (auto simp: id_mismatch_def)
qed

section \<open>Closing\<close>

abbreviation (input) closing :: "options \<Rightarrow> (qda_req \<times> qda_resp) list" where
  "closing opts \<equiv> (if final_reset opts then [(Reset, Ack)] else [])"

lemma close_stage_run:
  assumes "ready (serial_conf os) (dialogue (serial_conf os) (closing opts) S) (link h)"
  shows "\<exists>h' y. close_stage os opts h = Some (Ret 0, h') \<and> S y \<and> env h' = env h \<and>
    dev (io (link h')) = snd (serial_io_close os (dev y))"
proof -
  have "\<exists>u. ready (serial_conf os) S u \<and>
      (if final_reset opts then on_link qda_reset h = Some (Ret 0, h\<lparr>link := u\<rparr>) else u = link h)"
  proof (cases "final_reset opts")
    case True
    then have r: "ready (serial_conf os) (exchanges (serial_conf os) Reset Ack S) (link h)" using assms by simp
    obtain u where "qda_reset (link h) = Some (Ret (ack_result Ack), u)" "ready (serial_conf os) S u"
      by (rule reset_exchange [OF r])
    then show ?thesis using True by (auto simp: on_link_def ack_result_def)
  qed (use assms in simp)
  then obtain u where u: "ready (serial_conf os) S u"
    "if final_reset opts then on_link qda_reset h = Some (Ret 0, h\<lparr>link := u\<rparr>) else u = link h" by blast
  obtain r d where d: "serial_io_close os (dev (io u)) = (r, d)" by fastforce
  let ?h = "h\<lparr>link := u\<lparr>io := (io u)\<lparr>dev := d\<rparr>\<rparr>\<rparr>"
  have "close_stage os opts h = Some (Ret 0, ?h)"
    using u(2) d by (auto simp: close_stage_def on_port_def bindp_def retp_def split: if_splits)
  then show ?thesis
    using u(1) d by (intro exI [of _ ?h] exI [of _ "io u"]) (simp add: ready_def)
qed

section \<open>A whole run\<close>

text \<open>What the device is asked before and after the transfer.\<close>

definition main_session ::
  "options \<Rightarrow> qda_resp \<Rightarrow> u32 \<Rightarrow> (qda_req \<times> qda_resp) list \<Rightarrow> (qda_req \<times> qda_resp) list" where
  "main_session opts desc t qrs =
     [(Dfu_Desc, desc), (Set_Alt (word_of_int (match_iface_alt_index opts)), Ack), status_step (t, 0, 2)] @
     qrs @ closing opts"

text \<open>The interface after opening, and the options with the special configuration 0.\<close>

definition opened_root :: "qda_if \<Rightarrow> options \<Rightarrow> u16 \<Rightarrow> u16 \<Rightarrow> qda_if" where
  "opened_root root0 opts sz v = root0\<lparr>altsetting := word_of_int (match_iface_alt_index opts),
     func_dfu := (func_dfu root0)\<lparr>wTransferSize := sz, bcdDFUVersion := v\<rparr>\<rparr>"

lemma opened_root_ids [simp]:
  "vendor (opened_root root0 opts sz v) = vendor root0" "product (opened_root root0 opts sz v) = product root0"
  by (simp_all add: opened_root_def)

definition any_config :: "'x options_scheme \<Rightarrow> 'x options_scheme" where
  "any_config opts = (if match_config_index opts = 0 then opts\<lparr>match_config_index := - 1\<rparr> else opts)"

lemma any_config_simps [simp]:
  "main_mode (any_config opts) = main_mode opts" "final_reset (any_config opts) = final_reset opts"
  "transfer_size (any_config opts) = transfer_size opts" "main_file (any_config opts) = main_file opts"
  "serial_device_path (any_config opts) = serial_device_path opts"
  "transfer_speed (any_config opts) = transfer_speed opts" "expected_size (any_config opts) = expected_size opts"
  "match_iface_alt_index (any_config opts) = match_iface_alt_index opts"
  by (simp_all add: any_config_def)

lemma main_run:
  assumes "parse_options args options0 = Inr opts" and "main_mode opts \<notin> {MODE_NONE, MODE_VERSION}"
    and "load_stage e (any_config opts) h = Some (Ret ((any_config opts)\<lparr>main_file := g\<rparr>), h\<lparr>env := w\<rparr>)"
    and "serial_io_open os (serial_device_path opts) (sint (transfer_speed opts)) (dev (io (link h))) = (p, t)"
    and "0 \<le> p" and "serial_detach os t = (r, t')" and "0 \<le> r"
    and "length (qda_buf (link h)) = qda_buf_size"
    and "dialogue (serial_conf os) (main_session opts (Dfu_Desc_Resp n a to sz v) pt qrs) S
      ((io (link h))\<lparr>dev := t'\<rparr>)"
    and transfer: "\<And>k. ready (serial_conf os) (dialogue (serial_conf os) (qrs @ closing opts) S) (link k) \<Longrightarrow>
      env k = slept e pt w \<Longrightarrow>
      \<exists>k'. transfer_stage qda_build e ((any_config opts)\<lparr>main_file := g\<rparr>) (opened_root root0 opts sz v) (vendor root0) (product root0) k = Some (Ret (), k') \<and>
        ready (serial_conf os) (dialogue (serial_conf os) (closing opts) S) (link k') \<and> P (env k')"
  shows "\<exists>h' y. main os e root0 args h = Some (Ret 0, h') \<and> S y \<and> P (env h') \<and>
    dev (io (link h')) = snd (serial_io_close os (dev y))"
proof -
  let ?c = "serial_conf os" and ?o = "(any_config opts)\<lparr>main_file := g\<rparr>"
  let ?alt = "(Set_Alt (word_of_int (match_iface_alt_index opts)), Ack)"
  have "\<exists>h'. open_stage os root0 ?o (h\<lparr>env := w\<rparr>) = Some (Ret (opened_root root0 opts sz v), h') \<and>
      ready ?c (dialogue ?c (?alt # status_step (pt, 0, 2) # qrs @ closing opts) S) (link h') \<and> env h' = env (h\<lparr>env := w\<rparr>)"
    unfolding opened_root_def
    using open_stage_run [of os ?o "h\<lparr>env := w\<rparr>" p t r t' n a to sz v "?alt # status_step (pt, 0, 2) # qrs @ closing opts" S root0]
      assms(4-9)
    by (simp add: main_session_def)
  then obtain h1 where h1: "open_stage os root0 ?o (h\<lparr>env := w\<rparr>) = Some (Ret (opened_root root0 opts sz v), h1)"
    "ready ?c (dialogue ?c (?alt # status_step (pt, 0, 2) # qrs @ closing opts) S) (link h1)" "env h1 = w" by auto
  obtain h2 where h2: "select_stage qda_ops (altsetting (opened_root root0 opts sz v)) h1 = Some (Ret (), h2)"
    "ready ?c (dialogue ?c (status_step (pt, 0, 2) # qrs @ closing opts) S) (link h2)" "env h2 = w"
    using select_stage_run [OF h1(2)] h1(3) by (auto simp: opened_root_def)
  have "serves qda_ops [status_step (pt, 0, 2)] (ready ?c (dialogue ?c (qrs @ closing opts) S)) (link h2)"
    by (rule qda_serves) (use h2(2) in simp_all)
  from status_again_idle [OF this, of e dfu_status0]
  obtain st h3 where h3: "status_again qda_ops e dfu_status0 h2 = Some (Ret st, h3)" "bStatus st = 0"
    "ready ?c (dialogue ?c (qrs @ closing opts) S) (link h3)" "env h3 = slept e pt w"
    using h2(3) by auto
  obtain h4 where h4: "transfer_stage qda_build e ?o (opened_root root0 opts sz v) (vendor root0) (product root0) h3 = Some (Ret (), h4)"
    "ready ?c (dialogue ?c (closing opts) S) (link h4)" "P (env h4)"
    using transfer [OF h3(3,4)] by blast
  obtain h5 y where h5: "close_stage os ?o h4 = Some (Ret 0, h5)" "S y" "env h5 = env h4"
    "dev (io (link h5)) = snd (serial_io_close os (dev y))"
    using close_stage_run [of os ?o S h4] h4(2) by auto
  have "main os e root0 args h = Some (Ret 0, h5)"
    using assms(1-3) h1(1) h2(1) h3(1,2) h4(1) h5(1)
    by (simp add: main_def Let_def any_config_def [symmetric] device_stage_def check_status_def)
  then show ?thesis using h4(3) h5(2-4) by (intro exI [of _ h5] exI [of _ y]) simp
qed

end
