(* ===== verification/Dfu_File_Props.thy ===== *)
theory Dfu_File_Props
  imports Dfu_File_Lemmas
begin

unbundle bit_operations_syntax

text \<open>
  The properties of dfu_file.c: the checksum, storing and loading on a file system, damaged
  files, what a loaded file looks like, and the progress bar.
\<close>

text \<open>C16: \<open>crc32_byte\<close> with its table is CRC-32 in its reflected form: eight steps of the
  shift register with polynomial 0xEDB88320 for each byte.\<close>

theorem crc32_bitwise:
  "foldl crc32_byte r bs = foldl (\<lambda>r d. (crc32_bit ^^ 8) (r XOR ucast d)) r bs"
proof (induction bs arbitrary: r)
  case (Cons d bs)
  show ?case unfolding foldl_Cons Cons crc32_byte_ref crc32_ref_def ..
qed simp

section \<open>Storing and loading\<close>

lemma parse_image:
  assumes "firmware g = dfu_image f True wp" and "size_total g = int (length (firmware g))" and "size_prefix g = 0"
    and "sreq \<noteq> NO_SUFFIX"
  obtains h where "parse_file sreq MAYBE_PREFIX g = Inr h"
    and "firmware h = firmware g" and "size_total h = size_total g" and "size_suffix h = 16"
    and "bcdDFU h = bcdDFU f" and "idVendor h = idVendor f" and "idProduct h = idProduct f"
    and "file_bcdDevice h = file_bcdDevice f"
    and "\<forall>a. wp \<and> file_prefix_type f = LMDFU_PREFIX \<and> lmdfu_address f = 1024 * ucast (a :: u16) \<longrightarrow>
      size_prefix h = 8 \<and> file_prefix_type h = LMDFU_PREFIX \<and> lmdfu_address h = lmdfu_address f"
proof -
  note s = signed_file_image [OF assms(1)]
  have sg: "dfu_signed (firmware g)" unfolding assms(1) by (rule image_signed)
  have n: "16 \<le> size_total g" using assms(1,2) by (simp add: length_dfu_image)
  have l: "uint (drop (length (firmware g) - 16) (firmware g) ! 11) = 16"
    using s(5) by (simp add: signed_file_def Let_def)
  have p: "parse_suffix g = Inr (False, signed_file g)"
    using parse_suffix_signed [OF assms(2) sg] l n by simp
  have k: "firmware (signed_file g) = firmware g" "size_total (signed_file g) = size_total g"
    "size_prefix (signed_file g) = size_prefix g"
    by (simp_all add: signed_file_def Let_def)
  let ?h = "snd (probe_prefix (signed_file g))"
  have keeps: "firmware ?h = firmware g" "size_total ?h = size_total g"
    "size_suffix ?h = 16" "bcdDFU ?h = bcdDFU f" "idVendor ?h = idVendor f" "idProduct ?h = idProduct f"
    "file_bcdDevice ?h = file_bcdDevice f"
    using s k by (simp_all add: probe_prefix_def Let_def)
  have "parse_file sreq MAYBE_PREFIX g = Inr ?h"
    using assms(4) by (simp add: parse_file_def check_suffix_def p check_prefix_def split: prod.split)
  moreover have "size_prefix ?h = 8 \<and> file_prefix_type ?h = LMDFU_PREFIX \<and> lmdfu_address ?h = lmdfu_address f"
    if "wp" "file_prefix_type f = LMDFU_PREFIX" "lmdfu_address f = 1024 * ucast (a :: u16)" for a
  proof -
    have "firmware (signed_file g) = dfu_image f True True" using assms(1) k that(1) by simp
    then have "probe_prefix (signed_file g) = (0, signed_file g\<lparr>file_prefix_type := LMDFU_PREFIX,
        size_prefix := 8, lmdfu_address := lmdfu_address f\<rparr>)"
      by (rule probe_image [OF _ _ _ that(2,3)])
        (use assms(2,3) k s(5) n that(1,2) in \<open>simp_all add: length_dfu_image length_prefix_bytes assms(1)\<close>)
    then show ?thesis by simp
  qed
  ultimately show thesis using keeps that by blast
qed

text \<open>The image on the disk is accepted also where a suffix is not required.\<close>

lemma load_image:
  assumes "disk fs cont hnd" and "cont w (file_name g) = Some (dfu_image f True wp)"
    and "length (dfu_image f True wp) < 2 ^ 31" and "file_name g \<noteq> ''-''" and "sreq \<noteq> NO_SUFFIX"
  obtains h w' where "dfu_load_file fs g sreq MAYBE_PREFIX w = Some (Ret h, w')"
    and "firmware h = dfu_image f True wp" and "size_total h = int (length (firmware h))" and "size_suffix h = 16"
    and "bcdDFU h = bcdDFU f" and "idVendor h = idVendor f" and "idProduct h = idProduct f"
    and "file_bcdDevice h = file_bcdDevice f"
    and "\<forall>a. wp \<and> file_prefix_type f = LMDFU_PREFIX \<and> lmdfu_address f = 1024 * ucast (a :: u16) \<longrightarrow>
      size_prefix h = 8 \<and> file_prefix_type h = LMDFU_PREFIX \<and> lmdfu_address h = lmdfu_address f"
proof -
  obtain w' where l: "load_bytes fs (file_name g) w = Some (Ret (dfu_image f True wp), w')"
    using disk.load [OF assms(1,2,4,3)] by blast
  let ?g = "(load_defaults g)\<lparr>firmware := dfu_image f True wp, size_total := int (length (dfu_image f True wp))\<rparr>"
  have fw: "firmware ?g = dfu_image f True wp" and st: "size_total ?g = int (length (firmware ?g))"
    and sp: "size_prefix ?g = 0" and nm: "file_name (load_defaults g) = file_name g"
    by (simp_all add: load_defaults_def)
  obtain h where h: "parse_file sreq MAYBE_PREFIX ?g = Inr h"
    "firmware h = firmware ?g" "size_total h = size_total ?g" "size_suffix h = 16"
    "bcdDFU h = bcdDFU f" "idVendor h = idVendor f" "idProduct h = idProduct f"
    "file_bcdDevice h = file_bcdDevice f"
    and pre: "\<forall>a. wp \<and> file_prefix_type f = LMDFU_PREFIX \<and> lmdfu_address f = 1024 * ucast (a :: u16) \<longrightarrow>
      size_prefix h = 8 \<and> file_prefix_type h = LMDFU_PREFIX \<and> lmdfu_address h = lmdfu_address f"
    by (rule parse_image [OF fw st sp assms(5)])
  have "dfu_load_file fs g sreq MAYBE_PREFIX w = Some (Ret h, w')"
    using assms(4) h(1) by (simp add: dfu_load_file_def Let_def nm l retp_def)
  then show thesis by (rule that) (use h pre in simp_all)
qed

text \<open>C10: on a file system, a file stored with a suffix is accepted when it is loaded with
  \<open>NEEDS_SUFFIX\<close>, with the version and identifiers that were stored. A TI Stellaris prefix
  written with it is found with its address, for the addresses the prefix can hold, and the
  payload between prefix and suffix is the one stored.\<close>

theorem store_load_roundtrip:
  assumes "disk fs cont hnd" and "file_wf f" and "length (firmware f) + 32 < 2 ^ 31"
    and "file_name f \<noteq> ''-''" and "file_name g = file_name f"
  shows "\<exists>w1 h w2. dfu_store_file fs f True wp w = Some (Ret (), w1) \<and>
    dfu_load_file fs g NEEDS_SUFFIX MAYBE_PREFIX w1 = Some (Ret h, w2) \<and>
    size_suffix h = 16 \<and> bcdDFU h = bcdDFU f \<and> idVendor h = idVendor f \<and> idProduct h = idProduct f \<and>
    file_bcdDevice h = file_bcdDevice f \<and>
    firmware h = dfu_image f True wp \<and>
    (wp \<and> file_prefix_type f = LMDFU_PREFIX \<and> lmdfu_address f = 1024 * ucast (a :: u16) \<longrightarrow>
       file_prefix_type h = LMDFU_PREFIX \<and> lmdfu_address h = lmdfu_address f \<and> payload h = payload f)"
proof -
  obtain w1 where 1: "dfu_store_file fs f True wp w = Some (Ret (), w1)"
    "cont w1 = (cont w)(file_name f \<mapsto> dfu_image f True wp)"
    using disk.store [OF assms(1,2)] by blast
  have "int (length (payload f)) \<le> int (length (firmware f))"
    using length_payload [OF assms(2)] assms(2) by (simp add: file_wf_def)
  then have small: "length (dfu_image f True wp) < 2 ^ 31"
    using assms(3) by (simp add: length_dfu_image length_prefix_bytes split: prefix_type.split)
  have on_disk: "cont w1 (file_name g) = Some (dfu_image f True wp)" and nm: "file_name g \<noteq> ''-''"
    using 1(2) assms(4,5) by simp_all
  obtain h w2 where h: "dfu_load_file fs g NEEDS_SUFFIX MAYBE_PREFIX w1 = Some (Ret h, w2)"
    "firmware h = dfu_image f True wp" "size_total h = int (length (firmware h))" "size_suffix h = 16"
    "bcdDFU h = bcdDFU f" "idVendor h = idVendor f" "idProduct h = idProduct f"
    "file_bcdDevice h = file_bcdDevice f"
    and pre: "\<forall>a. wp \<and> file_prefix_type f = LMDFU_PREFIX \<and> lmdfu_address f = 1024 * ucast (a :: u16) \<longrightarrow>
      size_prefix h = 8 \<and> file_prefix_type h = LMDFU_PREFIX \<and> lmdfu_address h = lmdfu_address f"
    by (rule load_image [OF assms(1) on_disk small nm suffix_req.distinct(2)])
  have "payload h = payload f"
    if "wp" "file_prefix_type f = LMDFU_PREFIX" "lmdfu_address f = 1024 * ucast (a :: u16)"
    using pre that h(2-4) drop_image [OF that(1), of f True] that(1,2)
    by (simp add: payload_def [of h] length_dfu_image length_prefix_bytes)
  then show ?thesis
    using 1(1) h pre by (intro exI [of _ w1] exI [of _ h] exI [of _ w2]) simp
qed

definition sample_file :: dfu_file where
  "sample_file = dfu_file0\<lparr>file_name := ''f.dfu'', firmware := [1, 2, 3], size_total := 3,
     idVendor := 0x8086, idProduct := 0xC100, bcdDFU := 0x100, file_prefix_type := LMDFU_PREFIX,
     lmdfu_address := 0x2000\<rparr>"

definition empty_disk :: mem_disk where
  "empty_disk = \<lparr>disk_files = (\<lambda>_. None), disk_open = (\<lambda>_. None), disk_next = 3\<rparr>"

lemma sample_file_wf [simp]: "file_wf sample_file"
  by (simp add: file_wf_def sample_file_def dfu_file0_def)

theorem store_load_roundtrip_witness:
  "\<exists>w1 h w2. dfu_store_file mem_fs sample_file True True empty_disk = Some (Ret (), w1) \<and>
    dfu_load_file mem_fs (dfu_file0\<lparr>file_name := ''f.dfu''\<rparr>) NEEDS_SUFFIX MAYBE_PREFIX w1 = Some (Ret h, w2) \<and>
    idVendor h = 0x8086 \<and> lmdfu_address h = 0x2000 \<and> payload h = [1, 2, 3]"
  using store_load_roundtrip [OF mem.disk_axioms sample_file_wf,
      of "dfu_file0\<lparr>file_name := ''f.dfu''\<rparr>" True empty_disk 8]
  by (auto simp: sample_file_def dfu_file0_def payload_def [of "_ :: dfu_file"])

section \<open>Damaged files\<close>

text \<open>C18: a file with a valid suffix in which up to four bytes in a row were altered, anywhere
  in the file, is refused by \<open>dfu_load_file\<close> when a suffix is required.\<close>

theorem damaged_file_refused:
  assumes "disk fs cont hnd" and "dfu_signed (a @ b @ c)"
    and "length b' = length b" and "length b \<le> 4" and "b' \<noteq> b"
    and "cont w (file_name f) = Some (a @ b' @ c)" and "length (a @ b' @ c) < 2 ^ 31"
    and "file_name f \<noteq> ''-''"
  shows "\<exists>w'. dfu_load_file fs f NEEDS_SUFFIX preq w = Some (Exit 74, w')"
proof -
  let ?g = "(load_defaults f)\<lparr>firmware := a @ b' @ c, size_total := int (length (a @ b' @ c))\<rparr>"
  obtain w' where l: "load_bytes fs (file_name f) w = Some (Ret (a @ b' @ c), w')"
    using disk.load [OF assms(1,6,8,7)] by blast
  have "\<not> dfu_signed (firmware ?g)" using damaged_unsigned [OF assms(2-5)] by simp
  then obtain d where "parse_suffix ?g = Inr (True, ?g\<lparr>dwCRC := d\<rparr>)"
    using parse_suffix_unsigned [of ?g] by auto
  then have "parse_file NEEDS_SUFFIX preq ?g = Inl EX_IOERR"
    by (simp only: parse_file_def check_suffix_def) simp
  moreover have "file_name (load_defaults f) = file_name f" by (simp add: load_defaults_def)
  ultimately show ?thesis
    using assms(8) by (simp only: dfu_load_file_def Let_def bindp_ret l) (simp add: exitp_def EX_IOERR_def)
qed

text \<open>The stored sample with one byte of its payload changed.\<close>

theorem damaged_file_refused_witness:
  "\<exists>w'. dfu_load_file mem_fs sample_file NEEDS_SUFFIX MAYBE_PREFIX
     (empty_disk\<lparr>disk_files := [''f.dfu'' \<mapsto> lmdfu_prefix sample_file @ [0] @
        drop 9 (dfu_image sample_file True True)]\<rparr>) = Some (Exit 74, w')"
proof (rule damaged_file_refused [OF mem.disk_axioms])
  have l: "length (dfu_image sample_file True True) = 27"
    by (simp add: length_dfu_image length_prefix_bytes payload_def) (simp add: sample_file_def dfu_file0_def)
  have "dfu_image sample_file True True = lmdfu_prefix sample_file @ [1] @ drop 9 (dfu_image sample_file True True)"
    by (simp add: dfu_image_def Let_def payload_def prefix_bytes_def)
      (simp add: sample_file_def dfu_file0_def)
  then show "dfu_signed (lmdfu_prefix sample_file @ [1] @ drop 9 (dfu_image sample_file True True))"
    using image_signed [of sample_file True] by simp
  show "length (lmdfu_prefix sample_file @ [0] @ drop 9 (dfu_image sample_file True True)) < 2 ^ 31"
    using l by simp
qed (simp_all add: sample_file_def dfu_file0_def)

section \<open>What is loaded\<close>

text \<open>C19: whatever the file system delivers, in a file that \<open>dfu_load_file\<close> returns the size is
  that of the buffer; a suffix was found exactly when the file ends in a valid one, which lies
  within the file and has at least 16 bytes, and otherwise the identifiers are the wildcard; in a
  file that is not standard input the suffix is there when it was required and absent when it was
  excluded. The size of the prefix is 0, 8 or 16; a prefix that was required is there and lies
  within the file before the suffix, and there is none when it was excluded. Where a prefix is
  optional nothing is said of where it ends.\<close>

theorem load_result:
  assumes "dfu_load_file fs f sreq preq w = Some (Ret h, w')"
  shows "size_total h = int (length (firmware h)) \<and> size_prefix h \<in> {0, 8, 16} \<and>
    (if dfu_signed (firmware h) then 16 \<le> size_suffix h \<and> size_suffix h \<le> 255 \<and> size_suffix h \<le> size_total h
     else size_suffix h = 0 \<and> idVendor h = 0xffff \<and> idProduct h = 0xffff) \<and>
    (file_name f \<noteq> ''-'' \<and> sreq = NEEDS_SUFFIX \<longrightarrow> dfu_signed (firmware h)) \<and>
    (file_name f \<noteq> ''-'' \<and> sreq = NO_SUFFIX \<longrightarrow> \<not> dfu_signed (firmware h)) \<and>
    (preq = NEEDS_PREFIX \<longrightarrow> size_prefix h \<noteq> 0 \<and> size_prefix h + size_suffix h \<le> size_total h) \<and>
    (preq = NO_PREFIX \<longrightarrow> size_prefix h = 0)"
  by (rule load_cases [OF assms])

theorem load_result_witness:
  "\<exists>h w'. dfu_load_file mem_fs (dfu_file0\<lparr>file_name := ''a''\<rparr>) MAYBE_SUFFIX MAYBE_PREFIX
      (empty_disk\<lparr>disk_files := [''a'' \<mapsto> [1, 2, 3]]\<rparr>) = Some (Ret h, w') \<and>
    size_total h = int (length (firmware h)) \<and> firmware h = [1, 2, 3]"
proof -
  let ?w = "empty_disk\<lparr>disk_files := [''a'' \<mapsto> [1, 2, 3]]\<rparr>"
  obtain w' where l: "load_bytes mem_fs ''a'' ?w = Some (Ret [1, 2, 3], w')"
    using mem.load [of ?w "''a''" "[1, 2, 3]"] by auto
  let ?h = "(load_defaults (dfu_file0\<lparr>file_name := ''a''\<rparr>))\<lparr>firmware := [1, 2, 3], size_total := 3\<rparr>"
  have n: "file_name (load_defaults (dfu_file0\<lparr>file_name := ''a''\<rparr>)) = ''a''" by (simp add: load_defaults_def)
  have "parse_file MAYBE_SUFFIX MAYBE_PREFIX ?h = Inr ?h"
    by (simp add: parse_file_def check_suffix_def parse_suffix_def check_prefix_def probe_prefix_def)
  then have ld: "dfu_load_file mem_fs (dfu_file0\<lparr>file_name := ''a''\<rparr>) MAYBE_SUFFIX MAYBE_PREFIX ?w = Some (Ret ?h, w')"
    by (simp add: dfu_load_file_def Let_def n l retp_def)
  with load_result [OF ld] show ?thesis by auto
qed

text \<open>But when the prefix is not required, \<open>dfu_load_file\<close> accepts a file whose suffix is
  also taken for a prefix, the two overlapping: sixteen bytes of suffix with release number 1.
  Stored again, its payload has size -8, and \<open>dfu_file_write_crc\<close> runs past its buffer.\<close>

lemma overlap_accepted:
  assumes "firmware g = dfu_image f True False" and "size_total g = int (length (firmware g))"
    and "size_prefix g = 0" and "payload f = []" and "file_bcdDevice f = 1"
    and "\<And>n. fs_open_write fs n w = (3, w1)"
  shows "\<exists>h. parse_file NEEDS_SUFFIX MAYBE_PREFIX g = Inr h \<and>
    size_total h < size_prefix h + size_suffix h \<and> dfu_store_file fs h ws False w = Some (Undef, w1)"
proof -
  note s = signed_file_image [OF assms(1)]
  have sg: "dfu_signed (firmware g)" unfolding assms(1) by (rule image_signed)
  have n: "size_total g = 16" using assms(1,2,4) by (simp add: length_dfu_image)
  have l: "uint (drop (length (firmware g) - 16) (firmware g) ! 11) = 16"
    using s(5) by (simp add: signed_file_def Let_def)
  have p: "parse_suffix g = Inr (False, signed_file g)"
    using parse_suffix_signed [OF assms(2) sg] l n by simp
  obtain c where c: "firmware g = suffix_head f @ le32 c"
    using image_suffix [of f False] assms(1,4) by auto
  have b: "firmware (signed_file g) ! 0 = 1" "firmware (signed_file g) ! Suc 0 = 0"
    using assms(5) by (simp_all add: signed_file_def Let_def c suffix_head_def)
  define h where "h = (signed_file g)\<lparr>file_prefix_type := LMDFU_PREFIX, size_prefix := 8,
    lmdfu_address := 1024 * (push_bit 8 (ucast (firmware (signed_file g) ! 3)) OR
      ucast (firmware (signed_file g) ! 2))\<rparr>"
  have k: "size_total (signed_file g) = 16" using n by (simp add: signed_file_def Let_def)
  have pp: "probe_prefix (signed_file g) = (1, h)"
    using b s(5) k by (simp add: probe_prefix_def Let_def h_def)
  have h: "size_prefix h = 8" "size_suffix h = 16" "size_total h = 16" "length (firmware h) = 16"
    using s(5) k assms(2) n by (simp_all add: h_def) (simp add: signed_file_def Let_def)
  have "parse_file NEEDS_SUFFIX MAYBE_PREFIX g = Inr h"
    by (simp add: parse_file_def check_suffix_def p check_prefix_def pp)
  moreover have "dfu_store_file fs h ws False w = Some (Undef, w1)"
    by (simp add: dfu_store_file_def bindp_def [of "sysp _"] sysp_def assms(6) exit_if_def h
        dfu_file_write_crc_def) (simp add: bindp_def undefp_def)
  ultimately show ?thesis using h by auto
qed

definition bare_suffix :: dfu_file where
  "bare_suffix = dfu_file0\<lparr>file_bcdDevice := 1\<rparr>"

lemma overlap_accepted_example:
  "\<exists>h. parse_file NEEDS_SUFFIX MAYBE_PREFIX (dfu_file0\<lparr>firmware := dfu_image bare_suffix True False, size_total := 16\<rparr>) = Inr h \<and>
    size_total h < size_prefix h + size_suffix h \<and>
    dfu_store_file (mem_fs\<lparr>fs_open_write := (\<lambda>n w. (3, w))\<rparr>) h True False empty_disk = Some (Undef, empty_disk)"
proof (rule overlap_accepted)
  show "payload bare_suffix = []" by (simp add: bare_suffix_def payload_def dfu_file0_def)
  then show "size_total (dfu_file0\<lparr>firmware := dfu_image bare_suffix True False, size_total := 16\<rparr>) =
      int (length (firmware (dfu_file0\<lparr>firmware := dfu_image bare_suffix True False, size_total := 16\<rparr>)))"
    by (simp add: length_dfu_image)
qed (simp_all add: bare_suffix_def dfu_file0_def)

section \<open>The progress bar\<close>

lemma bar_shape:
  "map (\<lambda>x. if of_nat x < (p :: u64) then c else d) [0..<25] = replicate (min 25 (unat p)) c @ replicate (25 - unat p) d"
proof (rule nth_equalityI)
  fix i
  assume i: "i < length (map (\<lambda>x. if of_nat x < p then c else d) [0..<25])"
  then have "of_nat i < p \<longleftrightarrow> i < unat p"
    by (simp add: word_less_nat_alt unsigned_of_nat take_bit_nat_eq_self)
  with i show "map (\<lambda>x. if of_nat x < p then c else d) [0..<25] ! i =
      (replicate (min 25 (unat p)) c @ replicate (25 - unat p) d) ! i"
    by (auto simp: nth_append)
qed (simp add: min_def)

text \<open>Up to 2^57 bytes the progress bar never divides by zero; what it prints has \<open>unat p\<close>
  of 25 positions filled for the progress \<open>p\<close>, at most 100 percent for counts within the
  maximum, and it says it is done exactly when all are filled.\<close>

lemma progress_bar_bounds:
  assumes "cur \<le> 2 ^ 57"
  shows "\<exists>out st'. dfu_progress_bar t cur mx st = (Ret out, st') \<and>
    (\<forall>bar pct fin. out = Some (bar, pct, fin) \<longrightarrow>
       (\<exists>p \<le> 25. bar = replicate p (CHR ''='') @ replicate (25 - p) (CHR '' '') \<and> (fin \<longleftrightarrow> p = 25)) \<and> pct \<le> 100)"
proof -
  define m where "m = (let mx = (if mx < cur then cur + 1 else mx) in if mx = 0 \<and> cur = 0 then 1 else mx)"
  have c: "unat cur \<le> 2 ^ 57" using assms by (simp add: word_le_nat_alt)
  then have u: "unat (cur + 1) = unat cur + 1" by (simp add: unat_word_ariths)
  then have "cur + 1 \<noteq> 0" by (metis Suc_eq_plus1 nat.distinct(1) unsigned_0)
  with u have m: "m \<noteq> 0" "cur \<le> m"
    by (auto simp: m_def Let_def not_less word_le_nat_alt unsigned_eq_0_iff split: if_splits)
  have "unat (100 * cur) = 100 * unat cur" using c by (simp add: unat_word_ariths)
  moreover have "100 * unat cur div unat m \<le> 100"
    using m by (intro div_le_mono [of "100 * unat cur" "100 * unat m" "unat m", simplified nonzero_mult_div_cancel_right, THEN order_trans])
      (auto simp: word_le_nat_alt unsigned_eq_0_iff)
  ultimately have pct: "(100 * cur) div m \<le> 100" by (simp add: word_le_nat_alt unat_div)
  define p where "p = (let p = (25 * cur) div m in if 25 < p then 25 else p)"
  have p: "unat p \<le> 25" "p = 25 \<longleftrightarrow> unat p = 25"
    by (auto simp: p_def Let_def word_less_nat_alt not_less) (simp add: word_unat_eq_iff)
  have "dfu_progress_bar t cur mx st = (if p = fst st \<and> t = snd st then (Ret None, st)
      else (Ret (Some (map (\<lambda>x. if of_nat x < p then CHR ''='' else CHR '' '') [0..<25], (100 * cur) div m, p = 25)), (p, t)))"
    using m(1) by (cases st) (simp add: dfu_progress_bar_def p_def m_def Let_def)
  moreover have "map (\<lambda>x. if of_nat x < p then CHR ''='' else CHR '' '') [0..<25] =
      replicate (unat p) (CHR ''='') @ replicate (25 - unat p) (CHR '' '')"
    using p(1) by (simp only: bar_shape min_absorb2)
  ultimately show ?thesis
    using p pct by (cases "p = fst st \<and> t = snd st") auto
qed

lemma progress_bar_bounds_example:
  "\<exists>bar st'. dfu_progress_bar 7 50 200 (- 1, 0) = (Ret (Some (bar, 25, False)), st') \<and>
    (\<exists>p \<le> 25. bar = replicate p (CHR ''='') @ replicate (25 - p) (CHR '' ''))"
  using progress_bar_bounds [of 50 7 200 "(- 1, 0)"]
  by (auto simp: dfu_progress_bar_def Let_def)

end
