(* ===== verification/Qda_Props.thy ===== *)
theory Qda_Props
  imports Dfu_Util_Qda
begin

unbundle bit_operations_syntax

text \<open>
  The properties of qda.c: each operation against the protocol, what goes wrong without a
  response, memory safety of all operations on the serial transport, each with a run over
  the terminal script.
\<close>

section \<open>A host on a script\<close>

definition script_host :: "(qda_req \<times> qda_resp) list \<Rightarrow> tty serial xm qda" where
  "script_host qrs = \<lparr>qda_conf = Some (serial_conf script_os), qda_buf = replicate 8192 0,
     io = on_script zero_packet (concat (map wire qrs)) [] termios0\<rparr>"

lemma zero_packet_wf [simp]: "xm_wf (on_script zero_packet rx tx at)"
  by (simp add: xm_wf_def zero_packet_def pkt_wf_def)

lemma script_dialogue:
  assumes "\<forall>(q, r) \<in> set qrs. length (enc_req q) \<le> 8192 \<and> length (enc_resp r) \<le> 8064"
    and "serial_handle t = tty_fd" and "tty_rx (world t) = concat (map wire qrs) @ rest"
  shows "dialogue (serial_conf script_os) qrs (\<lambda>y. line_input tty_fd tty_rx (dev y) = rest \<and> xm_wf y)
    \<lparr>pkt_buf = zero_packet, dev = t\<rparr>"
proof -
  have l2: "list_all2 (\<lambda>qr l. answers (fst qr) (snd qr) l \<and> length (enc_req (fst qr)) \<le> qda_buf_size)
      qrs (map wire qrs)"
    using assms(1) by (induction qrs) (auto simp: qda_buf_size_def answers_wire)
  show ?thesis
    by (rule script_line.serial_dialogue [OF l2])
      (use assms(2,3) in \<open>simp_all add: line_input_def xm_wf_def zero_packet_def pkt_wf_def\<close>)
qed

lemma script_host_ready:
  assumes "\<forall>(q, r) \<in> set qrs. length (enc_req q) \<le> 8192 \<and> length (enc_resp r) \<le> 8064"
  shows "ready (serial_conf script_os) (dialogue (serial_conf script_os) qrs
    (\<lambda>y. line_input tty_fd tty_rx (dev y) = [] \<and> xm_wf y)) (script_host qrs)"
  using script_dialogue [OF assms, where rest = "[]"]
  by (simp add: script_host_def ready_def qda_buf_size_def on_script_def)

lemma script_exchange:
  assumes "length (enc_req q) \<le> 8192" and "length (enc_resp r) \<le> 8064"
  shows "ready (serial_conf script_os) (exchanges (serial_conf script_os) q r
    (\<lambda>y. line_input tty_fd tty_rx (dev y) = [] \<and> xm_wf y)) (script_host [(q, r)])"
  using script_host_ready [of "[(q, r)]"] assms by simp

section \<open>Transfers\<close>

text \<open>C20: \<open>qda_dfu_download\<close> of a block of at most 8184 bytes sends the request packet with
  its length, number and bytes, and succeeds exactly when the device answers \<open>ACK\<close>.\<close>

theorem download_refines:
  assumes "ready c (exchanges c (Dnload n b) r S) s" and "length b \<le> 8184"
  shows "\<exists>u. qda_dfu_download (of_nat (length b)) n (Some (b @ rest)) s =
    Some (Ret (if r = Ack then 0 else - 1), u) \<and> ready c S u"
proof -
  obtain u where "qda_dfu_download (of_nat (length b)) n (Some (b @ rest)) s = Some (Ret (ack_result r), u)"
    "ready c S u"
    by (rule download_exchange [OF assms(1), of "Some (b @ rest)" "of_nat (length b)"])
      (use assms(2) in \<open>auto simp: qda_buf_size_def\<close>)
  then show ?thesis by (auto simp: ack_result_def)
qed

theorem download_refines_witness:
  "(\<exists>u. qda_dfu_download 3 7 (Some [1, 2, 3, 4]) (script_host [(Dnload 7 [1, 2, 3], Ack)]) = Some (Ret 0, u)) \<and>
   (\<exists>u. qda_dfu_download 3 7 (Some [1, 2, 3, 4]) (script_host [(Dnload 7 [1, 2, 3], Stall)]) = Some (Ret (- 1), u))"
  using download_refines [OF script_exchange [of "Dnload 7 [1, 2, 3]" Ack], of "[4]"]
    download_refines [OF script_exchange [of "Dnload 7 [1, 2, 3]" Stall], of "[4]"]
  by simp blast

text \<open>A block that does not fit the packet buffer is refused before anything is copied or
  sent: the transport and the rest of the state are as before.\<close>

lemma download_too_long:
  assumes "8184 < unat len" and "length (qda_buf s) = qda_buf_size"
  shows "\<exists>buf. qda_dfu_download len n data s = Some (Ret (- 1), s\<lparr>qda_buf := buf\<rparr>) \<and>
    drop 8 buf = drop 8 (qda_buf s)"
proof -
  have "drop 8 (mem_write (mem_write (mem_write b 0 (le32 t)) 4 (le16 x)) 6 (le16 y)) = drop 8 b"
    if "length b = 8192" for b t x y
    using that by (simp add: mem)
  then show ?thesis
    using assms
    by (intro exI [of _ "mem_write (mem_write (mem_write (qda_buf s) 0
          (le32 (pkt_code QDA_PKT_DFU_DNLOAD_REQ))) 4 (le16 len)) 6 (le16 n)"])
      (simp add: qda_dfu_download_def put_type_def put_at_def retp_def qda_buf_size_def)
qed

lemma download_too_long_example:
  "\<exists>buf. qda_dfu_download 8185 0 None (script_host []) = Some (Ret (- 1), (script_host [])\<lparr>qda_buf := buf\<rparr>) \<and>
    drop 8 buf = replicate 8184 0"
  using download_too_long [of 8185 "script_host []" 0 None] by (simp add: script_host_def qda_buf_size_def)

text \<open>C21: \<open>qda_dfu_upload\<close> asks for at most \<open>len\<close> bytes and, when the response has no more,
  stores them at the start of the caller's buffer and returns their number; a longer
  response, or one of another type, leaves the buffer alone and is an error.\<close>

theorem upload_refines:
  assumes "ready c (exchanges c (Upload n len) r S) s" and "unat len \<le> length data"
    and "\<forall>bs. r = Upload_Resp bs \<longrightarrow> length bs < 65536"
  shows "\<exists>u. qda_dfu_upload len n data s = Some (Ret (upload_result (unat len) data r), u) \<and> ready c S u"
  by (rule upload_exchange [OF assms(1,2)]) (use assms(3) in auto)

theorem upload_refines_witness:
  "(\<exists>u. qda_dfu_upload 2 5 [9, 9, 9] (script_host [(Upload 5 2, Upload_Resp [1, 2])]) =
      Some (Ret (2, [1, 2, 9]), u)) \<and>
   (\<exists>u. qda_dfu_upload 2 5 [9, 9, 9] (script_host [(Upload 5 2, Upload_Resp [1, 2, 3])]) =
      Some (Ret (- 1, [9, 9, 9]), u))"
  using upload_refines [OF script_exchange [of "Upload 5 2" "Upload_Resp [1, 2]"], of "[9, 9, 9]"]
    upload_refines [OF script_exchange [of "Upload 5 2" "Upload_Resp [1, 2, 3]"], of "[9, 9, 9]"]
  by (simp add: mem_write_def) blast

text \<open>C22: the other operations ask their request and make of the response what it says: a
  structure is filled in with exactly the fields of the response and left alone when the
  response has another type; the requests answered by \<open>ACK\<close> succeed exactly on \<open>ACK\<close>.\<close>

theorem requests_refine:
  assumes "ready c (exchanges c q r S) s"
  shows "(q = Get_Status \<longrightarrow> (\<exists>u. qda_dfu_getstatus st s = Some (Ret (status_result st r), u) \<and> ready c S u)) \<and>
    (q = Get_State \<longrightarrow> (\<exists>u. qda_dfu_getstate s = Some (Ret (state_result r), u) \<and> ready c S u)) \<and>
    (q = Dev_Desc \<longrightarrow> (\<exists>u. qda_get_dev_desc dif s = Some (Ret (dev_desc_result dif r), u) \<and> ready c S u)) \<and>
    (q = Dfu_Desc \<longrightarrow> (\<exists>u. qda_get_dfu_desc dif s = Some (Ret (dfu_desc_result dif r), u) \<and> ready c S u)) \<and>
    (q = Reset \<longrightarrow> (\<exists>u. qda_reset s = Some (Ret (ack_result r), u) \<and> ready c S u)) \<and>
    (q = Set_Alt a \<longrightarrow> (\<exists>u. qda_set_alt_setting a s = Some (Ret (ack_result r), u) \<and> ready c S u)) \<and>
    (q = Clr_Status \<longrightarrow> (\<exists>u. qda_dfu_clrstatus s = Some (Ret (ack_result r), u) \<and> ready c S u)) \<and>
    (q = Abort \<longrightarrow> (\<exists>u. qda_dfu_abort s = Some (Ret (ack_result r), u) \<and> ready c S u))"
  using assms
  by (intro conjI impI)
    (blast elim: getstatus_exchange getstate_exchange dev_desc_exchange dfu_desc_exchange
      reset_exchange set_alt_exchange clrstatus_exchange abort_exchange)+

definition status0 :: dfu_status where
  "status0 = \<lparr>bStatus = 0, bwPollTimeout = 0, bState = 0, iString = 0\<rparr>"

theorem requests_refine_witness:
  "(\<exists>u. qda_dfu_getstatus status0 (script_host [(Get_Status, Status_Resp 10 1 2)]) =
      Some (Ret (0, \<lparr>bStatus = 1, bwPollTimeout = 10, bState = 2, iString = 0\<rparr>), u)) \<and>
   (\<exists>u. qda_dfu_getstate (script_host [(Get_State, State_Resp 9)]) = Some (Ret 9, u)) \<and>
   (\<exists>u. qda_set_alt_setting 3 (script_host [(Set_Alt 3, Stall)]) = Some (Ret (- 1), u))"
proof (intro conjI)
  show "\<exists>u. qda_dfu_getstatus status0 (script_host [(Get_Status, Status_Resp 10 1 2)]) =
      Some (Ret (0, \<lparr>bStatus = 1, bwPollTimeout = 10, bState = 2, iString = 0\<rparr>), u)"
    using requests_refine [OF script_exchange [of Get_Status "Status_Resp 10 1 2"], of status0]
    by (simp add: status0_def) blast
  show "\<exists>u. qda_dfu_getstate (script_host [(Get_State, State_Resp 9)]) = Some (Ret 9, u)"
    using requests_refine [OF script_exchange [of Get_State "State_Resp 9"]] by simp blast
  show "\<exists>u. qda_set_alt_setting 3 (script_host [(Set_Alt 3, Stall)]) = Some (Ret (- 1), u)"
    using requests_refine [OF script_exchange [of "Set_Alt 3" Stall], where a = 3]
    by (simp add: ack_result_def) blast
qed

section \<open>Too much\<close>

text \<open>An upload in blocks of more than 8186 bytes is not safe: a response whose length field
  says so many makes \<open>qda_dfu_upload\<close> copy from beyond the end of the packet buffer, whatever
  was really received.\<close>

lemma upload_overread:
  assumes "qda_conf s = Some c" and "length (qda_buf s) = qda_buf_size"
    and "conf_send c (enc_req (Upload n len)) (io s) = Some (rc, d)" and "0 \<le> rc"
    and "\<And>buf. \<exists>k d'. conf_receive c buf d =
      Some ((k, mem_write buf 0 (le32 (pkt_code QDA_PKT_DFU_UPLOAD_RESP) @ le16 m)), d')"
    and "8186 < unat m" and "unat m \<le> unat len"
  shows "\<exists>u. qda_dfu_upload len n data s = Some (Undef, u)"
proof -
  let ?S = "\<lambda>d. d = io s"
  have r: "ready c ?S s" using assms(1,2) by (simp add: ready_def)
  obtain s1 where 1: "put_type QDA_PKT_DFU_UPLOAD_REQ s = Some (Ret (), s1)"
    "prepared c ?S (le32 (pkt_code QDA_PKT_DFU_UPLOAD_REQ)) s1"
    by (rule prepared_type [OF r])
  obtain s2 where 2: "put_at 4 (le16 len) s1 = Some (Ret (), s2)"
    "prepared c ?S (le32 (pkt_code QDA_PKT_DFU_UPLOAD_REQ) @ le16 len) s2"
    by (rule prepared_put [OF 1(2), of 4 "le16 len"]) (auto simp: qda_buf_size_def)
  obtain s3 where 3: "put_at 6 (le16 n) s2 = Some (Ret (), s3)" "prepared c ?S (enc_req (Upload n len)) s3"
    by (rule prepared_put [OF 2(2), of 6 "le16 n"]) (auto simp: qda_buf_size_def)
  have s3: "take 8 (qda_buf s3) = enc_req (Upload n len)" "qda_conf s3 = Some c" "io s3 = io s"
    "length (qda_buf s3) = qda_buf_size"
    using 3(2) by (auto simp: prepared_def ready_def)
  let ?b = "mem_write (qda_buf s3) 0 (le32 (pkt_code QDA_PKT_DFU_UPLOAD_RESP) @ le16 m)"
  obtain k d' where k: "conf_receive c (qda_buf s3) d = Some ((k, ?b), d')" using assms(5) by blast
  have t: "take 6 ?b = le32 (pkt_code QDA_PKT_DFU_UPLOAD_RESP) @ le16 m" by (simp add: mem_write_def)
  have l: "length ?b = 8192" using s3(4) by (simp add: mem_write_def qda_buf_size_def)
  have "take 4 (drop 0 ?b) = le32 (pkt_code QDA_PKT_DFU_UPLOAD_RESP)"
    using arg_cong [OF t, of "take 4"] by simp
  then have f1: "get32 ?b 0 = pkt_code QDA_PKT_DFU_UPLOAD_RESP" by (rule get32_le32)
  have "take 2 (drop 4 ?b) = le16 m"
    using arg_cong [OF t, of "drop 4"] by (simp add: drop_take)
  then have f2: "get16 ?b 4 = m" by (rule get16_le16)
  have sd: "qda_send 8 s3 = Some (Ret rc, s3\<lparr>io := d\<rparr>)" using s3 assms(3) by (simp add: qda_send_def)
  have rv: "qda_receive (s3\<lparr>io := d\<rparr>) = Some (Ret (int k), s3\<lparr>io := d', qda_buf := ?b\<rparr>)"
    using s3 k by (simp add: qda_receive_def)
  have "transact (4 + 4) QDA_PKT_DFU_UPLOAD_RESP (- 1 :: int, data) g s3 = g ?b (s3\<lparr>io := d', qda_buf := ?b\<rparr>)" for g
    using sd rv assms(4) f1 by (simp add: transact_def fail_if_def bindp_def getp_def)
  moreover have "\<not> unat len < unat m" "8192 < 6 + unat m" using assms(6,7) by simp_all
  ultimately have "qda_dfu_upload len n data s = Some (Undef, s3\<lparr>io := d', qda_buf := ?b\<rparr>)"
    by (simp add: qda_dfu_upload_def 1(1) 2(1) 3(1) f2 l Let_def fail_if_def undefp_def)
  then show ?thesis by blast
qed

definition liar_conf :: "unit qda_conf" where
  "liar_conf = \<lparr>conf_send = (\<lambda>bs d. Some (128, d)),
     conf_receive = (\<lambda>buf d. Some ((128, mem_write buf 0 (le32 (pkt_code QDA_PKT_DFU_UPLOAD_RESP) @ le16 0xffff)), d)),
     conf_detach = (\<lambda>d. (0, d))\<rparr>"

lemma upload_overread_example:
  "\<exists>u. qda_dfu_upload 0xffff 0 (replicate 65535 0) \<lparr>qda_conf = Some liar_conf, qda_buf = replicate 8192 0, io = ()\<rparr> =
     Some (Undef, u)"
  by (rule upload_overread [where c = liar_conf and rc = 128 and d = "()" and m = "0xffff"])
    (simp_all add: liar_conf_def qda_buf_size_def)

section \<open>No response, half a response\<close>

text \<open>When the request goes out but nothing comes back, so that the buffer still holds the
  request, the operation fails: no request is a valid response to itself.\<close>

lemma no_response_fails:
  assumes "qda_conf s = Some c" and "length (qda_buf s) = qda_buf_size"
    and "\<And>bs d. \<exists>rc d'. conf_send c bs d = Some (rc, d') \<and> rc < 8192"
    and "\<And>buf d. \<exists>d'. conf_receive c buf d = Some ((0, buf), d')"
    and "opr \<in> {qda_reset, qda_set_alt_setting a, qda_dfu_clrstatus, qda_dfu_abort, qda_dfu_getstate}"
  shows "\<exists>u. opr s = Some (Ret (- 1), u)"
proof -
  have first: "get32 (mem_write b 0 (le32 w)) 0 = w" if "length b = qda_buf_size" for b w
    using that by (intro get32_le32) (simp add: mem_write_def)
  have fifth: "get32 (mem_write (mem_write b 0 (le32 w)) 4 [x]) 0 = w" if "length b = qda_buf_size" for b w x
    using that by (intro get32_le32) (simp add: mem_write_def qda_buf_size_def)
  obtain d' where r: "\<And>buf d. conf_receive c buf d = Some ((0, buf), d' buf d)"
    using assms(4) by metis
  obtain rc d1 where sd: "\<And>bs d. conf_send c bs d = Some (rc bs d, d1 bs d)"
    using assms(3) by metis
  note defs = qda_reset_def qda_set_alt_setting_def qda_dfu_clrstatus_def qda_dfu_abort_def
    qda_dfu_getstate_def put_type_def put_at_def transact_def qda_send_def qda_receive_def fail_if_def
  show ?thesis
    using assms(1,2,5)
    by (auto simp: defs bindp_def modifyp_def getp_def retp_def r sd first fifth qda_buf_size_def)
qed

definition dead_conf :: "unit qda_conf" where
  "dead_conf = \<lparr>conf_send = (\<lambda>bs d. Some (128, d)), conf_receive = (\<lambda>buf d. Some ((0, buf), d)),
     conf_detach = (\<lambda>d. (0, d))\<rparr>"

lemma no_response_fails_example:
  "\<exists>u. qda_dfu_clrstatus \<lparr>qda_conf = Some dead_conf, qda_buf = replicate 8192 0, io = ()\<rparr> = Some (Ret (- 1), u)"
  by (rule no_response_fails [where c = dead_conf and a = 0]) (auto simp: dead_conf_def qda_buf_size_def)

text \<open>C38: but the result of the receive callback is not looked at. Over the serial port, a
  response whose first packet carries an \<open>ACK\<close> and which then breaks off, so that
  \<open>xmodem_receive_package\<close> fails after five timeouts, still makes \<open>qda_dfu_clrstatus\<close> succeed.\<close>

theorem unfinished_response_accepted:
  assumes "line_tty os attrs fd rx" and "qda_conf s = Some (serial_conf os)"
    and "length (qda_buf s) = qda_buf_size" and "xm_wf (io s)"
    and "serial_handle (dev (io s)) = fd"
    and "rx (world (dev (io s))) =
      acks 4 @ map Some (frame 1 (enc_resp Ack @ replicate 124 0)) @ replicate 5 None @ rest"
  shows "\<exists>u. qda_dfu_clrstatus s = Some (Ret 0, u)"
proof -
  have "exchanges (serial_conf os) Clr_Status Ack (\<lambda>y. line_input fd rx (dev y) = rest \<and> xm_wf y) (io s)"
    by (rule line_tty.serial_unfinished [OF assms(1), where b = "enc_resp Ack @ replicate 124 0"])
      (use assms(4-6) in \<open>auto simp: line_input_def qda_buf_size_def\<close>)
  then have "ready (serial_conf os) (exchanges (serial_conf os) Clr_Status Ack
      (\<lambda>y. line_input fd rx (dev y) = rest \<and> xm_wf y)) s"
    using assms(2,3) by (simp add: ready_def)
  then show ?thesis by (rule clrstatus_exchange) (auto simp: ack_result_def)
qed

theorem unfinished_response_accepted_witness:
  "\<exists>u. qda_dfu_clrstatus \<lparr>qda_conf = Some (serial_conf script_os), qda_buf = replicate 8192 0,
     io = on_script zero_packet (acks 4 @ map Some (frame 1 (enc_resp Ack @ replicate 124 0)) @
       replicate 5 None) [] termios0\<rparr> = Some (Ret 0, u)"
  by (rule unfinished_response_accepted [OF script_line.line_tty_axioms, where rest = "[]"])
    (simp_all add: qda_buf_size_def on_script_def xm_wf_def zero_packet_def pkt_wf_def)

section \<open>Memory safety\<close>

definition host_ok :: "'w tty_os \<Rightarrow> int \<Rightarrow> termios \<Rightarrow> 'w serial xm qda \<Rightarrow> bool" where
  "host_ok os h a s \<longleftrightarrow> ready (serial_conf os) (serial_ok h a) s"

lemma host_ok_transport: "host_ok os h a = serial_tr.qda_ok os h a"
  by (rule ext) (simp add: host_ok_def ready_def serial_tr.qda_ok_def)

text \<open>C14: on the serial transport, whatever the line delivers, no operation of qda.c reads or
  writes outside an object, and all keep the packet buffer at its size, the packet structure
  of xmodem.c well formed and the statics of serial_io.c unchanged. The two transfers need a
  caller's buffer of \<open>len\<close> bytes; an upload must also ask for at most 8186.\<close>

theorem qda_operations_safe:
  "valid (host_ok os h a) qda_reset (\<lambda>_. host_ok os h a) (\<lambda>_ _. False) \<and>
    valid (host_ok os h a) (qda_get_dev_desc dif) (\<lambda>_. host_ok os h a) (\<lambda>_ _. False) \<and>
    valid (host_ok os h a) (qda_get_dfu_desc dif) (\<lambda>_. host_ok os h a) (\<lambda>_ _. False) \<and>
    valid (host_ok os h a) (qda_set_alt_setting alt) (\<lambda>_. host_ok os h a) (\<lambda>_ _. False) \<and>
    valid (host_ok os h a) (qda_dfu_getstatus st) (\<lambda>_. host_ok os h a) (\<lambda>_ _. False) \<and>
    valid (host_ok os h a) qda_dfu_clrstatus (\<lambda>_. host_ok os h a) (\<lambda>_ _. False) \<and>
    valid (host_ok os h a) qda_dfu_getstate (\<lambda>_. host_ok os h a) (\<lambda>_ _. False) \<and>
    valid (host_ok os h a) qda_dfu_abort (\<lambda>_. host_ok os h a) (\<lambda>_ _. False) \<and>
    valid (host_ok os h a) qda_dfu_detach (\<lambda>_. host_ok os h a) (\<lambda>_ _. False) \<and>
    (unat len \<le> length d \<longrightarrow> valid (host_ok os h a) (qda_dfu_download len n (Some d)) (\<lambda>_. host_ok os h a) (\<lambda>_ _. False)) \<and>
    (unat len \<le> length d \<and> unat len \<le> 8186 \<longrightarrow> valid (host_ok os h a) (qda_dfu_upload len n d) (\<lambda>_. host_ok os h a) (\<lambda>_ _. False))"
  unfolding host_ok_transport
  by (simp add: serial_tr.safe_ops serial_tr.safe_detach serial_tr.safe_download
      serial_tr.safe_upload qda_buf_size_def)

theorem qda_operations_safe_witness:
  "valid (host_ok script_os 3 termios0) (qda_dfu_upload 2 0 [0, 0])
     (\<lambda>_. host_ok script_os 3 termios0) (\<lambda>_ _. False)"
  using qda_operations_safe [where os = script_os and h = 3 and a = termios0 and len = 2
      and d = "[0, 0]" and n = 0] by simp

end
