(* ===== verification/Dfu_Load_Props.thy ===== *)
theory Dfu_Load_Props
  imports Dfu_Load_Safe Dfu_File_Props Qda_Props
begin

unbundle bit_operations_syntax

text \<open>
  The properties of dfu_load.c, with runs over the terminal script and the disk in memory.
\<close>

section \<open>A device that keeps the protocol\<close>

text \<open>C8: with a device that takes every block, \<open>dfuload_do_dnload\<close> sends the file without
  its suffix in consecutive blocks of the transfer size, numbered from 0 modulo 2^16, each
  after the one before was reported done, then the empty block that ends the transfer, waits
  until the device has manifested, and returns the number of bytes.\<close>

theorem download_delivers:
  assumes "ready c (dialogue c (taking 0 xs @ (Dnload (of_nat (length xs)) [], Ack) #
      map status_step ms @ [status_step fin]) S) (link h)"
    and "map fst xs = chunks k data" and "firmware f = data @ suffix"
    and "size_total f - size_suffix f = int (length data)" and "0 < k" and "k \<le> 8184"
    and "\<forall>(b, busy, t) \<in> set xs. \<forall>p \<in> set busy. busy_report p"
    and "\<forall>p \<in> set ms. manifesting p" and "\<not> manifesting fin"
  shows "\<exists>h'. dfuload_do_dnload qda_ops e (int k) f h = Some (Ret (int (length data)), h') \<and> ready c S (link h')"
proof -
  have "ready c (dialogue c (download_session xs ms fin @ []) S) (link h)"
    using assms(1) by (simp add: download_session_def)
  then have "serves qda_ops (download_session xs ms fin @ []) (ready c S) (link h)"
    using qda_serves_download [OF _ assms(2,6), of c ms fin "[]"] by simp
  from dnload_run [OF this assms(7,2,5,3,4,8,9), of e] show ?thesis by auto
qed

definition no_sleep :: "mem_disk env_os" where
  "no_sleep = \<lparr>env_fs = mem_fs, env_sleep = (\<lambda>_ w. w), env_pagesize = 4096\<rparr>"

theorem download_delivers_witness:
  "\<exists>h'. dfuload_do_dnload qda_ops no_sleep 2 sample_file
     \<lparr>link = script_host [(Dnload 0 [1, 2], Ack), (Get_Status, Status_Resp 10 0 4), (Get_Status, Status_Resp 0 0 5),
        (Dnload 1 [3], Ack), (Get_Status, Status_Resp 0 0 5), (Dnload 2 [], Ack),
        (Get_Status, Status_Resp 0 0 7), (Get_Status, Status_Resp 0 0 2)], env = empty_disk\<rparr> = Some (Ret 3, h')"
proof -
  let ?xs = "[([1, 2], [(10, 0, 4)], 0), ([3], [], 0)] :: taken list"
  have "\<exists>h'. dfuload_do_dnload qda_ops no_sleep (int 2) sample_file
      \<lparr>link = script_host (taking 0 ?xs @ (Dnload (of_nat (length ?xs)) [], Ack) #
         map status_step [(0, 0, 7)] @ [status_step (0, 0, 2)]), env = empty_disk\<rparr> =
        Some (Ret (int (length [1, 2, 3 :: u8])), h') \<and>
      ready (serial_conf script_os) (\<lambda>y. line_input tty_fd tty_rx (dev y) = [] \<and> xm_wf y) (link h')"
    by (rule download_delivers [where suffix = "[]"], simp only: host.select_convs, rule script_host_ready)
      (simp_all add: sample_file_def dfu_file0_def busy_report_def manifesting_def chunks_step)
  then show ?thesis by auto
qed

text \<open>C9: with a device that answers each upload request, \<open>dfuload_do_upload\<close> writes to the
  file what the blocks hold, in order, up to the first one shorter than the transfer size,
  and returns 0, or exits with 70 when another size was expected.\<close>

theorem upload_delivers:
  assumes "disk (env_fs e) cont hnd"
    and "ready c (dialogue c (giving k 0 (bs @ [l])) S) (link h)"
    and "\<forall>b \<in> set bs. length b = k" and "length l < k" and "k < 65536"
    and "int (length (concat (bs @ [l]))) < 2 ^ 31"
    and "hnd (env h) fd = Some (name, length d)" and "cont (env h) name = Some d"
  shows "\<exists>h'. dfuload_do_upload qda_ops e (int k) expected fd h =
      Some (if expected \<noteq> 0 \<and> int (length (concat (bs @ [l]))) \<noteq> expected then Exit 70 else Ret 0, h') \<and>
    ready c S (link h') \<and> cont (env h') = (cont (env h))(name \<mapsto> d @ concat (bs @ [l]))"
proof -
  have w: "disk.writing cont hnd (cont (env h)) (env h) fd name d"
    using assms(7,8) by (auto simp: disk.writing_def [OF assms(1)])
  have r: "ready c (dialogue c (giving k 0 (bs @ [l]) @ []) S) (link h)" using assms(2) by simp
  from disk.qda_upload_run [OF assms(1) r w assms(3-6) refl, of expected] show ?thesis
    by (auto simp: disk.writing_def [OF assms(1)] EX_SOFTWARE_def)
qed

definition upload_disk :: mem_disk where
  "upload_disk = snd (mem_create ''u.bin'' empty_disk)"

theorem upload_delivers_witness:
  "\<exists>h'. dfuload_do_upload qda_ops no_sleep 2 0 3
     \<lparr>link = script_host [(Upload 0 2, Upload_Resp [7, 8]), (Upload 1 2, Upload_Resp [9])], env = upload_disk\<rparr> =
       Some (Ret 0, h') \<and> disk_files (env h') ''u.bin'' = Some [7, 8, 9]"
proof -
  have ld: "disk (env_fs no_sleep) disk_files disk_open"
    using mem.disk_axioms by (simp add: no_sleep_def)
  let ?h = "\<lparr>link = script_host (giving 2 0 ([[7, 8]] @ [[9]])), env = upload_disk\<rparr>"
  have "\<exists>h'. dfuload_do_upload qda_ops no_sleep (int 2) 0 3 ?h =
      Some (if (0 :: int) \<noteq> 0 \<and> int (length (concat ([[7, 8 :: u8]] @ [[9]]))) \<noteq> 0 then Exit 70 else Ret 0, h') \<and>
      ready (serial_conf script_os) (\<lambda>y. line_input tty_fd tty_rx (dev y) = [] \<and> xm_wf y) (link h') \<and>
      disk_files (env h') = (disk_files (env ?h))(''u.bin'' \<mapsto> [] @ concat ([[7, 8]] @ [[9]]))"
    by (rule upload_delivers [OF ld], simp only: host.select_convs, rule script_host_ready)
      (simp_all add: upload_disk_def mem_create_def mem_open_def empty_disk_def)
  then show ?thesis by auto
qed

section \<open>A device that never ends an upload\<close>

lemma upload_loop_overflow:
  assumes "disk.writing cont hnd fs0 (env h) fd nm d" and "disk (env_fs e) cont hnd"
    and "serves ops (giving k n bs @ qrs) S (link h)"
    and "\<forall>b \<in> set bs. length b = k" and "length buf = k" and "k < 65536"
    and "int tot < 2 ^ 31" and "2 ^ 31 \<le> int tot + int (length (concat bs))"
  shows "\<exists>h'. upload_loop ops e (int k) fd (int tot) n buf h = Some (Undef, h')"
  using assms(1,3-5,7,8)
proof (induction bs arbitrary: n h d buf tot)
  case (Cons b bs)
  have r: "served ops (Upload n (of_nat k), Upload_Resp b) (serves ops (giving k (n + 1) bs @ qrs) S) (link h)"
    using Cons.prems(2) by simp
  have b: "length b = k" "\<forall>b \<in> set bs. length b = k" using Cons.prems(3) by auto
  show ?case
  proof (cases "int tot + int (length b) < 2 ^ 31")
    case True
    obtain h' buf' where 1: "upload_loop ops e (int k) fd (int tot) n buf h =
        upload_loop ops e (int k) fd (int (tot + length b)) (n + 1) buf' h'" "length buf' = k"
      "serves ops (giving k (n + 1) bs @ qrs) S (link h')" "disk.writing cont hnd fs0 (env h') fd nm (d @ b)"
      using disk.upload_turn [OF assms(2) r Cons.prems(1) eq_imp_le [OF b(1)] Cons.prems(4) assms(6) True refl] b(1)
      by auto
    have "int (tot + length b) < 2 ^ 31" "2 ^ 31 \<le> int (tot + length b) + int (length (concat bs))"
      using True Cons.prems(6) by simp_all
    from Cons.IH [OF 1(4,3) b(2) 1(2) this] show ?thesis using 1(1) by simp
  next
    case False
    then show ?thesis using disk.upload_turn_overflow [OF assms(2) r Cons.prems(1) _ Cons.prems(4) assms(6)] b(1) by simp
  qed
qed simp

text \<open>C31: the count of the bytes received is an \<open>int\<close>, and the test whether it has become negative
  comes too late: with a device that gives full blocks of together $2^{31}$ bytes or more
  \<open>dfuload_do_upload\<close> overflows it, which is undefined.\<close>

theorem upload_count_overflows:
  assumes "disk (env_fs e) cont hnd"
    and "ready c (dialogue c (giving k 0 bs) S) (link h)"
    and "\<forall>b \<in> set bs. length b = k" and "k < 65536"
    and "2 ^ 31 \<le> int (length (concat bs))"
    and "hnd (env h) fd = Some (name, length d)" and "cont (env h) name = Some d"
  shows "\<exists>h'. dfuload_do_upload qda_ops e (int k) expected fd h = Some (Undef, h')"
proof -
  have km: "int k mod 2 ^ 64 = int k" using assms(4) by simp
  obtain ok w where w: "fs_malloc (env_fs e) (int k) (env h) = (ok, w)" by fastforce
  note m = disk.disk_malloc [OF assms(1) w]
  have 1: "on_env (dfu_malloc (env_fs e) (int k mod 2 ^ 64)) h = Some (Ret (), h\<lparr>env := w\<rparr>)"
    unfolding km using m by (simp add: on_env_def dfu_malloc_def sysp_def bindp_def w exit_if_def retp_def)
  have "\<forall>qr \<in> set (giving k 0 bs). carried qr"
    using carried_giving [OF assms(4)] assms(3) by fastforce
  then have r: "serves qda_ops (giving k 0 bs @ []) (ready c S) (link (h\<lparr>env := w\<rparr>))"
    using qda_serves [of c "giving k 0 bs" "[]" S "link h"] assms(2) by simp
  have wr: "disk.writing cont hnd (cont (env h)) (env (h\<lparr>env := w\<rparr>)) fd name d"
    using m assms(6,7) by (auto simp: disk.writing_def [OF assms(1)])
  have bl: "length (replicate (nat (int k mod 2 ^ 64)) (0 :: u8)) = k" unfolding km by simp
  obtain h' where "upload_loop qda_ops e (int k) fd (int 0) 0 (replicate (nat (int k mod 2 ^ 64)) 0) (h\<lparr>env := w\<rparr>) =
      Some (Undef, h')"
    using upload_loop_overflow [OF wr assms(1) r assms(3) bl assms(4), of 0] assms(5) by auto
  then have "dfuload_do_upload qda_ops e (int k) expected fd h = Some (Undef, h')"
    by (simp only: dfuload_do_upload_def bindp_ret 1 of_nat_0) (simp add: bindp_def)
  then show ?thesis by blast
qed

theorem upload_count_overflows_witness:
  "\<exists>h'. dfuload_do_upload qda_ops no_sleep 4096 0 3
     \<lparr>link = script_host (giving 4096 0 (replicate (2 ^ 19) (replicate 4096 7))), env = upload_disk\<rparr> = Some (Undef, h')"
proof -
  let ?bs = "replicate (2 ^ 19) (replicate 4096 (7 :: u8))"
  have ld: "disk (env_fs no_sleep) disk_files disk_open"
    using mem.disk_axioms by (simp add: no_sleep_def)
  have len: "\<forall>(q, r) \<in> set (giving k n (replicate m (replicate 4096 7))). length (enc_req q) \<le> 8192 \<and> length (enc_resp r) \<le> 8064"
    for k n m
    by (induction m arbitrary: n) auto
  have r: "ready (serial_conf script_os) (dialogue (serial_conf script_os) (giving 4096 0 ?bs)
      (\<lambda>y. line_input tty_fd tty_rx (dev y) = [] \<and> xm_wf y))
      (link \<lparr>link = script_host (giving 4096 0 ?bs), env = upload_disk\<rparr>)"
    unfolding host.select_convs by (rule script_host_ready) (rule len)
  have big: "2 ^ 31 \<le> int (length (concat ?bs))"
    by (simp only: length_concat map_replicate sum_list_replicate length_replicate) simp
  have "\<exists>h'. dfuload_do_upload qda_ops no_sleep (int 4096) 0 3
      \<lparr>link = script_host (giving 4096 0 ?bs), env = upload_disk\<rparr> = Some (Undef, h')"
    by (rule upload_count_overflows [OF ld r _ _ big, where d = "[]" and name = "''u.bin''"])
      (simp_all only: host.select_convs,
       simp_all add: upload_disk_def mem_create_def mem_open_def empty_disk_def)
  then show ?thesis by simp
qed

section \<open>A device that refuses\<close>

text \<open>C34: when the device refuses the first block, or reports an error for it,
  \<open>dfuload_do_dnload\<close> gives up but returns the number of bytes sent, not a negative value: the
  test for failure in \<open>main\<close> never fires.\<close>

theorem failed_download_returned:
  assumes "ready c (dialogue c ((Dnload 0 (take k data), r) # qrs) S) (link h)"
    and "r \<noteq> Ack \<or> r = Ack \<and> qrs = [(Get_Status, Status_Resp t a 10)] \<and> a \<noteq> 0"
    and "firmware f = data @ suffix" and "size_total f - size_suffix f = int (length data)"
    and "0 < k" and "k \<le> 8184" and "data \<noteq> []"
  shows "\<exists>h'. dfuload_do_dnload qda_ops e (int k) f h =
    Some (Ret (if r = Ack then int (length (take k data)) else 0), h')"
proof -
  let ?m = "chunk_size (int (length data)) 0 (int k)"
  have m: "?m = int (length (take k data))" using assms(5) by (auto simp: chunk_size_def Let_def)
  have nz: "?m \<noteq> 0" using m assms(5,7) by simp
  have d: "case Some (data @ suffix) of None \<Rightarrow> take k data = [] | Some d \<Rightarrow> take k data = take (length (take k data)) d"
    by (simp add: min_def)
  have ex: "ready c (exchanges c (Dnload 0 (take k data)) r (dialogue c qrs S)) (link h)" using assms(1) by simp
  obtain u where u: "qda_dfu_download (word_of_int ?m) 0 (Some (data @ suffix)) (link h) = Some (Ret (ack_result r), u)"
    "ready c (dialogue c qrs S) u"
    by (rule download_exchange [OF ex d]) (use assms(6) m in \<open>auto simp: qda_buf_size_def\<close>)
  have l: "on_link (qda_dfu_download (word_of_int ?m) 0 (Some (data @ suffix))) h = Some (Ret (ack_result r), h\<lparr>link := u\<rparr>)"
    by (simp only: on_link_def u(1)) simp
  show ?thesis
  proof (cases "r = Ack")
    case True
    then have "ready c (dialogue c ([status_step (t, a, 10)] @ []) S) u" and a: "a \<noteq> 0" using u(2) assms(2) by auto
    from qda_serves [OF this(1)]
    have "serves qda_ops (map status_step [] @ status_step (t, a, 10) # []) (ready c S) (link (h\<lparr>link := u\<rparr>))" by simp
    from poll_run [OF this, of e dfu_status0] obtain dst' h' where
      p: "dnload_poll qda_ops e dfu_status0 (h\<lparr>link := u\<rparr>) = Some (Ret dst', h')" "bStatus dst' = a"
      by (auto simp: busy_report_def)
    have "dnload_loop qda_ops e f (int k) (int (length data)) 0 0 dfu_status0 h = Some (Ret (True, ?m, 1), h')"
      using l p a nz m assms(3,7) True by (subst dnload_loop.simps) (simp add: ack_result_def retp_def)
    then show ?thesis using m True by (simp add: dfuload_do_dnload_def Let_def assms(4) retp_def)
  next
    case False
    have "dnload_loop qda_ops e f (int k) (int (length data)) 0 0 dfu_status0 h = Some (Ret (True, 0, 1), h\<lparr>link := u\<rparr>)"
      using l nz assms(3,7) False by (subst dnload_loop.simps) (simp add: ack_result_def retp_def)
    then show ?thesis using False by (simp add: dfuload_do_dnload_def Let_def assms(4) retp_def)
  qed
qed

theorem failed_download_returned_witness:
  "\<exists>h'. dfuload_do_dnload qda_ops no_sleep 2 sample_file
     \<lparr>link = script_host [(Dnload 0 [1, 2], Stall)], env = empty_disk\<rparr> = Some (Ret 0, h')"
proof -
  let ?D = "[(Dnload 0 (take 2 [1, 2, 3]), Stall)]"
  have "ready (serial_conf script_os) (dialogue (serial_conf script_os) ?D
      (\<lambda>y. line_input tty_fd tty_rx (dev y) = [] \<and> xm_wf y)) (script_host ?D)"
    by (rule script_host_ready) simp
  then show ?thesis
    using failed_download_returned [of "serial_conf script_os" 2 "[1, 2, 3]" Stall "[]" _
        "\<lparr>link = script_host ?D, env = empty_disk\<rparr>" 0 0 sample_file "[]" no_sleep]
    by (simp add: sample_file_def dfu_file0_def)
qed

section \<open>Any device\<close>

text \<open>C13: over the serial port, whatever the line delivers and the file system does, a download
  of a loaded file in blocks of a size that is not negative accesses no memory outside its
  objects, keeps the state well formed, and returns a count between 0 and the size of the file
  without its suffix or exits with 74. An upload in blocks of at most 8186 bytes into a buffer
  of that size does the same, and returns 0 or the negative result of the failed request, or
  exits with 70 or 74, when at most 34 million bytes are still to come on the line: after more
  its count can overflow.\<close>

theorem transfers_safe:
  fixes os :: "'t tty_os" and left :: "'t \<Rightarrow> nat"
  assumes "loaded f" and "0 \<le> k" and "j \<le> 8186"
  shows "valid (\<lambda>h. host_ok os hnd at (link h)) (dfuload_do_dnload qda_ops e k f)
      (\<lambda>n h. host_ok os hnd at (link h) \<and> 0 \<le> n \<and> n \<le> size_total f - size_suffix f)
      (\<lambda>c h. c = 74 \<and> host_ok os hnd at (link h)) \<and>
    (metered_tty os attrs left \<longrightarrow>
      valid (\<lambda>h. host_ok os hnd at (link h) \<and> few_left left h) (dfuload_do_upload qda_ops e (int j) expected fd)
        (\<lambda>n h. host_ok os hnd at (link h) \<and> n \<le> 0) (\<lambda>c h. c \<in> {70, 74} \<and> host_ok os hnd at (link h)))"
  unfolding host_ok_transport
proof (intro conjI impI)
  show "valid (\<lambda>h. serial_tr.qda_ok os hnd at (link h)) (dfuload_do_dnload qda_ops e k f)
      (\<lambda>n h. serial_tr.qda_ok os hnd at (link h) \<and> 0 \<le> n \<and> n \<le> size_total f - size_suffix f)
      (\<lambda>c h. c = 74 \<and> serial_tr.qda_ok os hnd at (link h))"
    using serial_tr.device.dnload_safe [OF assms(2,1)] by (simp add: EX_IOERR_def)
  show "valid (\<lambda>h. serial_tr.qda_ok os hnd at (link h) \<and> few_left left h) (dfuload_do_upload qda_ops e (int j) expected fd)
      (\<lambda>n h. serial_tr.qda_ok os hnd at (link h) \<and> n \<le> 0)
      (\<lambda>c h. c \<in> {70, 74} \<and> serial_tr.qda_ok os hnd at (link h))" if m: "metered_tty os attrs left"
    by (rule valid_weaken [OF metered_tty.metered_upload_safe [OF m assms(3)]])
      (auto simp: EX_IOERR_def EX_SOFTWARE_def)
qed

theorem transfers_safe_witness:
  "valid (\<lambda>h. host_ok script_os 3 termios0 (link h)) (dfuload_do_dnload qda_ops no_sleep 4096 sample_file)
      (\<lambda>n h. host_ok script_os 3 termios0 (link h) \<and> 0 \<le> n \<and> n \<le> 3)
      (\<lambda>c h. c = 74 \<and> host_ok script_os 3 termios0 (link h)) \<and>
    valid (\<lambda>h. host_ok script_os 3 termios0 (link h) \<and> few_left (\<lambda>w. length (tty_rx w)) h)
      (dfuload_do_upload qda_ops no_sleep 4096 0 3)
      (\<lambda>n h. host_ok script_os 3 termios0 (link h) \<and> n \<le> 0)
      (\<lambda>c h. c \<in> {70, 74} \<and> host_ok script_os 3 termios0 (link h))"
  using transfers_safe [of sample_file 4096 4096 script_os 3 termios0 no_sleep tty_attrs "\<lambda>w. length (tty_rx w)" 0 3]
    script_meter.metered_tty_axioms
  by (simp add: loaded_def sample_file_def dfu_file0_def)

end
