(* ===== verification/Dfu_Options_Props.thy ===== *)
theory Dfu_Options_Props
  imports Dfu_Options
begin

text \<open>
  The properties of the command line: device specifications that were printed are parsed
  back, and what an alternate setting given by name becomes.
\<close>

section \<open>Hexadecimal numbers\<close>

definition hex_digit :: "nat \<Rightarrow> char" where
  "hex_digit d = ''0123456789abcdef'' ! d"

definition hex4 :: "u16 \<Rightarrow> string" where
  "hex4 w = map (\<lambda>i. hex_digit (unat w div 16 ^ i mod 16)) [3, 2, 1, 0]"

lemma hex_table:
  "\<forall>d \<in> set [0..<16]. digit_val (hex_digit d) = d \<and> \<not> is_space (hex_digit d) \<and>
     hex_digit d \<notin> {CHR ''-'', CHR ''+'', CHR ''*'', CHR '':'', CHR '','', CHR ''x'', CHR ''X''}"
  by code_simp

lemma hex_digit:
  assumes "d < 16"
  shows "digit_val (hex_digit d) = d" and "\<not> is_space (hex_digit d)"
    and "hex_digit d \<notin> {CHR ''-'', CHR ''+'', CHR ''*'', CHR '':'', CHR '','', CHR ''x'', CHR ''X''}"
  using hex_table assms by auto

definition hex_end :: "string \<Rightarrow> bool" where
  "hex_end r \<longleftrightarrow> r = [] \<or> 16 \<le> digit_val (hd r)"

lemma unat_16: "unat (w :: u16) < 65536"
  by (rule order_less_le_trans [OF unsigned_less]) simp

lemma hex4_digits:
  obtains a b c d where "hex4 w = [hex_digit a, hex_digit b, hex_digit c, hex_digit d]"
    and "a < 16" "b < 16" "c < 16" "d < 16" and "((a * 16 + b) * 16 + c) * 16 + d = unat w"
proof -
  define q1 where "q1 = unat w div 16"
  define q2 where "q2 = q1 div 16"
  define q3 where "q3 = q2 div 16"
  have q: "unat w div 256 = q2" "unat w div 4096 = q3"
    by (simp_all add: q1_def q2_def q3_def flip: div_mult2_eq)
  have "q3 < 16" using unat_16 [of w] by (simp add: q1_def q2_def q3_def div_less_iff_less_mult)
  then have "((q3 mod 16 * 16 + q2 mod 16) * 16 + q1 mod 16) * 16 + unat w mod 16 = unat w"
    by (simp add: q1_def q2_def q3_def div_mult_mod_eq)
  then show thesis
    by (intro that [of "q3 mod 16" "q2 mod 16" "q1 mod 16" "unat w mod 16"])
      (simp_all add: hex4_def q q1_def)
qed

lemma strtoul_hex4:
  assumes "hex_end r"
  shows "strtoul 16 (hex4 w @ r) = (unat w, r)"
proof -
  obtain a b c d where h: "hex4 w = [hex_digit a, hex_digit b, hex_digit c, hex_digit d]"
    "a < 16" "b < 16" "c < 16" "d < 16" "((a * 16 + b) * 16 + c) * 16 + d = unat w"
    by (rule hex4_digits)
  have v: "unat w < 2 ^ 64" using unat_16 [of w] by simp
  have r: "takeWhile (\<lambda>c. digit_val c < 16) r = []" "dropWhile (\<lambda>c. digit_val c < 16) r = r"
    using assms by (cases r; simp add: hex_end_def)+
  note x = hex_digit [OF h(2)] hex_digit [OF h(3)] hex_digit [OF h(4)] hex_digit [OF h(5)]
  have "scan_number 16 (hex4 w @ r) = Some (False, unat w, r)"
    using x h(2-5) r h(6) by (simp add: scan_number_def split_sign_def split_base_def h(1) digits_value_def)
  then show ?thesis using v by (simp add: strtoul_def)
qed

lemma parse_hex4:
  assumes "hex_end r"
  shows "parse_match_value (Some (hex4 w @ r)) m = uint w"
proof -
  obtain a b c d where h: "hex4 w = [hex_digit a, hex_digit b, hex_digit c, hex_digit d]" "a < 16"
    by (rule hex4_digits)
  have "- 2147483648 \<le> uint w" by (rule order_trans [OF _ uint_ge_0]) simp
  moreover have "uint w < 2147483648" using uint_lt2p [of w] by simp
  ultimately have "to_int (int (unat w)) = int (unat w)"
    by (simp only: to_int_def signed_of_int id_apply of_int_eq_id) (simp add: signed_take_bit_int_eq_self)
  moreover have "r \<noteq> hex4 w @ r" by (simp add: h)
  ultimately show ?thesis
    using hex_digit(3) [OF h(2)] strtoul_hex4 [OF assms, of w]
    by (simp add: parse_match_value_def h(1) del: strtoul_def)
qed

section \<open>Device specifications\<close>

lemma takeWhile_stop: "\<forall>x \<in> set xs. P x \<Longrightarrow> \<not> P y \<Longrightarrow> takeWhile P (xs @ y # ys) = xs"
  by (induction xs) auto

lemma strchr_found: "c \<notin> set xs \<Longrightarrow> strchr (xs @ c # ys) c = Some (length xs)"
proof -
  assume "c \<notin> set xs"
  then have "takeWhile (\<lambda>d. d \<noteq> c) (xs @ c # ys) = xs" by (intro takeWhile_stop) auto
  then show ?thesis by (simp add: strchr_def)
qed

lemma strchr_none: "c \<notin> set xs \<Longrightarrow> strchr xs c = None"
proof -
  assume "c \<notin> set xs"
  then have "takeWhile (\<lambda>d. d \<noteq> c) xs = xs" by (auto simp: takeWhile_eq_all_conv)
  then show ?thesis by (simp only: strchr_def Let_def) simp
qed

lemma hex4_set: "CHR '':'' \<notin> set (hex4 w)" "CHR '','' \<notin> set (hex4 w)" "length (hex4 w) = 4"
proof -
  obtain a b c d where h: "hex4 w = [hex_digit a, hex_digit b, hex_digit c, hex_digit d]"
    "a < 16" "b < 16" "c < 16" "d < 16"
    by (rule hex4_digits)
  note x = hex_digit(3) [OF h(2)] hex_digit(3) [OF h(3)] hex_digit(3) [OF h(4)] hex_digit(3) [OF h(5)]
  show "CHR '':'' \<notin> set (hex4 w)" "CHR '','' \<notin> set (hex4 w)" "length (hex4 w) = 4"
    using x by (auto simp: h(1))
qed

definition print_ids :: "u16 \<Rightarrow> u16 \<Rightarrow> string" where
  "print_ids v p = hex4 v @ '':'' @ hex4 p"

lemma length_print_ids: "length (print_ids v p) = 9"
  by (simp add: print_ids_def hex4_set)

lemma hex_end_colon: "hex_end (CHR '':'' # r)" "hex_end (CHR '','' # r)" "hex_end []"
  by (simp_all add: hex_end_def digit_val_def)

lemma print_ids_parts:
  "CHR '','' \<notin> set (print_ids v p)" "strchr (print_ids v p @ r) (CHR '':'') = Some 4"
  "drop 5 (print_ids v p @ r) = hex4 p @ r" "after_colon (print_ids v p) = Some (hex4 p)"
proof -
  show "CHR '','' \<notin> set (print_ids v p)" by (simp add: print_ids_def hex4_set)
  show c: "strchr (print_ids v p @ r) (CHR '':'') = Some 4" for r
    using strchr_found [of "CHR '':''" "hex4 v" "hex4 p @ r"] by (simp add: print_ids_def hex4_set)
  show d: "drop 5 (print_ids v p @ r) = hex4 p @ r" for r
    by (simp add: print_ids_def hex4_set)
  show "after_colon (print_ids v p) = Some (hex4 p)"
    using c [of "[]"] d [of "[]"] by (simp add: after_colon_def)
qed

text \<open>C28: \<open>parse_vendprod\<close> inverts printing: from \<open>v:p,v':p'\<close> with four hexadecimal digits each
  it sets the identifiers of the runtime and of the DFU mode, from \<open>v:p\<close> those of the runtime
  with the wildcard for the DFU mode, from \<open>,v':p'\<close> those of the DFU mode with an impossible
  runtime device.\<close>

theorem vendprod_roundtrip:
  "parse_vendprod (print_ids v p @ '','' @ print_ids v' p') opts =
     opts\<lparr>match_vendor := uint v, match_product := uint p,
       match_vendor_dfu := uint v', match_product_dfu := uint p'\<rparr> \<and>
   parse_vendprod (print_ids v p) opts =
     opts\<lparr>match_vendor := uint v, match_product := uint p, match_vendor_dfu := - 1, match_product_dfu := - 1\<rparr> \<and>
   parse_vendprod ('','' @ print_ids v' p') opts =
     opts\<lparr>match_vendor := 0x10000, match_product := 0x10000,
       match_vendor_dfu := uint v', match_product_dfu := uint p'\<rparr>"
proof (intro conjI)
  have first: "parse_match_value (Some (print_ids a b @ r)) m = uint a" for a b r m
    using parse_hex4 [OF hex_end_colon(1), of a "hex4 b @ r" m] by (simp add: print_ids_def)
  have second: "parse_match_value (Some (hex4 b)) m = uint b" for b m
    using parse_hex4 [OF hex_end_colon(3), of b m] by simp
  have second': "parse_match_value (Some (hex4 b @ CHR '','' # r)) m = uint b" for b r m
    by (rule parse_hex4 [OF hex_end_colon(2)])
  have n: "strchr (print_ids v p) (CHR '','') = None"
    by (rule strchr_none) (rule print_ids_parts)
  have c: "strchr (print_ids v p @ CHR '','' # print_ids v' p') (CHR '','') = Some 9"
    using strchr_found [OF print_ids_parts(1) [of v p], of "print_ids v' p'"] by (simp add: length_print_ids)
  have d: "drop 10 (print_ids v p @ CHR '','' # r) = r" for r
    by (simp add: length_print_ids)
  show "parse_vendprod (print_ids v p @ '','' @ print_ids v' p') opts =
     opts\<lparr>match_vendor := uint v, match_product := uint p,
       match_vendor_dfu := uint v', match_product_dfu := uint p'\<rparr>"
    using first [of v' p' "[]"] first [of v p "CHR '','' # print_ids v' p'"] second
      print_ids_parts(2,3) [of v p "CHR '','' # print_ids v' p'"] print_ids_parts(4) [of v' p']
    by (simp add: parse_vendprod_def Let_def c second' length_print_ids)
  show "parse_vendprod (print_ids v p) opts =
     opts\<lparr>match_vendor := uint v, match_product := uint p, match_vendor_dfu := - 1, match_product_dfu := - 1\<rparr>"
    using first [of v p "[]"] second print_ids_parts(2,3) [of v p "[]"]
    by (simp add: parse_vendprod_def Let_def n)
  show "parse_vendprod ('','' @ print_ids v' p') opts =
     opts\<lparr>match_vendor := 0x10000, match_product := 0x10000,
       match_vendor_dfu := uint v', match_product_dfu := uint p'\<rparr>"
    using first [of v' p' "[]"] second print_ids_parts(4) [of v' p']
    by (simp add: parse_vendprod_def Let_def strchr_def)
qed

section \<open>The option switch\<close>

text \<open>An alternate setting given by name, that is by any argument of \<open>-a\<close> that is not
  wholly a number, is remembered but never looked up: \<open>main\<close> goes on with setting 255, as it
  does when no \<open>-a\<close> is given.\<close>

lemma alternate_by_name:
  assumes "snd (strtoul 0 name) \<noteq> []" and "parse_option (CHR ''a'') name opts = Inr opts'"
  shows "match_iface_alt_name opts' = Some name \<and>
    (word_of_int (match_iface_alt_index opts') :: u8) = 255 \<and>
    (word_of_int (match_iface_alt_index options0) :: u8) = 255"
  using assms by (auto simp: parse_option_def options0_def split: prod.splits)

lemma alternate_by_name_example:
  "\<exists>opts. parse_option (CHR ''a'') ''flash'' options0 = Inr opts \<and>
     (word_of_int (match_iface_alt_index opts) :: u8) = 255"
proof -
  have n: "strtoul 0 ''flash'' = (0, ''flash'')" by code_simp
  have "\<exists>opts. parse_option (CHR ''a'') ''flash'' options0 = Inr opts"
    by (simp add: parse_option_def n)
  then obtain opts where o: "parse_option (CHR ''a'') ''flash'' options0 = Inr opts" ..
  with alternate_by_name [OF _ o] show ?thesis by (simp add: n)
qed

section \<open>The options there are\<close>

lemma delivered_iff: "delivered c \<longleftrightarrow> c \<in> set ''hVvlpatUDRs?''"
  by (auto simp: delivered_def short_opts_def long_opts_def)

text \<open>What no option changes that can be given.\<close>

definition undisturbed :: "options \<Rightarrow> bool" where
  "undisturbed opts \<longleftrightarrow> match_vendor opts = - 1 \<and> match_product opts = - 1 \<and> match_vendor_dfu opts = - 1 \<and>
     match_product_dfu opts = - 1 \<and> match_config_index opts = - 1 \<and> match_iface_index opts = - 1 \<and>
     match_serial opts = None \<and> match_serial_dfu opts = None \<and> expected_size opts = 0 \<and>
     main_mode opts \<noteq> MODE_DETACH"

lemma option_undisturbed:
  assumes "delivered c" and "parse_option c arg opts = Inr opts'" and "undisturbed opts"
  shows "undisturbed opts'"
  using assms unfolding delivered_iff
  by (auto simp: parse_option_def undisturbed_def split: prod.splits if_splits)

text \<open>C30: \<open>getopt_long\<close> delivers exactly \<open>-h\<close>, \<open>-V\<close>, \<open>-v\<close>, \<open>-l\<close>, \<open>-p\<close>, \<open>-a\<close>, \<open>-t\<close>, \<open>-U\<close>, \<open>-D\<close>, \<open>-R\<close>, \<open>-s\<close> and its
  mark of an error, so that of the cases of the option switch those for \<open>-c\<close>, \<open>-d\<close>, \<open>-e\<close>, \<open>-i\<close>, \<open>-S\<close>
  and \<open>-Z\<close> are dead. On what it delivers no device is matched by number or serial, no
  configuration or interface is chosen, an upload is never checked for its size, and there is
  no detach mode. Where an option has a long and a short form, both take an argument or none
  does.\<close>

theorem options_reachable:
  assumes "\<forall>(c, arg) \<in> set args. delivered c" and "parse_options args options0 = Inr opts"
  shows "undisturbed opts \<and> (\<forall>c. delivered c \<longleftrightarrow> c \<in> set ''hVvlpatUDRs?'') \<and>
    (\<forall>(n, has_arg, c) \<in> set long_opts. short_option short_opts c \<in> {None, Some has_arg})"
proof (intro conjI)
  have "undisturbed opts'" if "\<forall>(c, arg) \<in> set args. delivered c" "parse_options args opts = Inr opts'"
    "undisturbed opts" for opts opts'
    using that by (induction args arbitrary: opts) (auto dest: option_undisturbed split: sum.splits)
  from this [OF assms] show "undisturbed opts" by (simp add: undisturbed_def options0_def)
  show "\<forall>c. delivered c \<longleftrightarrow> c \<in> set ''hVvlpatUDRs?''" using delivered_iff by blast
qed (simp add: long_opts_def short_opts_def)

theorem options_reachable_witness:
  "\<exists>opts. parse_options [(CHR ''U'', ''out.bin''), (CHR ''R'', [])] options0 = Inr opts \<and> expected_size opts = 0"
proof -
  have d: "\<forall>(c, arg) \<in> set [(CHR ''U'', ''out.bin''), (CHR ''R'', [])]. delivered c"
    by (simp add: delivered_iff)
  obtain opts where o: "parse_options [(CHR ''U'', ''out.bin''), (CHR ''R'', [])] options0 = Inr opts"
    by (simp add: parse_option_def)
  from options_reachable [OF d o] o show ?thesis by (simp add: undisturbed_def)
qed

end
