(* ===== verification/Dfu_Main_Props.thy ===== *)
theory Dfu_Main_Props
  imports Dfu_Main_Lemmas Dfu_Load_Props Dfu_Options_Props
begin

unbundle bit_operations_syntax

text \<open>
  The properties of the main program, from the command line to the line settings, with whole
  runs over the terminal script and the disk in memory.
\<close>

section \<open>A complete download\<close>

text \<open>C1: \<open>qm-dfu-util -D file\<close> on a file without a suffix and a device in \<open>dfuIDLE\<close>: \<open>main\<close>
  opens and detaches the device, reads its transfer size, selects the alternate setting,
  sends the file in blocks of that size, waits for the device to manifest, resets it when
  \<open>-R\<close> is given, closes the port and returns 0. When it returns the device has answered all of
  this and nothing else, and the port is the one the close left.\<close>

theorem main_downloads:
  assumes "parse_options args options0 = Inr opts" and "main_mode opts = MODE_DOWNLOAD"
    and "transfer_size opts = 0" and "file_name (main_file opts) \<noteq> ''-''"
    and "disk (env_fs e) cont hnd" and "cont (env h) (file_name (main_file opts)) = Some data"
    and "length data < 2 ^ 31" and "\<not> dfu_signed data"
    and "serial_io_open os (serial_device_path opts) (sint (transfer_speed opts)) (dev (io (link h))) = (p, t)"
    and "0 \<le> p" and "serial_detach os t = (r, t')" and "0 \<le> r"
    and "length (qda_buf (link h)) = qda_buf_size"
    and "dialogue (serial_conf os) (main_session opts (Dfu_Desc_Resp n a to sz v) pt (download_session xs ms fin)) S
      ((io (link h))\<lparr>dev := t'\<rparr>)"
    and "map fst xs = chunks (unat sz) data" and "sz \<noteq> 0" and "unat sz \<le> 8184" and "v \<noteq> 0x11a"
    and "int (unat sz) \<le> env_pagesize e" and "unat (bMaxPacketSize0 root0) \<le> unat sz"
    and "\<forall>(b, busy, t) \<in> set xs. \<forall>p \<in> set busy. busy_report p"
    and "\<forall>p \<in> set ms. manifesting p" and "\<not> manifesting fin"
  shows "\<exists>h' y. main os e root0 args h = Some (Ret 0, h') \<and> S y \<and>
    dev (io (link h')) = snd (serial_io_close os (dev y))"
proof -
  obtain g w where g: "load_stage e (any_config opts) h = Some (Ret ((any_config opts)\<lparr>main_file := g\<rparr>), h\<lparr>env := w\<rparr>)"
    "firmware g = data" "size_total g = int (length data)" "size_suffix g = 0"
    "idVendor g = 0xffff" "idProduct g = 0xffff" "bcdDFU g = 0"
    by (rule load_stage_plain [OF assms(5), of h "any_config opts" data]) (use assms(2,4,6-8) in simp_all)
  have "\<exists>h' y. main os e root0 args h = Some (Ret 0, h') \<and> S y \<and> True \<and>
      dev (io (link h')) = snd (serial_io_close os (dev y))"
  proof (rule main_run [OF assms(1) _ g(1) assms(9-14)])
    fix k :: "('b, 'a) program"
    assume "ready (serial_conf os) (dialogue (serial_conf os) (download_session xs ms fin @ closing opts) S) (link k)"
    from qda_serves_download [OF this assms(15,17)]
    have "serves (build_ops qda_build) (download_session xs ms fin @ [])
        (ready (serial_conf os) (dialogue (serial_conf os) (closing opts) S)) (link k)" by simp
    from download_stage_plain [OF this, of "(any_config opts)\<lparr>main_file := g\<rparr>" data "opened_root root0 opts sz v" sz e
        "vendor root0" "product root0"]
    show "\<exists>k'. transfer_stage qda_build e ((any_config opts)\<lparr>main_file := g\<rparr>) (opened_root root0 opts sz v) (vendor root0) (product root0) k = Some (Ret (), k') \<and>
        ready (serial_conf os) (dialogue (serial_conf os) (closing opts) S) (link k') \<and> True"
      using assms(2,3,15-23) g(2-7) by (simp add: opened_root_def)
  qed (use assms(2) in simp)
  then show ?thesis by simp
qed

text \<open>The sample firmware of three bytes, sent to the terminal script in blocks of two.\<close>

definition fw_disk :: mem_disk where
  "fw_disk = empty_disk\<lparr>disk_files := [''fw.bin'' \<mapsto> [1, 2, 3]]\<rparr>"

definition root_zero :: qda_if where
  "root_zero = \<lparr>func_dfu = \<lparr>bLength = 0, bDescriptorType = 0, bmAttributes = 0, wDetachTimeOut = 0,
     wTransferSize = 0, bcdDFUVersion = 0\<rparr>, vendor = 0, product = 0, bcdDevice = 0, interface = 0,
     altsetting = 0, bMaxPacketSize0 = 0\<rparr>"

definition fw_args :: "(char \<times> string) list" where
  "fw_args = [(CHR ''p'', tty_path), (CHR ''D'', ''fw.bin''), (CHR ''R'', [])]"

definition fw_options :: options where
  "fw_options = options0\<lparr>serial_device_path := Some tty_path, main_mode := MODE_DOWNLOAD,
     main_file := dfu_file0\<lparr>file_name := ''fw.bin''\<rparr>, final_reset := True\<rparr>"

lemma fw_args_parsed: "parse_options fw_args options0 = Inr fw_options"
  by (simp add: fw_args_def parse_option_def fw_options_def options0_def)

definition fw_session :: "(qda_req \<times> qda_resp) list" where
  "fw_session = main_session fw_options (Dfu_Desc_Resp 9 1 0 2 0x110) 0
     (download_session [([1, 2], [(10, 0, 4)], 0), ([3], [], 0)] [(0, 0, 7)] (0, 0, 2))"

definition fw_host :: "(tty, mem_disk) program" where
  "fw_host = \<lparr>link = script_host fw_session, env = fw_disk\<rparr>"

text \<open>Opening and detaching leave what the script has still to deliver.\<close>

definition raw_termios :: termios where
  "raw_termios = serial_tio\<lparr>c_ospeed := B115200, c_ispeed := B115200\<rparr>"

lemma script_open:
  "serial_io_open script_os (Some tty_path) 115200 (dev (on_script k rx tx termios0)) =
     (3, dev (on_script k rx tx raw_termios))"
  by (simp add: serial_io_open_def on_script_def tty_fd_def baud_of_speed_def Let_def raw_termios_def)

lemma script_detach: "\<exists>t. serial_detach script_os (dev (on_script k rx tx at)) = (0, t) \<and>
    serial_handle t = tty_fd \<and> tty_rx (world t) = rx \<and> tio_initial t = termios0"
  by (simp add: serial_detach_def on_script_def Let_def)

text \<open>Hence any dialogue can follow on a terminal opened and detached.\<close>

lemma script_opened:
  assumes "\<forall>(q, r) \<in> set qrs. length (enc_req q) \<le> 8192 \<and> length (enc_resp r) \<le> 8064"
    and "x = on_script zero_packet (concat (map wire qrs) @ rest) [] termios0"
  obtains t t' where "serial_io_open script_os (Some tty_path) 115200 (dev x) = (3, t)"
    and "serial_detach script_os t = (0, t')"
    and "dialogue (serial_conf script_os) qrs (\<lambda>y. line_input tty_fd tty_rx (dev y) = rest \<and> xm_wf y) (x\<lparr>dev := t'\<rparr>)"
proof -
  let ?rx = "concat (map wire qrs) @ rest"
  obtain t' where t': "serial_detach script_os (dev (on_script zero_packet ?rx [] raw_termios)) = (0, t')"
    "serial_handle t' = tty_fd" "tty_rx (world t') = ?rx"
    using script_detach by blast
  have eq: "x\<lparr>dev := t'\<rparr> = \<lparr>pkt_buf = zero_packet, dev = t'\<rparr>"
    by (simp add: assms(2) on_script_def)
  show thesis
    by (rule that [of "dev (on_script zero_packet ?rx [] raw_termios)" t'], simp only: assms(2) script_open,
        rule t', unfold eq, rule script_dialogue [OF assms(1) t'(2,3)])
qed

lemma fw_opened:
  obtains t t' where "serial_io_open script_os (Some tty_path) 115200 (dev (io (link fw_host))) = (3, t)"
    and "serial_detach script_os t = (0, t')"
    and "dialogue (serial_conf script_os) fw_session (\<lambda>y. line_input tty_fd tty_rx (dev y) = [] \<and> xm_wf y)
      ((io (link fw_host))\<lparr>dev := t'\<rparr>)"
  by (rule script_opened [of fw_session "io (link fw_host)" "[]"])
    (simp_all add: fw_session_def main_session_def download_session_def fw_host_def script_host_def)

lemmas fw_defs = fw_options_def options0_def fw_host_def fw_disk_def empty_disk_def dfu_signed_def
  script_host_def qda_buf_size_def no_sleep_def root_zero_def busy_report_def manifesting_def chunks_step

theorem main_downloads_witness:
  "\<exists>h'. main script_os no_sleep root_zero fw_args fw_host = Some (Ret 0, h')"
proof -
  let ?S = "\<lambda>y. line_input tty_fd tty_rx (dev y) = [] \<and> xm_wf y"
  obtain t t' where t: "serial_io_open script_os (Some tty_path) 115200 (dev (io (link fw_host))) = (3, t)"
    "serial_detach script_os t = (0, t')" "dialogue (serial_conf script_os) fw_session ?S ((io (link fw_host))\<lparr>dev := t'\<rparr>)"
    by (rule fw_opened)
  have "\<exists>h' y. main script_os no_sleep root_zero fw_args fw_host = Some (Ret 0, h') \<and> ?S y \<and>
      dev (io (link h')) = snd (serial_io_close script_os (dev y))"
  proof (rule main_downloads [OF fw_args_parsed, where cont = disk_files and hnd = disk_open and
        data = "[1, 2, 3]" and p = 3 and r = 0 and t = t and t' = t' and sz = 2 and
        xs = "[([1, 2], [(10, 0, 4)], 0), ([3], [], 0)]" and ms = "[(0, 0, 7)]" and fin = "(0, 0, 2)"])
    show "disk (env_fs no_sleep) disk_files disk_open"
      using mem.disk_axioms by (simp add: no_sleep_def)
    show "serial_io_open script_os (serial_device_path fw_options) (sint (transfer_speed fw_options))
        (dev (io (link fw_host))) = (3, t)"
      using t(1) by (simp add: fw_options_def options0_def)
    show "dialogue (serial_conf script_os) (main_session fw_options (Dfu_Desc_Resp 9 1 0 2 0x110) 0
        (download_session [([1, 2], [(10, 0, 4)], 0), ([3], [], 0)] [(0, 0, 7)] (0, 0, 2))) ?S
        ((io (link fw_host))\<lparr>dev := t'\<rparr>)"
      using t(3) by (simp only: fw_session_def)
  qed (use t(2) in \<open>simp_all add: fw_defs\<close>)
  then show ?thesis by blast
qed

section \<open>A complete upload\<close>

lemma upload_stage_run:
  assumes "disk (env_fs e) cont hnd"
    and "ready c (dialogue c (giving (unat sz) 0 (bs @ [l]) @ qrs) S) (link k)"
    and "main_mode o1 = MODE_UPLOAD" and "transfer_size o1 = 0"
    and "expected_size o1 \<in> {0, int (length (concat (bs @ [l])))}"
    and "cont (env k) (file_name (main_file o1)) = None"
    and "\<forall>b \<in> set bs. length b = unat sz" and "length l < unat sz" and "v \<noteq> 0x11a"
    and "int (length (concat (bs @ [l]))) < 2 ^ 31"
    and "int (unat sz) \<le> env_pagesize e" and "unat (bMaxPacketSize0 root0) \<le> unat sz"
  shows "\<exists>k'. transfer_stage qda_build e o1 (opened_root root0 opts sz v) (vendor root0) (product root0) k = Some (Ret (), k') \<and>
    ready c (dialogue c qrs S) (link k') \<and>
    cont (env k') = (cont (env k))(file_name (main_file o1) \<mapsto> concat (bs @ [l]))"
proof -
  let ?n = "file_name (main_file o1)"
  obtain fd w where w: "fs_open_excl (env_fs e) ?n (env k) = (fd, w)" by fastforce
  note x = disk.disk_excl [OF assms(1,6) w]
  have wr: "disk.writing cont hnd (cont (env k)) (env (k\<lparr>env := w\<rparr>)) fd ?n []"
    using x by (simp add: disk.writing_def [OF assms(1)])
  have r: "ready c (dialogue c (giving (unat sz) 0 (bs @ [l]) @ qrs) S) (link (k\<lparr>env := w\<rparr>))" using assms(2) by simp
  have "unat sz < 2 ^ LENGTH(16)" by (rule unsigned_less)
  then have lt: "unat sz < 65536" by simp
  obtain k2 where k2: "dfuload_do_upload qda_ops e (int (unat sz)) (expected_size o1) fd (k\<lparr>env := w\<rparr>) = Some (Ret 0, k2)"
    "ready c (dialogue c qrs S) (link k2)" "disk.writing cont hnd (cont (env k)) (env k2) fd ?n (concat (bs @ [l]))"
    using disk.qda_upload_run [OF assms(1) r wr assms(7,8) lt assms(10) refl, of "expected_size o1"] assms(5) by auto
  have sz: "sz \<noteq> 0" using assms(8) by auto
  have root: "wTransferSize (func_dfu (opened_root root0 opts sz v)) = sz"
    "bMaxPacketSize0 (opened_root root0 opts sz v) = bMaxPacketSize0 root0"
    "bcdDFUVersion (func_dfu (opened_root root0 opts sz v)) = v"
    by (simp_all add: opened_root_def)
  have c: "choose_transfer_size (env_pagesize e) (opened_root root0 opts sz v) 0 = Some (ucast sz)"
    by (rule choose_device_size) (use root sz assms(11,12) in simp_all)
  let ?k = "k2\<lparr>env := fs_close (env_fs e) fd (env k2)\<rparr>"
  have 1: "on_env (sysp (fs_open_excl (env_fs e) ?n)) k = Some (Ret fd, k\<lparr>env := w\<rparr>)"
    by (simp add: on_env_def sysp_def w)
  have 2: "dfuload_do_upload qda_ops e (sint (ucast sz :: u32)) (expected_size o1) fd (k\<lparr>env := w\<rparr>) = Some (Ret 0, k2)"
    using k2(1) by (simp add: sint_ucast)
  have "transfer_stage qda_build e o1 (opened_root root0 opts sz v) (vendor root0) (product root0) k = Some (Ret (), ?k)"
    using x assms(3,4,9)
    by (simp add: transfer_stage_def c Let_def root upload_stage_def 1 2) (simp add: on_env_def modifyp_def)
  then show ?thesis
    using k2(2,3) disk.disk_close [OF assms(1), of fd "env k2"]
    by (intro exI [of _ ?k]) (simp add: disk.writing_def [OF assms(1)])
qed

text \<open>C2: \<open>qm-dfu-util -U file\<close> with a device in \<open>dfuIDLE\<close> that gives full blocks and then a shorter
  one: \<open>main\<close> creates the file, which must not exist, asks for the blocks in order, and
  returns 0 with the file holding what they hold, all other files as before.\<close>

theorem main_uploads:
  assumes "parse_options args options0 = Inr opts" and "main_mode opts = MODE_UPLOAD"
    and "transfer_size opts = 0" and "expected_size opts \<in> {0, int (length (concat (bs @ [l])))}"
    and "disk (env_fs e) cont hnd" and "cont (env h) (file_name (main_file opts)) = None"
    and "\<And>t w. cont (env_sleep e t w) = cont w"
    and "serial_io_open os (serial_device_path opts) (sint (transfer_speed opts)) (dev (io (link h))) = (p, t)"
    and "0 \<le> p" and "serial_detach os t = (r, t')" and "0 \<le> r"
    and "length (qda_buf (link h)) = qda_buf_size"
    and "dialogue (serial_conf os) (main_session opts (Dfu_Desc_Resp n a to sz v) pt (giving (unat sz) 0 (bs @ [l]))) S
      ((io (link h))\<lparr>dev := t'\<rparr>)"
    and "\<forall>b \<in> set bs. length b = unat sz" and "length l < unat sz" and "v \<noteq> 0x11a"
    and "int (length (concat (bs @ [l]))) < 2 ^ 31"
    and "int (unat sz) \<le> env_pagesize e" and "unat (bMaxPacketSize0 root0) \<le> unat sz"
  shows "\<exists>h' y. main os e root0 args h = Some (Ret 0, h') \<and> S y \<and>
    cont (env h') = (cont (env h))(file_name (main_file opts) \<mapsto> concat (bs @ [l])) \<and>
    dev (io (link h')) = snd (serial_io_close os (dev y))"
proof (rule main_run [OF assms(1) _ _ assms(8-13), where g = "main_file opts" and w = "env h"])
  have o1: "(any_config opts)\<lparr>main_file := main_file opts\<rparr> = any_config opts"
    by (simp add: any_config_def)
  show "load_stage e (any_config opts) h =
      Some (Ret ((any_config opts)\<lparr>main_file := main_file opts\<rparr>), h\<lparr>env := env h\<rparr>)"
    using assms(2) by (simp add: load_stage_def retp_def o1)
  fix k :: "('b, 'a) program"
  assume k: "ready (serial_conf os) (dialogue (serial_conf os) (giving (unat sz) 0 (bs @ [l]) @ closing opts) S) (link k)"
    and env: "env k = slept e pt (env h)"
  have ce: "cont (env k) = cont (env h)" by (simp add: env slept_def assms(7))
  show "\<exists>k'. transfer_stage qda_build e ((any_config opts)\<lparr>main_file := main_file opts\<rparr>) (opened_root root0 opts sz v) (vendor root0) (product root0) k =
      Some (Ret (), k') \<and> ready (serial_conf os) (dialogue (serial_conf os) (closing opts) S) (link k') \<and>
      cont (env k') = (cont (env h))(file_name (main_file opts) \<mapsto> concat (bs @ [l]))"
    unfolding o1
    using upload_stage_run [OF assms(5) k, of "any_config opts" v root0 opts] assms(2-4,6,14-19) ce
    by (simp split del: if_split)
qed (use assms(2) in simp)

definition up_args :: "(char \<times> string) list" where
  "up_args = [(CHR ''p'', tty_path), (CHR ''U'', ''u.bin'')]"

definition up_options :: options where
  "up_options = options0\<lparr>serial_device_path := Some tty_path, main_mode := MODE_UPLOAD,
     main_file := dfu_file0\<lparr>file_name := ''u.bin''\<rparr>\<rparr>"

lemma up_args_parsed: "parse_options up_args options0 = Inr up_options"
  by (simp add: up_args_def up_options_def parse_option_def options0_def)

definition up_session :: "(qda_req \<times> qda_resp) list" where
  "up_session = main_session up_options (Dfu_Desc_Resp 9 1 0 2 0x110) 0 (giving 2 0 [[7, 8], [9]])"

definition up_host :: "(tty, mem_disk) program" where
  "up_host = \<lparr>link = script_host up_session, env = empty_disk\<rparr>"

theorem main_uploads_witness:
  "\<exists>h'. main script_os no_sleep root_zero up_args up_host = Some (Ret 0, h') \<and>
     disk_files (env h') ''u.bin'' = Some [7, 8, 9]"
proof -
  let ?S = "\<lambda>y. line_input tty_fd tty_rx (dev y) = [] \<and> xm_wf y"
  obtain t t' where t: "serial_io_open script_os (Some tty_path) 115200 (dev (io (link up_host))) = (3, t)"
    "serial_detach script_os t = (0, t')" "dialogue (serial_conf script_os) up_session ?S ((io (link up_host))\<lparr>dev := t'\<rparr>)"
    by (rule script_opened [of up_session "io (link up_host)" "[]"])
      (simp_all add: up_session_def main_session_def up_options_def options0_def up_host_def script_host_def)
  have "\<exists>h' y. main script_os no_sleep root_zero up_args up_host = Some (Ret 0, h') \<and> ?S y \<and>
      disk_files (env h') = (disk_files (env up_host))(file_name (main_file up_options) \<mapsto> concat ([[7, 8]] @ [[9]])) \<and>
      dev (io (link h')) = snd (serial_io_close script_os (dev y))"
  proof (rule main_uploads [OF up_args_parsed, where hnd = disk_open and p = 3 and r = 0 and t = t and t' = t' and sz = 2])
    show "disk (env_fs no_sleep) disk_files disk_open"
      using mem.disk_axioms by (simp add: no_sleep_def)
    show "serial_io_open script_os (serial_device_path up_options) (sint (transfer_speed up_options))
        (dev (io (link up_host))) = (3, t)"
      using t(1) by (simp add: up_options_def options0_def)
    show "dialogue (serial_conf script_os) (main_session up_options (Dfu_Desc_Resp 9 1 0 2 0x110) 0
        (giving (unat (2 :: u16)) 0 ([[7, 8]] @ [[9]]))) ?S ((io (link up_host))\<lparr>dev := t'\<rparr>)"
      using t(3) by (simp add: up_session_def)
  qed (use t(2) in \<open>simp_all add: fw_defs up_options_def up_host_def\<close>)
  then show ?thesis by (auto simp: up_options_def)
qed

end
