(* ===== verification/Dfu_Main_Halts.thy ===== *)
theory Dfu_Main_Halts
  imports Qda_Halts Dfu_Main_Safe
begin

unbundle bit_operations_syntax

text \<open>
  The loops of the program end on a line with finite input, and with them every run of
  \<open>main\<close>, whatever the device answers.
\<close>

section \<open>The file side\<close>

text \<open>Programs that always return; there is no invariant to keep.\<close>

abbreviation total_prog :: "('w, 'a) prog \<Rightarrow> bool" where
  "total_prog m \<equiv> returns (\<lambda>_. True) m (\<lambda>_ _. True)"

lemma total_sysp: "total_prog (sysp f)"
  by (auto simp: halts_def sysp_def split: prod.split)

lemma total_modifyp: "total_prog (modifyp f)"
  by (simp add: halts_modifyp)

lemma total_bindp: "total_prog m \<Longrightarrow> (\<And>a. total_prog (f a)) \<Longrightarrow> total_prog (bindp m f)"
  by (rule halts_bindp)

lemma total_exit_if: "total_prog m \<Longrightarrow> total_prog (exit_if b c m)"
  by (simp add: exit_if_def halts_exitp)

lemma total_malloc: "total_prog (dfu_malloc fs n)"
  unfolding dfu_malloc_def by (intro total_bindp total_sysp total_exit_if halts_retp) simp_all

text \<open>Standard input ends, or fills an \<open>int\<close>.\<close>

lemma total_read_stdin: "\<exists>r v. read_stdin fs buf n w = Some (r, v)"
proof (induction "2 ^ 31 - length buf" arbitrary: buf n w rule: less_induct)
  case less
  obtain ok w1 where 1: "fs_malloc fs (int (length buf) + 65536) w = (ok, w1)" by fastforce
  obtain bs w2 where 2: "fs_fread fs STDIN_CHUNK_SIZE w1 = (bs, w2)" by fastforce
  show ?case
  proof (cases "n = STDIN_CHUNK_SIZE \<and> \<not> 2 ^ 31 \<le> length buf + STDIN_CHUNK_SIZE \<and> ok \<and> length bs = STDIN_CHUNK_SIZE")
    case True
    then have "2 ^ 31 - length (buf @ bs) < 2 ^ 31 - length buf" by simp arith
    from less [OF this, of "length bs" w2] show ?thesis
      using True by (subst read_stdin.simps) (simp add: 1 2)
  next
    case False
    then show ?thesis
      by (subst read_stdin.simps) (auto simp: 1 2 read_stdin.simps [of fs "buf @ bs" "length bs"])
  qed
qed

lemma total_load: "total_prog (dfu_load_file fs f sreq preq)"
proof -
  have "total_prog (read_stdin fs buf n)" for buf n
    using total_read_stdin by (fastforce simp: halts_def)
  moreover have "total_prog (case r of None \<Rightarrow> exitp EX_IOERR | Some bs \<Rightarrow> exit_if (int (length bs) \<noteq> t) EX_IOERR (
      bindp (modifyp (fs_close fs h)) (\<lambda>_. retp bs)))" for r t h
    by (cases r) (auto intro!: total_exit_if total_bindp total_modifyp halting)
  ultimately have "total_prog (load_bytes fs name)" for name
    unfolding load_bytes_def Let_def
    by (intro halts_if total_bindp total_malloc total_sysp total_exit_if)
  moreover have "total_prog (case x of Inl c \<Rightarrow> exitp c | Inr f \<Rightarrow> retp f)" for x :: "int + dfu_file"
    by (cases x) (auto intro!: halting)
  ultimately show ?thesis
    unfolding dfu_load_file_def Let_def by (intro total_bindp)
qed

lemma total_write_crc: "total_prog (dfu_file_write_crc fs f crc buf n)"
  unfolding dfu_file_write_crc_def Let_def
  by (intro halts_if halts_undefp total_bindp total_sysp total_exit_if halts_retp) simp_all

text \<open>They leave the link to the device as it is.\<close>

lemma env_halts:
  fixes m :: "('w, 'a) prog" and P :: "'s qda \<Rightarrow> bool"
  assumes "total_prog m"
  shows "halts (\<lambda>h. M (link h)) (\<lambda>h. P (link h)) (on_env m) (\<lambda>_ h. P (link h)) (\<lambda>_. False)"
proof (rule haltsI)
  fix h :: "('s qda, 'w) host"
  assume h: "P (link h)"
  obtain r w where "m (env h) = Some (r, w)" by (rule haltsE [OF assms, of "env h"]) simp_all
  then show "\<exists>r t. on_env m h = Some (r, t) \<and> M (link t) \<le> M (link h) \<and>
      (\<forall>a. r = Ret a \<longrightarrow> P (link t) \<and> (False \<longrightarrow> M (link t) < M (link h)))"
    using h by (simp add: on_env_def)
qed

section \<open>The loops\<close>

context qda_finite
begin

abbreviation host_left :: "('s qda, 'w) host \<Rightarrow> nat" where
  "host_left h \<equiv> left (link h)"

abbreviation host_progress :: "(('s qda, 'w) host, 'a) prog \<Rightarrow> ('a \<Rightarrow> bool) \<Rightarrow> bool" where
  "host_progress m D \<equiv> halts host_left host_safe m (\<lambda>_. host_safe) D"

lemma halts_on_link: "progress m D \<Longrightarrow> host_progress (on_link m) D"
  by (fastforce simp: halts_def on_link_def)

lemma halts_on_env: "total_prog m \<Longrightarrow> host_progress (on_env m) (\<lambda>_. False)"
  by (rule env_halts)

lemma halts_sleep: "host_progress (milli_sleep e t) (\<lambda>_. False)"
  unfolding milli_sleep_def by (intro halts_if halts_retp halts_on_env total_modifyp) simp_all

lemmas request_progress = halts_on_link [OF progress_ops(1)] halts_on_link [OF progress_ops(2)]
  halts_on_link [OF progress_ops(3)] halts_on_link [OF progress_ops(4)] halts_on_link [OF progress_ops(5)]
  halts_on_link [OF progress_download] halts_on_link [OF progress_upload]

text \<open>The first request of a turn, and what comes after it.\<close>

lemmas turn = halts_bindp_less [OF request_progress(3)] halts_bindp_less [OF request_progress(6)]
  halts_bindp_less [OF request_progress(7)]

lemma poll_halts: "host_progress (dnload_poll qda_ops e st) (\<lambda>_. False)"
proof (rule halts_loop)
  fix n st
  assume rec: "\<And>st. halts host_left (\<lambda>h. host_safe h \<and> host_left h < n) (dnload_poll qda_ops e st)
    (\<lambda>_. host_safe) (\<lambda>_. False)"
  show "halts host_left (\<lambda>h. host_safe h \<and> host_left h < Suc n) (dnload_poll qda_ops e st) (\<lambda>_. host_safe) (\<lambda>_. False)"
    unfolding dnload_poll.simps [of qda_ops e st, abs_def] qda_ops_simps
    by (rule turn(1)) (auto intro!: halting halts_bindp [OF halts_below [OF halts_sleep]] rec)
qed

lemma manifest_halts: "host_progress (dnload_manifest qda_ops e st) (\<lambda>_. False)"
proof (rule halts_loop)
  fix n st
  assume rec: "\<And>st. halts host_left (\<lambda>h. host_safe h \<and> host_left h < n) (dnload_manifest qda_ops e st)
    (\<lambda>_. host_safe) (\<lambda>_. False)"
  show "halts host_left (\<lambda>h. host_safe h \<and> host_left h < Suc n) (dnload_manifest qda_ops e st) (\<lambda>_. host_safe) (\<lambda>_. False)"
    unfolding dnload_manifest.simps [of qda_ops e st, abs_def] qda_ops_simps
    by (rule turn(1)) (auto intro!: halting halts_bindp [OF halts_below [OF halts_sleep]] rec)
qed

lemma status_again_halts: "host_progress (status_again qda_ops e st) (\<lambda>_. False)"
proof (rule halts_loop)
  fix n st
  assume rec: "\<And>st. halts host_left (\<lambda>h. host_safe h \<and> host_left h < n) (status_again qda_ops e st)
    (\<lambda>_. host_safe) (\<lambda>_. False)"
  show "halts host_left (\<lambda>h. host_safe h \<and> host_left h < Suc n) (status_again qda_ops e st) (\<lambda>_. host_safe) (\<lambda>_. False)"
    unfolding status_again.simps [of qda_ops e st, abs_def] qda_ops_simps
    by (rule turn(1)) (auto intro!: halting halts_bindp [OF halts_below [OF halts_sleep]]
        halts_bindp [OF halts_below [OF request_progress(4)]] halts_bindp [OF halts_below [OF request_progress(5)]] rec)
qed

lemma dnload_loop_halts: "host_progress (dnload_loop qda_ops e f m k sent t st) (\<lambda>_. False)"
proof -
  let ?loop = "\<lambda>(sent, t, st). dnload_loop qda_ops e f m k sent t st"
  have "host_progress (?loop x) (\<lambda>_. False)" for x :: "int \<times> u16 \<times> dfu_status"
  proof (rule halts_loop)
    fix n and x :: "int \<times> u16 \<times> dfu_status"
    assume rec: "\<And>y. halts host_left (\<lambda>h. host_safe h \<and> host_left h < n) (?loop y) (\<lambda>_. host_safe) (\<lambda>_. False)"
    obtain sent t st where x: "x = (sent, t, st)" by (cases x)
    have "halts host_left (\<lambda>h. host_safe h \<and> host_left h < Suc n) (dnload_loop qda_ops e f m k sent t st)
        (\<lambda>_. host_safe) (\<lambda>_. False)"
      unfolding dnload_loop.simps [of qda_ops e f m k sent t st, abs_def] qda_ops_simps
      by (intro halts_if turn(2))
        (use rec in \<open>auto intro!: halting halts_bindp [OF halts_below [OF poll_halts]] simp: split_paired_All\<close>)
    then show "halts host_left (\<lambda>h. host_safe h \<and> host_left h < Suc n) (?loop x) (\<lambda>_. host_safe) (\<lambda>_. False)"
      by (simp add: x)
  qed
  from this [of "(sent, t, st)"] show ?thesis by simp
qed

lemma upload_loop_halts: "host_progress (upload_loop qda_ops e m fd k t buf) (\<lambda>_. False)"
proof -
  let ?loop = "\<lambda>(k, t, buf). upload_loop qda_ops e m fd k t buf"
  have "host_progress (?loop x) (\<lambda>_. False)" for x :: "int \<times> u16 \<times> u8 list"
  proof (rule halts_loop)
    fix n and x :: "int \<times> u16 \<times> u8 list"
    assume rec: "\<And>y. halts host_left (\<lambda>h. host_safe h \<and> host_left h < n) (?loop y) (\<lambda>_. host_safe) (\<lambda>_. False)"
    obtain k t buf where x: "x = (k, t, buf)" by (cases x)
    have "halts host_left (\<lambda>h. host_safe h \<and> host_left h < Suc n) (upload_loop qda_ops e m fd k t buf)
        (\<lambda>_. host_safe) (\<lambda>_. False)"
      unfolding upload_loop.simps [of qda_ops e m fd k t buf, abs_def] qda_ops_simps
      by (rule turn(3))
        (use rec in \<open>auto intro!: halting halts_bindp [OF halts_below [OF halts_on_env [OF total_write_crc]]]\<close>)
    then show "halts host_left (\<lambda>h. host_safe h \<and> host_left h < Suc n) (?loop x) (\<lambda>_. host_safe) (\<lambda>_. False)"
      by (simp add: x)
  qed
  from this [of "(k, t, buf)"] show ?thesis by simp
qed

section \<open>The stages\<close>

abbreviation host_returns :: "(('s qda, 'w) host, 'a) prog \<Rightarrow> bool" where
  "host_returns m \<equiv> returns host_safe m (\<lambda>_. host_safe)"

lemma returns_bind: "host_returns m \<Longrightarrow> (\<And>a. host_returns (f a)) \<Longrightarrow> host_returns (bindp m f)"
  by (rule halts_bindp)

lemma returns_ret: "host_returns (retp a)"
  by (rule halts_retp) simp_all

lemma returns_env: "total_prog m \<Longrightarrow> host_returns (on_env m)"
  by (rule halts_returns [OF halts_on_env])

lemma returns_link:
  assumes "returns qda_ok m (\<lambda>_. qda_ok)"
  shows "host_returns (on_link m)"
proof (rule haltsI)
  fix h :: "('s qda, 'w) host"
  assume "host_safe h"
  then obtain r t where "m (link h) = Some (r, t)" "\<And>a. r = Ret a \<Longrightarrow> qda_ok t"
    by (rule haltsE [OF assms]) blast
  then show "\<exists>r t. on_link m h = Some (r, t) \<and> (0::nat) \<le> 0 \<and>
      (\<forall>a. r = Ret a \<longrightarrow> host_safe t \<and> (False \<longrightarrow> (0::nat) < 0))"
    by (auto simp: on_link_def)
qed

lemmas returns_intros = halting returns_bind returns_ret returns_env returns_link
  halts_returns [OF halts_sleep] halts_returns [OF poll_halts] halts_returns [OF manifest_halts]
  halts_returns [OF status_again_halts] halts_returns [OF dnload_loop_halts] halts_returns [OF upload_loop_halts]
  halts_returns [OF progress_ops(1)] halts_returns [OF progress_ops(2)] halts_returns [OF progress_ops(3)]
  halts_returns [OF progress_ops(4)] halts_returns [OF progress_ops(5)] halts_returns [OF progress_download]
  returns_reset returns_detach total_sysp total_modifyp total_malloc

lemma check_status_returns: "host_returns (check_status qda_ops e st)"
  unfolding check_status_def qda_ops_simps qda_build_simps by (intro returns_intros)

lemma upload_returns: "host_returns (dfuload_do_upload qda_ops e m k fd)"
  unfolding dfuload_do_upload_def qda_ops_simps qda_build_simps by (intro returns_intros)

lemma dnload_returns: "host_returns (dfuload_do_dnload qda_ops e m f)"
  unfolding dfuload_do_dnload_def Let_def qda_ops_simps qda_build_simps by (intro returns_intros)

lemma transfer_stage_returns: "host_returns (transfer_stage qda_build e opts root v p)"
proof -
  have "host_returns (upload_stage qda_build e opts d m)" "host_returns (download_stage qda_build e opts root v p d m)" for d m v p
    unfolding upload_stage_def download_stage_def Let_def qda_ops_simps qda_build_simps
    by (intro returns_intros upload_returns dnload_returns)+
  moreover have "host_returns (bindp (on_link (dfu_detach (build_ops qda_build))) (\<lambda>_. retp ()))"
    unfolding qda_build_simps qda_ops_simps by (intro returns_intros)
  ultimately show ?thesis
    unfolding transfer_stage_def Let_def by (auto split: option.split mode.split intro: halting)
qed

end

section \<open>The whole program\<close>

text \<open>Before \<open>qda_init\<close>.\<close>

abbreviation fresh :: "('t, 'w) program \<Rightarrow> bool" where
  "fresh h \<equiv> xm_wf (io (link h)) \<and> length (qda_buf (link h)) = qda_buf_size"

lemma load_stage_returns:
  fixes e :: "'w env_os"
  shows "returns (fresh :: ('t, 'w) program \<Rightarrow> bool) (load_stage e opts) (\<lambda>_. fresh)"
proof -
  have "returns (fresh :: ('t, 'w) program \<Rightarrow> bool) (on_env (dfu_load_file fs f sreq preq)) (\<lambda>_. fresh)" for fs :: "'w file_os" and f sreq preq
    by (rule env_halts [OF total_load, of "\<lambda>_. 0" "\<lambda>s :: 't serial xm qda. xm_wf (io s) \<and> length (qda_buf s) = qda_buf_size"])
  then show ?thesis
    unfolding load_stage_def Let_def by (intro halts_if halts_bindp halts_retp) simp_all
qed

context line_tty
begin

lemma port_returns: "halt.host_returns (on_port f)"
  by (auto simp: halts_def on_port_def serial_wf.qda_ok_def xm_wf_def split: prod.split)

lemma init_returns: "returns fresh (on_link (qda_init (serial_conf os))) (\<lambda>_. halt.host_safe)"
  by (auto simp: halts_def on_link_def qda_init_def bindp_def modifyp_def retp_def serial_wf.qda_ok_def)

lemma open_stage_returns: "returns fresh (open_stage os root0 opts) (\<lambda>_. halt.host_safe)"
  unfolding open_stage_def Let_def
  by (rule halts_bindp [OF init_returns]) (intro halt.returns_intros port_returns)

lemma device_stage_returns: "halt.host_returns (device_stage os e opts root)"
  unfolding device_stage_def close_stage_def select_stage_def qda_ops_simps
  by (intro halt.returns_intros halt.check_status_returns halt.transfer_stage_returns port_returns)

lemma main_returns: "returns fresh (main os e root0 args) (\<lambda>_ _. True)"
proof -
  have "returns fresh (bindp (load_stage e opts) (\<lambda>opts. bindp (open_stage os root0 opts) (\<lambda>root.
      device_stage os e opts root))) (\<lambda>_ _. True)" for opts
    by (rule halts_bindp [OF load_stage_returns], rule halts_bindp [OF open_stage_returns],
        rule halts_weaken [OF device_stage_returns]) simp_all
  then show ?thesis
    unfolding main_def Let_def by (auto split: sum.split intro: halting)
qed

end

end
