(* ===== verification/Dfu_Main_Errors.thy ===== *)
theory Dfu_Main_Errors
  imports Dfu_Main_Props Dfu_Main_Halts
begin

unbundle bit_operations_syntax

text \<open>
  What the main program does when things go wrong: its exits, the memory it touches, a device
  that stays in its error state, and the inputs it does not check.
\<close>

section \<open>A terminal without modem lines\<close>

text \<open>A pseudo-terminal takes settings but no requests about modem lines.\<close>

definition bare_os :: "tty tty_os" where
  "bare_os = script_os\<lparr>os_tiocmget := (\<lambda>fd m w. ((- 1, m), w))\<rparr>"

lemma bare_os_simps:
  "os_read bare_os = os_read script_os" "os_write bare_os = os_write script_os" "os_open bare_os = os_open script_os"
  "os_isatty bare_os = os_isatty script_os" "os_tcgetattr bare_os = os_tcgetattr script_os"
  "os_tcsetattr bare_os = os_tcsetattr script_os" "os_tiocmget bare_os = (\<lambda>fd m w. ((- 1, m), w))"
  "os_tiocmset bare_os = os_tiocmset script_os" "os_usleep bare_os = os_usleep script_os"
  "os_signal bare_os = os_signal script_os" "os_close bare_os = os_close script_os"
  by (simp_all add: bare_os_def)

lemma bare_posix: "posix_tty bare_os tty_attrs"
  by unfold_locales (auto simp: bare_os_simps split: if_splits list.splits option.splits)

text \<open>A line on which nothing comes.\<close>

definition silent_host :: "(tty, mem_disk) program" where
  "silent_host = fw_host\<lparr>link := (link fw_host)\<lparr>io := on_script zero_packet [] [] termios0\<rparr>\<rparr>"

definition bare_port :: "tty serial" where
  "bare_port = dev (on_script zero_packet [] [] raw_termios)"

lemma bare_opened:
  "serial_io_open bare_os (serial_device_path up_options) (sint (transfer_speed up_options))
     (dev (io (link silent_host))) = (3, bare_port)"
  by (simp add: serial_io_open_def bare_os_simps on_script_def tty_fd_def baud_of_speed_def Let_def raw_termios_def
      silent_host_def options0_def up_options_def bare_port_def)

interpretation bare_meter: metered_tty bare_os tty_attrs "\<lambda>w. length (tty_rx w)"
  using bare_posix
  by (simp add: metered_tty_def metered_tty_axioms_def bare_os_simps split: if_splits list.splits option.splits)

lemma bare_detached: "serial_detach bare_os bare_port = (- 1, bare_port)"
  by (simp add: serial_detach_def bare_os_simps on_script_def bare_port_def)

lemma detach_fails:
  assumes "parse_options args options0 = Inr opts" and "main_mode opts = MODE_UPLOAD"
    and "serial_io_open os (serial_device_path opts) (sint (transfer_speed opts)) (dev (io (link h))) = (p, t)"
    and "0 \<le> p" and "serial_detach os t = (r, t')" and "r < 0"
  shows "\<exists>h'. main os e root0 args h = Some (Exit 74, h') \<and> dev (io (link h')) = t'"
proof -
  define o1 where "o1 = (if match_config_index opts = 0 then opts\<lparr>match_config_index := - 1\<rparr> else opts)"
  have o1: "main_mode o1 = MODE_UPLOAD" "serial_device_path o1 = serial_device_path opts"
    "transfer_speed o1 = transfer_speed opts"
    using assms(2) by (simp_all add: o1_def)
  define h1 where "h1 = h\<lparr>link := (link h)\<lparr>qda_conf := Some (serial_conf os), io := (io (link h))\<lparr>dev := t'\<rparr>\<rparr>\<rparr>"
  have "open_stage os root0 o1 h = Some (Exit 74, h1)"
    using assms(4,6) o1(2,3)
    by (simp add: open_stage_def Let_def bindp_def on_link_def qda_init_def modifyp_def retp_def on_port_def assms(3)
        qda_dfu_detach_def serial_conf_def util_conf_def assms(5) fail_if_def exitp_def EX_IOERR_def h1_def)
  then have "main os e root0 args h = Some (Exit 74, h1)"
    using assms(1,2) o1(1) by (simp add: main_def Let_def o1_def [symmetric] load_stage_def bindp_def retp_def)
  then show ?thesis by (auto simp: h1_def)
qed

section \<open>Every run\<close>

text \<open>C5: over a POSIX terminal, with any device, file and line, a run of \<open>main\<close> that returns has
  accessed no memory outside its objects and returned 0 or exited with 0, 1, 64, 70 or 74, when
  the file is not standard input, the transfer size given is not negative, a page is at most 8186
  bytes, and in an upload at most 34 million bytes are still to come on the line. When it
  returns 0 and \<open>tcsetattr\<close> never fails on the port, the line has the attributes it had before;
  \<open>main\<close> returns 0 also when closing the port failed.\<close>

theorem main_safe:
  fixes os :: "'t tty_os" and left :: "'t \<Rightarrow> nat"
  assumes "posix_tty os attrs" and "0 < env_pagesize e" and "env_pagesize e \<le> 8186"
    and "parse_options args options0 = Inr opts" and "file_name (main_file opts) \<noteq> ''-''"
    and "0 \<le> sint (transfer_size opts)"
    and "main_mode opts = MODE_UPLOAD \<Longrightarrow>
      metered_tty os attrs left \<and> left (world (dev (io (link h)))) \<le> 34000000"
    and "xm_wf (io (link h))" and "length (qda_buf (link h)) = qda_buf_size"
    and "main os e root0 args h = Some (r, h')"
  shows "(r = Ret 0 \<and> line_restored os attrs (attrs (world (dev (io (link h))))) h') \<or>
    r \<in> {Exit 0, Exit 1, Exit 64, Exit 70, Exit 74}"
proof -
  let ?a = "attrs (world (dev (io (link h))))"
  have i: "init_ok attrs ?a h"
    using assms(8,9) by (simp add: init_ok_def)
  have "good (\<lambda>r h'. r = 0 \<and> line_restored os attrs ?a h') (\<lambda>c _. c \<in> exit_codes) (r, h')"
  proof (cases "main_mode opts = MODE_UPLOAD")
    case True
    have "valid (\<lambda>h. init_ok attrs ?a h \<and> few_left left h) (main os e root0 args)
        (\<lambda>r h. r = 0 \<and> line_restored os attrs ?a h) (\<lambda>c _. c \<in> exit_codes)"
      by (rule metered_tty.main_metered [OF conjunct1 [OF assms(7) [OF True]] assms(2,3)]) (use assms(4-6) in simp)
    then show ?thesis using i assms(7) [OF True] assms(10) unfolding valid_good by blast
  next
    case False
    have "valid (init_ok attrs ?a) (main os e root0 args)
        (\<lambda>r h. r = 0 \<and> line_restored os attrs ?a h) (\<lambda>c _. c \<in> exit_codes)"
      by (rule posix_tty.main_no_upload [OF assms(1-3)]) (use assms(4-6) False in simp)
    then show ?thesis using i assms(10) unfolding valid_good by blast
  qed
  then show ?thesis by (cases r) (auto simp: good_def exit_codes_def)
qed

theorem main_safe_witness:
  "\<exists>r h'. main bare_os no_sleep root_zero up_args silent_host = Some (r, h') \<and>
     ((r = Ret 0 \<and> line_restored bare_os tty_attrs (tty_attrs (world (dev (io (link silent_host))))) h') \<or>
      r \<in> {Exit 0, Exit 1, Exit 64, Exit 70, Exit 74})"
proof -
  obtain h' where h': "main bare_os no_sleep root_zero up_args silent_host = Some (Exit 74, h')"
    using detach_fails [OF up_args_parsed _ bare_opened _ bare_detached, of no_sleep root_zero]
    by (auto simp: up_options_def)
  have "metered_tty bare_os tty_attrs (\<lambda>w. length (tty_rx w)) \<and>
      length (tty_rx (world (dev (io (link silent_host))))) \<le> 34000000"
    using bare_meter.metered_tty_axioms by (simp add: silent_host_def)
  from main_safe [OF bare_posix _ _ up_args_parsed _ _ this _ _ h'] h' show ?thesis
    by (auto simp: up_options_def options0_def no_sleep_def fw_host_def silent_host_def script_host_def qda_buf_size_def
        xm_wf_def zero_packet_def pkt_wf_def)
qed

text \<open>C6: on a line that delivers finitely many bytes every run of \<open>main\<close> ends, whatever the
  bytes are and whatever the options, the file system and the modem lines do: each turn of the
  loops over the status of the device, over the blocks of a transfer and over the manifestation
  needs a response, and a line that has fallen silent gives none.\<close>

theorem main_terminates:
  assumes "line_tty os attrs fd rx"
    and "xm_wf (io (link h))" and "length (qda_buf (link h)) = qda_buf_size"
  shows "\<exists>r h'. main os e root0 args h = Some (r, h')"
proof -
  obtain r h' where "main os e root0 args h = Some (r, h')"
    by (rule haltsE [OF line_tty.main_returns [OF assms(1)], of h]) (use assms(2,3) in auto)
  then show ?thesis by blast
qed

text \<open>A line with noise, the start of a transfer, and an acknowledgement.\<close>

definition noisy_host :: "(tty, mem_disk) program" where
  "noisy_host = fw_host\<lparr>link := (link fw_host)\<lparr>io := on_script zero_packet
     [Some 0x55, None, Some char_C, Some ACK, Some SOH, None, Some 0x55, Some ACK] [] termios0\<rparr>\<rparr>"

theorem main_terminates_witness:
  "\<exists>r h'. main script_os no_sleep root_zero fw_args noisy_host = Some (r, h')"
  by (rule main_terminates [OF script_line.line_tty_axioms])
    (simp_all add: noisy_host_def fw_host_def script_host_def xm_wf_def zero_packet_def pkt_wf_def qda_buf_size_def)

section \<open>A device in its error state\<close>

text \<open>C33: a device that stays in \<open>dfuERROR\<close> until its status is cleared keeps the program in the
  loop at \<open>status_again\<close> for ever: what should clear the status asks for the state instead.\<close>

theorem error_state_never_cleared:
  assumes "\<And>d. J d \<Longrightarrow> exchanges c Get_Status (Status_Resp t a 10) J d"
    and "\<And>d. J d \<Longrightarrow> exchanges c Get_State (State_Resp b) J d"
    and "ready c J (link h)"
  shows "status_again qda_ops e dst h = None"
  by (rule status_again_stuck [OF assms])

text \<open>
  A device that is in \<open>dfuERROR\<close> until it is sent \<open>Clr_Status\<close>, as a transport: its state is the
  last request and whether the status was cleared.
\<close>

definition stuck_conf :: "(u8 list \<times> bool) qda_conf" where
  "stuck_conf = \<lparr>conf_send = (\<lambda>bs (q, ok). Some (0, (bs, ok \<or> bs = enc_req Clr_Status))),
     conf_receive = (\<lambda>buf (q, ok). let st = (if ok then 2 else 10);
        resp = enc_resp (if q = enc_req Get_Status then Status_Resp 0 0 st
          else if q = enc_req Get_State then State_Resp st else Ack)
        in Some ((length resp, mem_write buf 0 resp), (q, ok))), conf_detach = (\<lambda>d. (0, d))\<rparr>"

definition stuck_host :: "((u8 list \<times> bool) qda, mem_disk) host" where
  "stuck_host = \<lparr>link = \<lparr>qda_conf = Some stuck_conf, qda_buf = replicate 8192 0, io = ([], False)\<rparr>, env = empty_disk\<rparr>"

lemma stuck_exchange:
  assumes "resp = enc_resp (if enc_req q = enc_req Get_Status then Status_Resp 0 0 10
      else if enc_req q = enc_req Get_State then State_Resp 10 else Ack)"
    and "resp = enc_resp r" and "length resp < 8192" and "enc_req q = enc_req Clr_Status \<longrightarrow> r = Ack"
    and "\<not> snd d" and "S (enc_req q, enc_req q = enc_req Clr_Status)"
  shows "exchanges stuck_conf q r S d"
proof -
  obtain p where d: "d = (p, False)" using assms(5) by (cases d) auto
  have "conf_send stuck_conf (enc_req q) d = Some (0, (enc_req q, enc_req q = enc_req Clr_Status))"
    by (simp add: stuck_conf_def d)
  moreover have "conf_receive stuck_conf buf (enc_req q, enc_req q = enc_req Clr_Status) =
      Some ((length resp, mem_write buf 0 (resp @ [])), (enc_req q, enc_req q = enc_req Clr_Status))" for buf
    using assms(1,4) by (auto simp: stuck_conf_def Let_def le32_inj)
  ultimately show ?thesis
    using assms(2,3,6) unfolding exchanges_def qda_buf_size_def
    by (intro exI [of _ 0] exI [of _ "(enc_req q, enc_req q = enc_req Clr_Status)"] conjI allI impI
        exI [of _ "length resp"] exI [of _ "[]"]) simp_all
qed

theorem error_state_never_cleared_witness:
  "status_again qda_ops no_sleep dfu_status0 stuck_host = None \<and>
   (\<exists>u. qda_dfu_clrstatus (link stuck_host) = Some (Ret 0, u) \<and> snd (io u))"
proof
  have st: "exchanges stuck_conf Get_Status (Status_Resp 0 0 10) (\<lambda>d. \<not> snd d) d" if "\<not> snd d" for d
    by (rule stuck_exchange [OF refl]) (use that in \<open>simp_all add: le32_inj\<close>)
  have gs: "exchanges stuck_conf Get_State (State_Resp 10) (\<lambda>d. \<not> snd d) d" if "\<not> snd d" for d
    by (rule stuck_exchange [OF refl]) (use that in \<open>simp_all add: le32_inj\<close>)
  show "status_again qda_ops no_sleep dfu_status0 stuck_host = None"
    by (rule error_state_never_cleared [OF st gs]) (simp_all add: ready_def stuck_host_def qda_buf_size_def)
  have "exchanges stuck_conf Clr_Status Ack snd ([], False)"
    by (rule stuck_exchange [OF refl]) (simp_all add: le32_inj)
  then have "ready stuck_conf (exchanges stuck_conf Clr_Status Ack snd) (link stuck_host)"
    by (simp add: ready_def stuck_host_def qda_buf_size_def)
  then show "\<exists>u. qda_dfu_clrstatus (link stuck_host) = Some (Ret 0, u) \<and> snd (io u)"
    by (rule clrstatus_exchange) (auto simp: ack_result_def ready_def)
qed

section \<open>The transfer size\<close>

text \<open>C29: the transfer size is the user's, or else the device's, limited to a page and raised to
  \<open>bMaxPacketSize0\<close>; there is none exactly when both are 0.\<close>

theorem transfer_size_clamped:
  assumes "0 < pg" and "pg < 2 ^ 31" and "0 \<le> sint user"
  shows "choose_transfer_size pg root user =
    (let n = (if user = 0 then uint (wTransferSize (func_dfu root)) else uint user) in
     if n = 0 then None else Some (word_of_int (max (min n pg) (uint (bMaxPacketSize0 root)))))"
proof -
  define u where "u = (if user = 0 then ucast (wTransferSize (func_dfu root)) else user :: u32)"
  let ?b = "ucast (bMaxPacketSize0 root) :: u32"
  have "0 \<le> sint u" using assms(3) uint_ge_0 by (simp add: u_def sint_ucast)
  then have u: "sint u = uint u" using sint_nonneg [of u] by simp
  have n: "uint u = (if user = 0 then uint (wTransferSize (func_dfu root)) else uint user)"
    using sint_ucast(1) [of "wTransferSize (func_dfu root)"] u by (auto simp: u_def)
  have pg: "uint (word_of_int pg :: u32) = pg" using assms(1,2) by (simp add: uint_word_of_int)
  have z: "u = 0 \<longleftrightarrow> uint u = 0" by (simp add: unsigned_eq_0_iff)
  have e: "u = ?b" if "uint u = uint (bMaxPacketSize0 root)"
    by (simp only: word_uint_eq_iff that uint_ucast_u8)
  show ?thesis
    unfolding n [symmetric] Let_def choose_transfer_size_def libusb_cpu_to_le16 u_def [symmetric]
    by (auto simp: z u word_less_def pg uint_ucast_u8 max_def min_def dest: e)
qed

theorem transfer_size_clamped_witness:
  "choose_transfer_size 4096 root_zero 65535 = Some 4096 \<and> choose_transfer_size 4096 root_zero 0 = None"
  using transfer_size_clamped [of 4096 65535 root_zero] transfer_size_clamped [of 4096 0 root_zero]
  by (simp add: root_zero_def)

lemma parse_size: "parse_option (CHR ''t'') a opts = Inr (opts\<lparr>transfer_size := word_of_int (atoi a)\<rparr>)"
  by (simp add: parse_option_def)

text \<open>A negative size given with \<open>-t\<close> passes these tests. With \<open>-t -65535\<close> a device that
  takes its first block, of one byte, makes \<open>dfuload_do_dnload\<close> step its pointer to before the
  buffer.\<close>

lemma negative_size_undefined:
  assumes "parse_option (CHR ''t'') ''-65535'' opts = Inr opts'" and "0 < pg"
    and "ready c (exchanges c (Dnload 0 [b]) Ack S) (link h)"
    and "firmware f = b # bs" and "0 < size_total f - size_suffix f"
  shows "\<exists>n h'. choose_transfer_size pg root (transfer_size opts') = Some n \<and>
    dfuload_do_dnload qda_ops e (sint n) f h = Some (Undef, h')"
proof -
  have "atoi ''-65535'' = - 65535"
    by (simp add: atoi_def scan_number_def split_sign_def split_base_def digits_value_def digit_val_def
        is_space_def to_int_def)
  then have n: "transfer_size opts' = word_of_int (- 65535)"
    using assms(1) by (auto simp: parse_size)
  have big: "\<not> (word_of_int (- 65535) :: u32) < ucast (bMaxPacketSize0 root)"
    using uint_lt2p [of "bMaxPacketSize0 root"] by (simp add: word_less_def uint_ucast_u8 uint_word_of_int)
  have sn: "sint (word_of_int (- 65535) :: u32) = - 65535" by simp
  have c: "choose_transfer_size pg root (transfer_size opts') = Some (word_of_int (- 65535))"
    using assms(2) big sn by (simp add: choose_transfer_size_def Let_def n)
  obtain u where u: "qda_dfu_download 1 0 (Some (b # bs)) (link h) = Some (Ret (ack_result Ack), u)"
    by (rule download_exchange [OF assms(3), of "Some (b # bs)" 1]) (auto simp: qda_buf_size_def)
  have l: "on_link (qda_dfu_download 1 0 (Some (b # bs))) h = Some (Ret 0, h\<lparr>link := u\<rparr>)"
    using u by (simp add: on_link_def ack_result_def)
  have m: "chunk_size (size_total f - size_suffix f) 0 (- 65535) = - 65535"
    using assms(5) by (simp add: chunk_size_def)
  have w: "(- 65535 :: u16) = 1" by simp
  have "dnload_loop qda_ops e f (- 65535) (size_total f - size_suffix f) 0 0 dfu_status0 h = Some (Undef, h\<lparr>link := u\<rparr>)"
    using assms(4,5) l by (subst dnload_loop.simps) (simp add: m w undefp_def)
  then have "dfuload_do_dnload qda_ops e (- 65535) f h = Some (Undef, h\<lparr>link := u\<rparr>)"
    by (simp add: dfuload_do_dnload_def Let_def bindp_def)
  then show ?thesis using c sn by (intro exI [of _ "word_of_int (- 65535)"]) auto
qed

lemma negative_size_undefined_example:
  "\<exists>opts n h'. parse_option (CHR ''t'') ''-65535'' options0 = Inr opts \<and>
     choose_transfer_size 4096 root_zero (transfer_size opts) = Some n \<and>
     dfuload_do_dnload qda_ops no_sleep (sint n) sample_file
       \<lparr>link = script_host [(Dnload 0 [1], Ack)], env = empty_disk\<rparr> = Some (Undef, h')"
proof -
  obtain opts where o: "parse_option (CHR ''t'') ''-65535'' options0 = Inr opts"
    unfolding parse_size by blast
  have r: "ready (serial_conf script_os) (exchanges (serial_conf script_os) (Dnload 0 [1]) Ack
      (\<lambda>y. line_input tty_fd tty_rx (dev y) = [] \<and> xm_wf y))
      (link \<lparr>link = script_host [(Dnload 0 [1], Ack)], env = empty_disk\<rparr>)"
    using script_exchange [of "Dnload 0 [1]" Ack] by simp
  from negative_size_undefined [OF o _ r, of 4096 sample_file "[2, 3]" root_zero no_sleep] o
  show ?thesis by (auto simp: sample_file_def dfu_file0_def)
qed

section \<open>Identifiers that were never read\<close>

text \<open>What \<open>open_stage\<close> fills in: the transfer size, the version and the alternate setting.\<close>

lemma dfu_desc_keeps:
  assumes "qda_get_dfu_desc dif s = Some (Ret (r, dif'), u)"
  shows "\<exists>d. dif' = dif\<lparr>func_dfu := d\<rparr>"
  using assms
  by (auto simp: qda_get_dfu_desc_def put_type_def put_at_def transact_def fail_if_def bindp_def modifyp_def
      getp_def retp_def split: option.splits prod.splits res.splits if_splits
      intro: exI [of _ "func_dfu dif"])

lemma open_stage_keeps:
  fixes os :: "'t tty_os"
  assumes "open_stage os root0 opts h = Some (Ret root, h')"
  shows "\<exists>d. root = root0\<lparr>altsetting := word_of_int (match_iface_alt_index opts), func_dfu := d\<rparr>"
proof -
  let ?r = "root0\<lparr>altsetting := word_of_int (match_iface_alt_index opts)\<rparr>"
  have "\<exists>(s :: 't serial xm qda) ret u. qda_get_dfu_desc ?r s = Some (Ret (ret, root), u)"
    using assms
    by (auto simp: open_stage_def Let_def bindp_def on_link_def exitp_def retp_def
        split: option.splits prod.splits res.splits if_splits)
  then obtain d where "root = ?r\<lparr>func_dfu := d\<rparr>" using dfu_desc_keeps by blast
  then show ?thesis by auto
qed

text \<open>C37: \<open>main\<close> never asks the device for its vendor and product. A file with identifiers in its
  suffix is compared with what was on the stack, and refused with 74 when it differs there,
  whatever the device is.\<close>

theorem ids_uninitialised:
  assumes "open_stage os root0 opts h = Some (Ret root, h')" and "main_mode opts = MODE_DOWNLOAD"
    and "choose_transfer_size (env_pagesize e) root (transfer_size opts) \<noteq> None"
    and "idVendor (main_file opts) \<notin> {0xffff, vendor root0} \<or> idProduct (main_file opts) \<notin> {0xffff, product root0}"
  shows "transfer_stage qda_build e opts root (vendor root) (product root) k = Some (Exit 74, k)"
proof -
  obtain d where r: "root = root0\<lparr>altsetting := word_of_int (match_iface_alt_index opts), func_dfu := d\<rparr>"
    using open_stage_keeps [OF assms(1)] by blast
  have "id_mismatch (main_file opts) (vendor root) (product root)"
    using assms(4) by (auto simp: id_mismatch_def r)
  then show ?thesis
    using assms(2,3)
    by (auto simp: transfer_stage_def download_stage_def Let_def exitp_def EX_IOERR_def)
qed

theorem ids_uninitialised_witness:
  "\<exists>root h'. open_stage script_os root_zero (fw_options\<lparr>main_file := sample_file\<rparr>) fw_host = Some (Ret root, h') \<and>
     transfer_stage qda_build no_sleep (fw_options\<lparr>main_file := sample_file\<rparr>) root (vendor root) (product root) h' = Some (Exit 74, h')"
proof -
  let ?o = "fw_options\<lparr>main_file := sample_file\<rparr>"
  let ?S = "\<lambda>y. line_input tty_fd tty_rx (dev y) = [] \<and> xm_wf y"
  obtain t t' where t: "serial_io_open script_os (Some tty_path) 115200 (dev (io (link fw_host))) = (3, t)"
    "serial_detach script_os t = (0, t')" "dialogue (serial_conf script_os) fw_session ?S ((io (link fw_host))\<lparr>dev := t'\<rparr>)"
    by (rule fw_opened)
  have "\<exists>h'. open_stage script_os root_zero ?o fw_host = Some (Ret (root_zero\<lparr>altsetting := - 1,
      func_dfu := (func_dfu root_zero)\<lparr>wTransferSize := 2, bcdDFUVersion := 0x110\<rparr>\<rparr>), h')"
    using open_stage_run [where os = script_os and opts = ?o and h = fw_host and p = 3 and t = t and r = 0 and t' = t'
        and n = 9 and a = 1 and to = 0 and sz = 2 and v = "0x110" and qrs = "drop 1 fw_session" and S = ?S
        and ?root0.0 = root_zero] t
    by (simp add: fw_options_def options0_def fw_host_def fw_session_def main_session_def script_host_def
        qda_buf_size_def) blast
  then obtain h' where h': "open_stage script_os root_zero ?o fw_host = Some (Ret (root_zero\<lparr>altsetting := - 1,
      func_dfu := (func_dfu root_zero)\<lparr>wTransferSize := 2, bcdDFUVersion := 0x110\<rparr>\<rparr>), h')" by blast
  let ?r = "root_zero\<lparr>altsetting := - 1, func_dfu := (func_dfu root_zero)\<lparr>wTransferSize := 2, bcdDFUVersion := 0x110\<rparr>\<rparr>"
  have "transfer_stage qda_build no_sleep ?o ?r (vendor ?r) (product ?r) h' = Some (Exit 74, h')"
    by (rule ids_uninitialised [OF h'])
      (simp_all add: fw_options_def options0_def choose_transfer_size_def Let_def root_zero_def sample_file_def
        dfu_file0_def no_sleep_def)
  with h' show ?thesis by blast
qed

section \<open>Exits with the port open\<close>

text \<open>An exit after the port was opened does not close it. When the pulse that detaches the
  device fails, the program ends with 74 and the line keeps the raw attributes it was given,
  not those it had.\<close>

lemma exit_leaves_line_raw:
  assumes "posix_tty os attrs" and "parse_options args options0 = Inr opts" and "main_mode opts = MODE_UPLOAD"
    and "serial_io_open os (serial_device_path opts) (sint (transfer_speed opts)) (dev (io (link h))) = (p, t)"
    and "0 \<le> p" and "serial_detach os t = (r, t')" and "r < 0"
  shows "\<exists>h' b. main os e root0 args h = Some (Exit 74, h') \<and>
    baud_of_speed (sint (transfer_speed opts)) = Some b \<and>
    attrs (world (dev (io (link h')))) = serial_tio\<lparr>c_ospeed := b, c_ispeed := b\<rparr>"
proof -
  obtain b where b: "baud_of_speed (sint (transfer_speed opts)) = Some b"
    "attrs (world t) = serial_tio\<lparr>c_ospeed := b, c_ispeed := b\<rparr>"
    using posix_tty.open_saves(3) [OF assms(1,4,5)] by blast
  have "attrs (world t') = attrs (world t)"
    using assms(6) posix_tty.tiocmget_attrs [OF assms(1)] posix_tty.tiocmset_attrs [OF assms(1)]
      posix_tty.usleep_attrs [OF assms(1)]
    by (auto simp: serial_detach_def Let_def split: prod.splits if_splits) (metis snd_conv)+
  with b detach_fails [OF assms(2-7), of e root0] show ?thesis by auto
qed

lemma exit_leaves_line_raw_example:
  "\<exists>h'. main bare_os no_sleep root_zero up_args silent_host = Some (Exit 74, h') \<and>
     tty_attrs (world (dev (io (link h')))) \<noteq> tty_attrs (world (dev (io (link silent_host))))"
  using exit_leaves_line_raw [OF bare_posix up_args_parsed _ bare_opened _ bare_detached, of no_sleep root_zero]
  by (auto simp: up_options_def silent_host_def on_script_def serial_tio_def termios0_def)

end
