(* ===== verification/Dfu_Usb.thy ===== *)
theory Dfu_Usb
  imports Dfu_Main
begin

unbundle bit_operations_syntax

text \<open>
  The main program in its build without \<open>USE_QDA\<close>, for devices on the USB: the parts of
  src/main.c that the QDA build replaces, composed with those both builds have. libusb and
  the files dfu.c, dfu_util.c and dfuse.c, which are not in the repository, are the parameter
  \<open>u\<close>. What is printed is left out.
\<close>

section \<open>The command line\<close>

record usb_options = options +
  detach_delay :: int
  dfuse_arg :: "string option"
  match_bus :: int
  match_device :: int

definition usb_options0 :: usb_options where
  "usb_options0 = options.extend options0
     \<lparr>detach_delay = 5, dfuse_arg = None, match_bus = - 1, match_device = - 1\<rparr>"

definition EINVAL :: int where "EINVAL = 22"

text \<open>
  The path of a device: \<open>usbpath\<close> is \<open>usb_path2devnum\<close> where that library is there. The
  value is the result, \<open>Inl\<close> the exit of the version without the library.
\<close>

definition resolve_device_path ::
  "(string \<Rightarrow> int) option \<Rightarrow> string \<Rightarrow> usb_options \<Rightarrow> int + int \<times> usb_options" where
  "resolve_device_path usbpath path opts = (case usbpath of
       None \<Rightarrow> Inl EX_SOFTWARE
     | Some f \<Rightarrow> let res = f path in
         if res < 0 then Inr (- EINVAL, opts)
         else if res = 0 then Inr (0, opts)
         else Inr (0, opts\<lparr>match_bus := atoi path, match_device := res\<rparr>))"

text \<open>One turn of the option loop in this build; \<open>help\<close> ends the program.\<close>

definition parse_usb_option ::
  "(string \<Rightarrow> int) option \<Rightarrow> char \<Rightarrow> string \<Rightarrow> usb_options \<Rightarrow> int + usb_options" where
  "parse_usb_option usbpath c optarg opts =
     (if c = CHR ''h'' then Inl EX_USAGE
      else if c = CHR ''V'' then Inr (opts\<lparr>main_mode := MODE_VERSION\<rparr>)
      else if c = CHR ''v'' then Inr (opts\<lparr>verbose := verbose opts + 1\<rparr>)
      else if c = CHR ''l'' then Inr (opts\<lparr>main_mode := MODE_LIST\<rparr>)
      else if c = CHR ''e'' then
        Inr (opts\<lparr>main_mode := MODE_DETACH, match_iface_alt_index := 0, match_iface_index := 0\<rparr>)
      else if c = CHR ''E'' then Inr (opts\<lparr>detach_delay := atoi optarg\<rparr>)
      else if c = CHR ''d'' then Inr (parse_vendprod optarg opts)
      else if c = CHR ''p'' then
        (case resolve_device_path usbpath optarg opts of Inl n \<Rightarrow> Inl n
         | Inr (ret, opts) \<Rightarrow>
             if ret < 0 then Inl EX_SOFTWARE
             else if ret = 0 then Inl EX_SOFTWARE
             else Inr opts)
      else if c = CHR ''c'' then Inr (opts\<lparr>match_config_index := atoi optarg\<rparr>)
      else if c = CHR ''i'' then Inr (opts\<lparr>match_iface_index := atoi optarg\<rparr>)
      else if c = CHR ''a'' then
        (case strtoul 0 optarg of (v, end_) \<Rightarrow>
           if end_ \<noteq> [] then Inr (opts\<lparr>match_iface_alt_name := Some optarg, match_iface_alt_index := - 1\<rparr>)
           else Inr (opts\<lparr>match_iface_alt_index := to_int (int v)\<rparr>))
      else if c = CHR ''S'' then Inr (parse_serial optarg opts)
      else if c = CHR ''t'' then Inr (opts\<lparr>transfer_size := word_of_int (atoi optarg)\<rparr>)
      else if c = CHR ''U'' then
        Inr (opts\<lparr>main_mode := MODE_UPLOAD, main_file := (main_file opts)\<lparr>file_name := optarg\<rparr>\<rparr>)
      else if c = CHR ''Z'' then Inr (opts\<lparr>expected_size := atoi optarg\<rparr>)
      else if c = CHR ''D'' then
        Inr (opts\<lparr>main_mode := MODE_DOWNLOAD, main_file := (main_file opts)\<lparr>file_name := optarg\<rparr>\<rparr>)
      else if c = CHR ''R'' then Inr (opts\<lparr>final_reset := True\<rparr>)
      else if c = CHR ''s'' then Inr (opts\<lparr>dfuse_arg := Some optarg\<rparr>)
      else Inl EX_USAGE)"

primrec parse_usb_options ::
  "(string \<Rightarrow> int) option \<Rightarrow> (char \<times> string) list \<Rightarrow> usb_options \<Rightarrow> int + usb_options" where
  "parse_usb_options usbpath [] opts = Inr opts"
| "parse_usb_options usbpath (a # args) opts = (case parse_usb_option usbpath (fst a) (snd a) opts of
     Inl c \<Rightarrow> Inl c | Inr opts \<Rightarrow> parse_usb_options usbpath args opts)"

definition usb_short_opts :: string where
  "usb_short_opts = ''hVvleE:d:p:c:i:a:S:t:U:D:Rs:Z:''"

definition usb_long_opts :: "(string \<times> bool \<times> char) list" where
  "usb_long_opts = [
     (''help'', False, CHR ''h''), (''version'', False, CHR ''V''), (''verbose'', False, CHR ''v''),
     (''list'', False, CHR ''l''), (''detach'', False, CHR ''e''), (''detach-delay'', True, CHR ''E''),
     (''device'', True, CHR ''d''), (''path'', True, CHR ''p''), (''configuration'', True, CHR ''c''),
     (''cfg'', True, CHR ''c''), (''interface'', True, CHR ''i''), (''intf'', True, CHR ''i''),
     (''altsetting'', True, CHR ''a''), (''alt'', True, CHR ''a''), (''serial'', True, CHR ''S''),
     (''transfer-size'', True, CHR ''t''), (''upload'', True, CHR ''U''), (''upload-size'', True, CHR ''Z''),
     (''download'', True, CHR ''D''), (''reset'', False, CHR ''R''), (''dfuse-address'', True, CHR ''s'')]"

section \<open>Devices and libusb\<close>

text \<open>
  The members of \<open>struct dfu_if\<close> that main.c uses beyond those qda.h copies: the device, the
  handle, \<open>None\<close> for \<open>NULL\<close>, and the flags. The list at \<open>dfu_root\<close> and the USB are the state.
\<close>

record ('d, 'h) usb_if = qda_if +
  usb_dev :: 'd
  dev_handle :: "'h option"
  usb_flags :: u32

record ('d, 'h, 'u) usb =
  roots :: "('d, 'h) usb_if list"
  bus :: 'u

text \<open>
  The calls, each on a handle with the number of the interface where it has one.
  \<open>libusb_open\<close> takes and returns the content of the variable for the handle, \<open>probe_devices\<close>
  the list it extends; an upload takes the buffer and returns the new one.
\<close>

record ('d, 'h, 'u, 'w) usb_os =
  libusb_init :: "'u \<Rightarrow> int \<times> 'u"
  libusb_set_debug :: "'u \<Rightarrow> 'u"
  libusb_exit :: "'u \<Rightarrow> 'u"
  probe_devices :: "usb_options \<Rightarrow> ('d, 'h) usb_if list \<Rightarrow> 'u \<Rightarrow> ('d, 'h) usb_if list \<times> 'u"
  disconnect_devices :: "('d, 'h) usb_if list \<Rightarrow> 'u \<Rightarrow> ('d, 'h) usb_if list \<times> 'u"
  libusb_open :: "'d \<Rightarrow> 'h option \<Rightarrow> 'u \<Rightarrow> (int \<times> 'h option) \<times> 'u"
  libusb_close :: "'h \<Rightarrow> 'u \<Rightarrow> 'u"
  libusb_claim_interface :: "'h \<Rightarrow> u8 \<Rightarrow> 'u \<Rightarrow> int \<times> 'u"
  libusb_release_interface :: "'h \<Rightarrow> u8 \<Rightarrow> 'u \<Rightarrow> int \<times> 'u"
  libusb_set_interface_alt_setting :: "'h \<Rightarrow> u8 \<Rightarrow> u8 \<Rightarrow> 'u \<Rightarrow> int \<times> 'u"
  libusb_reset_device :: "'h \<Rightarrow> 'u \<Rightarrow> int \<times> 'u"
  usb_get_status :: "'h \<Rightarrow> ('d, 'h) usb_if \<Rightarrow> dfu_status \<Rightarrow> 'u \<Rightarrow> (int \<times> dfu_status) \<times> 'u"
  usb_clear_status :: "'h \<Rightarrow> u8 \<Rightarrow> 'u \<Rightarrow> int \<times> 'u"
  usb_abort :: "'h \<Rightarrow> u8 \<Rightarrow> 'u \<Rightarrow> int \<times> 'u"
  usb_detach :: "'h \<Rightarrow> u8 \<Rightarrow> 'u \<Rightarrow> int \<times> 'u"
  usb_download :: "'h \<Rightarrow> u8 \<Rightarrow> u16 \<Rightarrow> u8 list \<Rightarrow> 'u \<Rightarrow> int \<times> 'u"
  usb_upload :: "'h \<Rightarrow> u8 \<Rightarrow> u16 \<Rightarrow> u8 list \<Rightarrow> 'u \<Rightarrow> (int \<times> u8 list) \<times> 'u"
  dfuse_do_upload :: "('d, 'h) usb_if \<Rightarrow> int \<Rightarrow> int \<Rightarrow> string option \<Rightarrow> (('d, 'h, 'u) usb, 'w) host \<Rightarrow>
    (int res \<times> (('d, 'h, 'u) usb, 'w) host) option"
  dfuse_do_dnload :: "('d, 'h) usb_if \<Rightarrow> int \<Rightarrow> dfu_file \<Rightarrow> string option \<Rightarrow> (('d, 'h, 'u) usb, 'w) host \<Rightarrow>
    (int res \<times> (('d, 'h, 'u) usb, 'w) host) option"
  nanosleep_ms :: "int \<Rightarrow> 'w \<Rightarrow> 'w"
  libusb_error_pipe :: int
  libusb_error_not_found :: int
  dfu_iff_dfu :: u32

text \<open>\<open>USB_DFU_WILL_DETACH\<close> of usb_dfu.h.\<close>

abbreviation (input) USB_DFU_WILL_DETACH :: u8 where "USB_DFU_WILL_DETACH \<equiv> 8"

definition on_bus :: "('u \<Rightarrow> 'a \<times> 'u) \<Rightarrow> (('d, 'h, 'u) usb, 'a) prog" where
  "on_bus f s = (case f (bus s) of (a, t) \<Rightarrow> Some (Ret a, s\<lparr>bus := t\<rparr>))"

definition with_handle :: "('h \<Rightarrow> 'u \<Rightarrow> 'a \<times> 'u) \<Rightarrow> ('d, 'h) usb_if \<Rightarrow> (('d, 'h, 'u) usb, 'a) prog" where
  "with_handle f r = (case dev_handle r of None \<Rightarrow> undefp | Some h \<Rightarrow> on_bus (f h))"

definition set_root :: "('d, 'h) usb_if \<Rightarrow> (('d, 'h, 'u) usb, unit) prog" where
  "set_root r = modifyp (\<lambda>s. s\<lparr>roots := r # tl (roots s)\<rparr>)"

text \<open>The requests to the device \<open>r\<close>; a download reads \<open>len\<close> bytes at its pointer.\<close>

definition usb_ops :: "('d, 'h, 'u, 'w) usb_os \<Rightarrow> ('d, 'h) usb_if \<Rightarrow> ('d, 'h, 'u) usb dfu_ops" where
  "usb_ops u r = \<lparr>
     dfu_download = (\<lambda>len n src. case src of
         None \<Rightarrow> if len \<noteq> 0 then undefp else with_handle (\<lambda>h. usb_download u h (interface r) n []) r
       | Some d \<Rightarrow> if length d < unat len then undefp
           else with_handle (\<lambda>h. usb_download u h (interface r) n (take (unat len) d)) r),
     dfu_upload = (\<lambda>len n buf. if length buf < unat len then undefp else
       bindp (with_handle (\<lambda>h. usb_upload u h (interface r) n (take (unat len) buf)) r) (\<lambda>(rc, bs).
       retp (rc, mem_write buf 0 bs))),
     dfu_get_status = (\<lambda>st. with_handle (\<lambda>h. usb_get_status u h r st) r),
     dfu_clear_status = with_handle (\<lambda>h. usb_clear_status u h (interface r)) r,
     dfu_abort = with_handle (\<lambda>h. usb_abort u h (interface r)) r,
     dfu_detach = with_handle (\<lambda>h. usb_detach u h (interface r)) r,
     set_interface_alt_setting = (\<lambda>alt. with_handle (\<lambda>h. libusb_set_interface_alt_setting u h (interface r) alt) r),
     reset_device = with_handle (libusb_reset_device u) r\<rparr>"

section \<open>Finding the device\<close>

definition usb_probe :: "('d, 'h, 'u, 'w) usb_os \<Rightarrow> usb_options \<Rightarrow> (('d, 'h, 'u) usb, unit) prog" where
  "usb_probe u opts s = (case probe_devices u opts (roots s) (bus s) of
     (rs, t) \<Rightarrow> Some (Ret (), s\<lparr>roots := rs, bus := t\<rparr>))"

text \<open>None, or more than one, ends the program.\<close>

definition one_root :: "(('d, 'h, 'u) usb, ('d, 'h) usb_if) prog" where
  "one_root s = (case roots s of [] \<Rightarrow> exitp EX_IOERR s
     | r # rs \<Rightarrow> if rs \<noteq> [] then exitp EX_IOERR s else retp r s)"

definition open_root :: "('d, 'h, 'u, 'w) usb_os \<Rightarrow> ('d, 'h) usb_if \<Rightarrow> (('d, 'h, 'u) usb, ('d, 'h) usb_if) prog" where
  "open_root u r =
     bindp (on_bus (libusb_open u (usb_dev r) (dev_handle r))) (\<lambda>(ret, h).
     let r = r\<lparr>dev_handle := h\<rparr> in
     bindp (set_root r) (\<lambda>_. if ret \<noteq> 0 \<or> h = None then exitp EX_IOERR else retp r))"

section \<open>From runtime mode to DFU mode\<close>

definition runtime_status ::
  "('d, 'h, 'u, 'w) usb_os \<Rightarrow> ('d, 'h) usb_if \<Rightarrow> (('d, 'h, 'u) usb, dfu_status) prog" where
  "runtime_status u r =
     bindp (dfu_get_status (usb_ops u r) dfu_status0) (\<lambda>(err, status).
     if err = libusb_error_pipe u then
       retp \<lparr>bStatus = DFU_STATUS_OK, bwPollTimeout = 0, bState = DFU_STATE_appIDLE, iString = 0\<rparr>
     else if err < 0 then exitp EX_IOERR else retp status)"

definition detach_runtime :: "('d, 'h, 'u, 'w) usb_os \<Rightarrow> ('d, 'h) usb_if \<Rightarrow> (('d, 'h, 'u) usb, unit) prog" where
  "detach_runtime u r =
     bindp (dfu_detach (usb_ops u r)) (\<lambda>_.
     if bmAttributes (func_dfu r) AND USB_DFU_WILL_DETACH \<noteq> 0 then retp ()
     else bindp (reset_device (usb_ops u r)) (\<lambda>ret.
       if ret < 0 \<and> ret \<noteq> libusb_error_not_found u then exitp EX_IOERR else retp ()))"

text \<open>Up to \<open>goto dfustate\<close>, when the value is \<open>True\<close>, or to the end of the switch.\<close>

definition runtime_stage ::
  "('d, 'h, 'u, 'w) usb_os \<Rightarrow> 'w env_os \<Rightarrow> ('d, 'h) usb_if \<Rightarrow> ((('d, 'h, 'u) usb, 'w) host, bool) prog" where
  "runtime_stage u e r =
     bindp (on_link (with_handle (\<lambda>h. libusb_claim_interface u h (interface r)) r)) (\<lambda>ret.
     if ret < 0 then exitp EX_IOERR
     else bindp (on_link (set_interface_alt_setting (usb_ops u r) 0)) (\<lambda>ret.
       if ret < 0 then exitp EX_IOERR
       else bindp (on_link (runtime_status u r)) (\<lambda>status.
         bindp (milli_sleep e (bwPollTimeout status)) (\<lambda>_.
         let release = on_link (with_handle (\<lambda>h. libusb_release_interface u h (interface r)) r) in
         if bState status = DFU_STATE_appIDLE \<or> bState status = DFU_STATE_appDETACH then
           bindp (on_link (detach_runtime u r)) (\<lambda>_. bindp release (\<lambda>_. retp False))
         else
           bindp (if bState status = DFU_STATE_dfuERROR
             then bindp (on_link (dfu_clear_status (usb_ops u r))) (\<lambda>ret.
               if ret < 0 then exitp EX_IOERR else retp ())
             else retp ()) (\<lambda>_. bindp release (\<lambda>_. retp True))))))"

text \<open>
  Closing, waiting and finding the device again. The delay is an \<open>int\<close>: a product out of its
  range is undefined.
\<close>

definition detach_wait :: "('d, 'h, 'u, 'w) usb_os \<Rightarrow> int \<Rightarrow> (('l, 'w) host, unit) prog" where
  "detach_wait u delay =
     (if delay * 1000 < - (2 ^ 31) \<or> 2 ^ 31 \<le> delay * 1000 then undefp
      else if delay * 1000 = 0 then retp ()
      else on_env (modifyp (nanosleep_ms u (delay * 1000))))"

definition usb_close :: "('d, 'h, 'u, 'w) usb_os \<Rightarrow> ('d, 'h) usb_if \<Rightarrow> (('d, 'h, 'u) usb, unit) prog" where
  "usb_close u r =
     bindp (with_handle (\<lambda>h t. ((), libusb_close u h t)) r) (\<lambda>_. set_root (r\<lparr>dev_handle := None\<rparr>))"

definition usb_exit :: "('d, 'h, 'u, 'w) usb_os \<Rightarrow> (('d, 'h, 'u) usb, unit) prog" where
  "usb_exit u = on_bus (\<lambda>t. ((), libusb_exit u t))"

definition usb_disconnect :: "('d, 'h, 'u, 'w) usb_os \<Rightarrow> (('d, 'h, 'u) usb, unit) prog" where
  "usb_disconnect u s = (case disconnect_devices u (roots s) (bus s) of
     (rs, t) \<Rightarrow> Some (Ret (), s\<lparr>roots := rs, bus := t\<rparr>))"

definition reopen_stage ::
  "('d, 'h, 'u, 'w) usb_os \<Rightarrow> usb_options \<Rightarrow> ('d, 'h) usb_if \<Rightarrow>
     ((('d, 'h, 'u) usb, 'w) host, ('d, 'h) usb_if) prog" where
  "reopen_stage u opts r =
     bindp (on_link (usb_close u r)) (\<lambda>_.
     if main_mode opts = MODE_DETACH then bindp (on_link (usb_exit u)) (\<lambda>_. exitp 0)
     else bindp (on_link (usb_disconnect u)) (\<lambda>_.
       bindp (detach_wait u (detach_delay opts)) (\<lambda>_.
       bindp (on_link (usb_probe u (opts\<lparr>match_vendor := 0x10000, match_product := 0x10000\<rparr>))) (\<lambda>_.
       bindp (on_link one_root) (\<lambda>r.
       if usb_flags r OR dfu_iff_dfu u = 0 then exitp EX_SOFTWARE
       else on_link (open_root u r))))))"

section \<open>Opening the device\<close>

text \<open>Up to the claim of the interface: the value is \<open>dfu_root\<close> and the runtime identifiers.\<close>

definition usb_find_stage ::
  "('d, 'h, 'u, 'w) usb_os \<Rightarrow> 'w env_os \<Rightarrow> usb_options \<Rightarrow>
     ((('d, 'h, 'u) usb, 'w) host, ('d, 'h) usb_if \<times> u16 \<times> u16) prog" where
  "usb_find_stage u e opts =
     bindp (on_link (on_bus (libusb_init u))) (\<lambda>ret.
     if ret \<noteq> 0 then exitp EX_IOERR
     else bindp (if 2 < verbose opts then on_link (on_bus (\<lambda>t. ((), libusb_set_debug u t))) else retp ()) (\<lambda>_.
       bindp (on_link (usb_probe u opts)) (\<lambda>_.
       if main_mode opts = MODE_LIST then exitp 0
       else bindp (on_link one_root) (\<lambda>r.
         bindp (on_link (open_root u r)) (\<lambda>r.
         if usb_flags r AND dfu_iff_dfu u = 0 then
           bindp (runtime_stage u e r) (\<lambda>in_dfu_state.
             if in_dfu_state then retp (r, vendor r, product r)
             else bindp (reopen_stage u opts r) (\<lambda>r'. retp (r', vendor r, product r)))
         else retp (r, if match_vendor opts < 0 then vendor r else word_of_int (match_vendor opts),
                       if match_product opts < 0 then product r else word_of_int (match_product opts)))))))"

text \<open>After the label \<open>dfustate\<close>.\<close>

definition claim_stage ::
  "('d, 'h, 'u, 'w) usb_os \<Rightarrow> ('d, 'h) usb_if \<Rightarrow> ((('d, 'h, 'u) usb, 'w) host, unit) prog" where
  "claim_stage u r =
     bindp (on_link (with_handle (\<lambda>h. libusb_claim_interface u h (interface r)) r)) (\<lambda>ret.
     if ret < 0 then exitp EX_IOERR else retp ())"

section \<open>The transfer and the end\<close>

definition usb_build ::
  "('d, 'h, 'u, 'w) usb_os \<Rightarrow> usb_options \<Rightarrow> ('d, 'h) usb_if \<Rightarrow> (('d, 'h, 'u) usb, 'w) build" where
  "usb_build u opts r = \<lparr>build_ops = usb_ops u r, dfuse_options = (dfuse_arg opts \<noteq> None),
     dfuse_upload = (\<lambda>xfer_size fd. bindp (dfuse_do_upload u r xfer_size fd (dfuse_arg opts)) (\<lambda>ret.
       if ret < 0 then exitp 1 else retp ())),
     dfuse_dnload = (\<lambda>xfer_size f. bindp (dfuse_do_dnload u r xfer_size f (dfuse_arg opts)) (\<lambda>ret.
       if ret < 0 then exitp 1 else retp ()))\<rparr>"

definition usb_close_stage ::
  "('d, 'h, 'u, 'w) usb_os \<Rightarrow> usb_options \<Rightarrow> ('d, 'h) usb_if \<Rightarrow> ((('d, 'h, 'u) usb, 'w) host, int) prog" where
  "usb_close_stage u opts r =
     bindp (if final_reset opts
       then bindp (on_link (dfu_detach (usb_ops u r))) (\<lambda>_.
         bindp (on_link (reset_device (usb_ops u r))) (\<lambda>ret.
         if ret < 0 \<and> ret \<noteq> libusb_error_not_found u then exitp EX_IOERR else retp ()))
       else retp ()) (\<lambda>_.
     bindp (on_link (usb_close u r)) (\<lambda>_.
     bindp (on_link (usb_exit u)) (\<lambda>_. retp 0)))"

definition usb_device_stage ::
  "('d, 'h, 'u, 'w) usb_os \<Rightarrow> 'w env_os \<Rightarrow> usb_options \<Rightarrow> ('d, 'h) usb_if \<Rightarrow> u16 \<Rightarrow> u16 \<Rightarrow>
     ((('d, 'h, 'u) usb, 'w) host, int) prog" where
  "usb_device_stage u e opts r runtime_vendor runtime_product =
     bindp (claim_stage u r) (\<lambda>_.
     bindp (select_stage (usb_ops u r) (altsetting r)) (\<lambda>_.
     bindp (status_again (usb_ops u r) e dfu_status0) (\<lambda>status.
     bindp (check_status (usb_ops u r) e status) (\<lambda>_.
     bindp (transfer_stage (usb_build u opts r) e opts r runtime_vendor runtime_product) (\<lambda>_.
     usb_close_stage u opts r)))))"

definition usb_main ::
  "('d, 'h, 'u, 'w) usb_os \<Rightarrow> 'w env_os \<Rightarrow> (string \<Rightarrow> int) option \<Rightarrow> (char \<times> string) list \<Rightarrow>
     ((('d, 'h, 'u) usb, 'w) host, int) prog" where
  "usb_main u e usbpath args =
     (case parse_usb_options usbpath args usb_options0 of
        Inl c \<Rightarrow> exitp c
      | Inr opts \<Rightarrow>
          if main_mode opts = MODE_VERSION then exitp 0
          else if main_mode opts = MODE_NONE then exitp EX_USAGE
          else
            let opts = (if match_config_index opts = 0 then opts\<lparr>match_config_index := - 1\<rparr> else opts) in
            bindp (load_stage e opts) (\<lambda>opts.
            bindp (usb_find_stage u e opts) (\<lambda>(r, runtime_vendor, runtime_product).
            usb_device_stage u e opts r runtime_vendor runtime_product)))"

end
