(* ===== verification/Dfu_Usb_Safe.thy ===== *)
theory Dfu_Usb_Safe
  imports Dfu_Usb Dfu_Main_Safe
begin

unbundle bit_operations_syntax

text \<open>
  The build for the USB with any devices: what it relies on libusb, dfu.c and dfuse.c for, and
  that it then uses no handle that is not open, keeps within its buffers and ends with one of
  its exit codes. An open device is a \<open>dfu_device\<close>, so that what holds of the transfers and of
  the stages of \<open>main\<close> holds of it too.
\<close>

section \<open>The contract of the calls\<close>

text \<open>
  An upload stores no more than it was asked for. \<open>codes\<close> are the codes with which the
  functions of dfuse.c end the program.
\<close>

locale libusb_calls =
  fixes u :: "('d, 'h, 'u, 'w) usb_os" and codes :: "int set"
  assumes upload_within: "usb_upload u hn i n buf t = ((rc, bs), t') \<Longrightarrow> rc \<le> int (length buf) \<and> length bs = length buf"
    and dfuse_upload_ok: "valid (\<lambda>_. True) (dfuse_do_upload u r k fd opt) (\<lambda>_ _. True) (\<lambda>c _. c \<in> codes)"
    and dfuse_dnload_ok: "loaded f \<Longrightarrow>
      valid (\<lambda>_. True) (dfuse_do_dnload u r k f opt) (\<lambda>_ _. True) (\<lambda>c _. c \<in> codes)"

locale libusb_device = libusb_calls u codes for u :: "('d, 'h, 'u, 'w) usb_os" and codes +
  fixes r :: "('d, 'h) usb_if"
  assumes opened: "dev_handle r \<noteq> None"

lemma valid_on_bus: "(\<And>s. P s \<Longrightarrow> Q (fst (f (bus s))) (s\<lparr>bus := snd (f (bus s))\<rparr>)) \<Longrightarrow> valid P (on_bus f) Q E"
  by (simp add: valid_def on_bus_def case_prod_beta)

context libusb_device
begin

lemma with_handle_safe: "safely (\<lambda>_. True) (with_handle f r)"
  using opened by (auto simp: with_handle_def intro!: valid_on_bus)

lemma upload_safe: "unat len = length buf \<Longrightarrow> fits (\<lambda>_. True) (dfu_upload (usb_ops u r) len n buf) (length buf)"
  using opened upload_within
  by (fastforce simp: valid_def usb_ops_def with_handle_def on_bus_def bindp_def retp_def mem_write_def
      split: prod.splits)

end

sublocale libusb_device \<subseteq> dev: dfu_device "usb_ops u r" "\<lambda>_. True" 65535
proof
  fix src :: "u8 list option" and len n :: u16
  assume "case src of None \<Rightarrow> len = 0 | Some d \<Rightarrow> unat len \<le> length d"
  then show "safely (\<lambda>_. True) (dfu_download (usb_ops u r) len n src)"
    using with_handle_safe by (cases src) (auto simp: usb_ops_def)
qed (use upload_safe with_handle_safe in \<open>simp_all add: usb_ops_def\<close>)

section \<open>Devices with less than 2 GiB to upload\<close>

text \<open>
  \<open>left\<close> is what a device still delivers: each upload that succeeds takes from it, and it is
  less than $2^{31}$ bytes at any time.
\<close>

locale libusb_finite = libusb_calls u codes for u :: "('d, 'h, 'u, 'w) usb_os" and codes +
  fixes left :: "'u \<Rightarrow> nat"
  assumes upload_takes: "usb_upload u hn i n buf t = ((rc, bs), t') \<Longrightarrow> 0 \<le> rc \<Longrightarrow> left t' + nat rc \<le> left t"
    and left_small: "left t < 2 ^ 31"

locale libusb_finite_device = libusb_finite u codes left + libusb_device u codes r for u codes left r

sublocale libusb_finite_device \<subseteq> counted: dfu_device_finite "usb_ops u r" "\<lambda>_. True" 65535 "\<lambda>s. left (bus s)"
proof
  fix len n :: u16 and buf buf' :: "u8 list" and s t and rc :: int
  assume l: "unat len = length buf" and rc: "0 \<le> rc"
    and u: "dfu_upload (usb_ops u r) len n buf s = Some (Ret (rc, buf'), t)"
  then show "left (bus t) + nat rc \<le> left (bus s)"
    using opened upload_takes
    by (fastforce simp: usb_ops_def with_handle_def on_bus_def bindp_def retp_def split: prod.splits option.splits)
qed

section \<open>The stages\<close>

text \<open>As no invariant of the state is needed, a triple says how a stage ends.\<close>

abbreviation ends :: "('s, 'a) prog \<Rightarrow> ('a \<Rightarrow> bool) \<Rightarrow> int set \<Rightarrow> bool" where
  "ends m Q C \<equiv> valid (\<lambda>_. True) m (\<lambda>a _. Q a) (\<lambda>c _. c \<in> C)"

lemma ends_bind: "ends m (\<lambda>_. True) C \<Longrightarrow> (\<And>a. ends (f a) Q C) \<Longrightarrow> ends (bindp m f) Q C"
  by (rule valid_bindp [where R = "\<lambda>_ _. True"])

lemma ends_bind_when: "ends m R C \<Longrightarrow> (\<And>a. R a \<Longrightarrow> ends (f a) Q C) \<Longrightarrow> ends (bindp m f) Q C"
  by (erule valid_bindp) (simp add: valid_def)

lemma ends_weaken: "ends m R C \<Longrightarrow> (\<And>a. R a \<Longrightarrow> Q a) \<Longrightarrow> C \<subseteq> D \<Longrightarrow> ends m Q D"
  by (erule valid_weaken) auto

lemma ends_link: "ends m Q C \<Longrightarrow> ends (on_link m) Q C"
  by (rule valid_on_link [where Q = "\<lambda>a _. Q a" and E = "\<lambda>c _. c \<in> C"]) auto

lemma ends_ret: "Q a \<Longrightarrow> ends (retp a) Q C"
  by (simp add: valid_retp)

lemma ends_exit: "c \<in> C \<Longrightarrow> ends (exitp c) Q C"
  by (simp add: valid_exitp)

lemma ends_bus: "ends (on_bus f) (\<lambda>_. True) C"
  by (simp add: valid_on_bus)

lemma ends_sleep: "ends (milli_sleep e t) (\<lambda>_. True) C"
  by (simp add: milli_sleep_def valid_def retp_def on_env_def modifyp_def)

lemma ends_set_root: "ends (set_root r) (\<lambda>_. True) C"
  by (simp add: set_root_def valid_modifyp)

lemma ends_probe: "ends (usb_probe u opts) (\<lambda>_. True) C"
  by (simp add: valid_def usb_probe_def split: prod.splits)

lemma ends_disconnect: "ends (usb_disconnect u) (\<lambda>_. True) C"
  by (simp add: valid_def usb_disconnect_def split: prod.splits)

lemma ends_exit_usb: "ends (usb_exit u) (\<lambda>_. True) C"
  by (simp add: usb_exit_def ends_bus)

lemma ends_one_root: "EX_IOERR \<in> C \<Longrightarrow> ends one_root (\<lambda>_. True) C"
  by (simp add: valid_def one_root_def exitp_def retp_def split: list.splits)

lemma ends_open: "EX_IOERR \<in> C \<Longrightarrow> ends (open_root u r) (\<lambda>r'. dev_handle r' \<noteq> None) C"
  unfolding open_root_def Let_def
  by (intro ends_bind ends_bus ends_set_root valid_prod valid_if ends_exit ends_ret) auto

lemma ends_wait: "- (2 ^ 31) \<le> d * 1000 \<Longrightarrow> d * 1000 < 2 ^ 31 \<Longrightarrow> ends (detach_wait u d) (\<lambda>_. True) C"
  by (simp add: detach_wait_def valid_def retp_def on_env_def modifyp_def)

lemmas ends_calls = ends_link ends_ret ends_exit ends_bus ends_sleep ends_set_root ends_probe ends_disconnect
  ends_exit_usb valid_prod valid_if

text \<open>How an upload ends; what it needs of the device is left open here.\<close>

definition uploads_end :: "('d, 'h, 'u, 'w) usb_os \<Rightarrow> 'w env_os \<Rightarrow> int set \<Rightarrow> bool" where
  "uploads_end u e C \<longleftrightarrow> (\<forall>r n k fd. dev_handle r \<noteq> None \<longrightarrow> 0 < n \<longrightarrow> n \<le> 65535 \<longrightarrow>
     ends (dfuload_do_upload (usb_ops u r) e n k fd) (\<lambda>_. True) C)"

context libusb_device
begin

lemma ends_handle: "ends (with_handle f r) (\<lambda>_. True) C"
  by (rule valid_weaken [OF with_handle_safe]) simp_all

lemma ends_request: "safely (\<lambda>_. True) m \<Longrightarrow> ends m (\<lambda>_. True) C"
  by (erule valid_weaken) simp_all

lemma ends_stage: "dev.stage_safe_in C m \<Longrightarrow> ends m (\<lambda>_. True) C"
  by (erule valid_weaken) (simp_all add: dev.exits_in_def)

lemmas ends_device = ends_handle ends_request [OF dev.get_status_ok] ends_request [OF dev.clear_status_ok]
  ends_request [OF dev.detach_ok] ends_request [OF dev.set_alt_ok] ends_request [OF dev.reset_ok]

lemma ends_runtime_status: "EX_IOERR \<in> C \<Longrightarrow> ends (runtime_status u r) (\<lambda>_. True) C"
  unfolding runtime_status_def by (intro ends_bind ends_calls ends_device) auto

lemma ends_detach_runtime: "EX_IOERR \<in> C \<Longrightarrow> ends (detach_runtime u r) (\<lambda>_. True) C"
  unfolding detach_runtime_def by (intro ends_bind ends_calls ends_device) auto

lemma ends_runtime: "EX_IOERR \<in> C \<Longrightarrow> ends (runtime_stage u e r) (\<lambda>_. True) C"
  unfolding runtime_stage_def Let_def
  by (intro ends_bind ends_calls ends_device ends_runtime_status ends_detach_runtime) auto

lemma ends_close: "ends (usb_close u r) (\<lambda>_. True) C"
  unfolding usb_close_def by (intro ends_bind ends_calls ends_device)

lemma ends_reopen:
  assumes "{0, EX_SOFTWARE, EX_IOERR} \<subseteq> C" and "- (2 ^ 31) \<le> detach_delay opts * 1000" and "detach_delay opts * 1000 < 2 ^ 31"
  shows "ends (reopen_stage u opts r) (\<lambda>r'. dev_handle r' \<noteq> None) C"
  unfolding reopen_stage_def
  by (intro ends_bind ends_calls ends_close ends_one_root ends_open ends_wait) (use assms in auto)

lemma ends_claim: "EX_IOERR \<in> C \<Longrightarrow> ends (claim_stage u r) (\<lambda>_. True) C"
  unfolding claim_stage_def by (intro ends_bind ends_calls ends_device) auto

lemma ends_select: "EX_IOERR \<in> C \<Longrightarrow> ends (select_stage (usb_ops u r) alt) (\<lambda>_. True) C"
  unfolding select_stage_def by (intro ends_bind ends_calls ends_device) auto

lemma ends_usb_close_stage: "EX_IOERR \<in> C \<Longrightarrow> ends (usb_close_stage u opts r) (\<lambda>n. n = 0) C"
  unfolding usb_close_stage_def by (intro ends_bind ends_calls ends_device ends_close) auto

lemma ends_transfer:
  assumes "main_mode opts = MODE_DOWNLOAD \<longrightarrow> loaded (main_file opts)" and "0 < env_pagesize e"
    and "env_pagesize e \<le> 65535" and "0 \<le> sint (transfer_size opts)" and "codes \<subseteq> C" and "{1, EX_SOFTWARE, EX_IOERR} \<subseteq> C"
    and "main_mode opts = MODE_UPLOAD \<longrightarrow> uploads_end u e C"
  shows "ends (transfer_stage (usb_build u o1 r) e opts root v p) (\<lambda>_. True) C"
proof (rule ends_stage, rule dev.transfer_stage_safe)
  have up: "ends (dfuse_do_upload u r m fd (dfuse_arg o1)) (\<lambda>_. True) C" for m fd
    by (rule ends_weaken [OF dfuse_upload_ok]) (use assms(5) in auto)
  have "ends (bindp (dfuse_do_upload u r m fd (dfuse_arg o1)) (\<lambda>ret. if ret < 0 then exitp 1 else retp ())) (\<lambda>_. True) C"
    for m fd
    by (intro ends_bind up ends_calls) (use assms(6) in auto)
  then show "dev.stage_safe_in C (dfuse_upload (usb_build u o1 r) m fd)" for m fd
    by (simp add: usb_build_def dev.exits_in_def [abs_def])
next
  fix m f assume f: "loaded f"
  have dn: "ends (dfuse_do_dnload u r m f (dfuse_arg o1)) (\<lambda>_. True) C"
    by (rule ends_weaken [OF dfuse_dnload_ok [OF f]]) (use assms(5) in auto)
  have "ends (bindp (dfuse_do_dnload u r m f (dfuse_arg o1)) (\<lambda>ret. if ret < 0 then exitp 1 else retp ())) (\<lambda>_. True) C"
    by (intro ends_bind dn ends_calls) (use assms(6) in auto)
  then show "dev.stage_safe_in C (dfuse_dnload (usb_build u o1 r) m f)"
    by (simp add: usb_build_def dev.exits_in_def [abs_def])
next
  fix n fd assume n: "main_mode opts = MODE_UPLOAD" "0 < n" "n \<le> int 65535"
  then have "uploads_end u e C" using assms(7) by blast
  then show "dev.stage_safe_in C (dfuload_do_upload (usb_ops u r) e n (expected_size opts) fd)"
    using n opened unfolding uploads_end_def dev.exits_in_def [abs_def] by simp
qed (use assms in \<open>simp_all add: usb_build_def\<close>)

lemma ends_device_stage:
  assumes "main_mode opts = MODE_DOWNLOAD \<longrightarrow> loaded (main_file opts)" and "0 < env_pagesize e"
    and "env_pagesize e \<le> 65535" and "0 \<le> sint (transfer_size opts)" and "codes \<subseteq> C" and "{1, EX_SOFTWARE, EX_IOERR} \<subseteq> C"
    and "main_mode opts = MODE_UPLOAD \<longrightarrow> uploads_end u e C"
  shows "ends (usb_device_stage u e opts r v p) (\<lambda>n. n = 0) C"
  unfolding usb_device_stage_def
  by (intro ends_bind ends_claim ends_select ends_stage [OF dev.stage_weaken [OF dev.status_again_safe]]
      ends_stage [OF dev.stage_weaken [OF dev.check_status_safe]] ends_transfer ends_usb_close_stage)
    (use assms in auto)

end

text \<open>A device with finitely many bytes ends an upload.\<close>

context libusb_finite_device
begin

lemma all_room: "counted.host_room 0 h"
  using left_small [of "bus (link h)"] by (simp add: counted.room_def)

lemma upload_ends:
  assumes "0 < n" and "n \<le> 65535"
  shows "ends (dfuload_do_upload (usb_ops u r) e n k fd) (\<lambda>_. True) {EX_SOFTWARE, EX_IOERR}"
proof -
  have n: "nat n \<le> 65535" "nat n < 65536" "int (nat n) = n" using assms by simp_all
  from counted.upload_safe [OF n(1,2), of e k fd] show ?thesis
    unfolding n(3) by (elim valid_weaken) (simp_all add: all_room dev.upload_exits_def)
qed

end

context libusb_finite
begin

lemma finite_device: "dev_handle r \<noteq> None \<Longrightarrow> libusb_finite_device u codes left r"
  by unfold_locales

lemma finite_uploads_end: "{EX_SOFTWARE, EX_IOERR} \<subseteq> C \<Longrightarrow> uploads_end u e C"
  unfolding uploads_end_def
  by (auto intro!: ends_weaken [OF libusb_finite_device.upload_ends [OF finite_device]])

end

section \<open>The whole program\<close>

context libusb_calls
begin

lemma open_device: "dev_handle r \<noteq> None \<Longrightarrow> libusb_device u codes r"
  by unfold_locales

lemma ends_find:
  assumes "{0, EX_SOFTWARE, EX_IOERR} \<subseteq> C" and "- (2 ^ 31) \<le> detach_delay opts * 1000" and "detach_delay opts * 1000 < 2 ^ 31"
  shows "ends (usb_find_stage u e opts) (\<lambda>(r, v, p). dev_handle r \<noteq> None) C"
proof -
  have c: "0 \<in> C" "EX_IOERR \<in> C" using assms(1) by auto
  have rt: "ends (bindp (runtime_stage u e r) (\<lambda>in_dfu_state.
      if in_dfu_state then retp (r, vendor r, product r)
      else bindp (reopen_stage u opts r) (\<lambda>r'. retp (r', vendor r, product r)))) (\<lambda>(r, v, p). dev_handle r \<noteq> None) C"
    if "dev_handle r \<noteq> None" for r :: "('d, 'h) usb_if"
    by (rule ends_bind [OF libusb_device.ends_runtime [OF open_device [OF that] c(2)]],
        rule valid_if [OF ends_ret ends_bind_when [OF libusb_device.ends_reopen [OF open_device [OF that] assms]]])
      (use that in \<open>simp_all add: ends_ret\<close>)
  show ?thesis
    unfolding usb_find_stage_def
    apply (rule ends_bind [OF ends_link [OF ends_bus]])
    apply (rule valid_if [OF ends_exit [OF c(2)]])
    apply (rule ends_bind, intro ends_calls TrueI)
    apply (rule ends_bind [OF ends_link [OF ends_probe]])
    apply (rule valid_if [OF ends_exit [OF c(1)]])
    apply (rule ends_bind [OF ends_link [OF ends_one_root [OF c(2)]]])
    apply (rule ends_bind_when [OF ends_link [OF ends_open [OF c(2)]]])
    apply (rule valid_if [OF rt ends_ret])
    apply simp_all
    done
qed

lemma ends_main:
  assumes "\<And>opts. parse_usb_options usbpath args usb_options0 = Inr opts \<Longrightarrow> file_name (main_file opts) \<noteq> ''-'' \<and>
      0 \<le> sint (transfer_size opts) \<and> - (2 ^ 31) \<le> detach_delay opts * 1000 \<and> detach_delay opts * 1000 < 2 ^ 31 \<and>
      (main_mode opts = MODE_UPLOAD \<longrightarrow> uploads_end u e (exit_codes \<union> codes))"
    and "0 < env_pagesize e" and "env_pagesize e \<le> 65535"
  shows "ends (usb_main u e usbpath args) (\<lambda>n. n = 0) (exit_codes \<union> codes)"
proof (cases "parse_usb_options usbpath args usb_options0")
  case (Inl c)
  have "parse_usb_options usbpath args opts = Inl c \<Longrightarrow> c \<in> {EX_USAGE, EX_SOFTWARE}" for opts
  proof (induction args arbitrary: opts)
    case (Cons x args)
    have "parse_usb_option usbpath a b opts = Inl c \<Longrightarrow> c \<in> {EX_USAGE, EX_SOFTWARE}" for a b
      by (auto simp: parse_usb_option_def resolve_device_path_def Let_def
          split: prod.splits if_splits sum.splits option.splits)
    with Cons show ?case by (auto split: sum.splits)
  qed simp
  with Inl have "c \<in> {EX_USAGE, EX_SOFTWARE}" by blast
  then show ?thesis using exit_codes by (auto simp: usb_main_def Inl valid_exitp)
next
  case (Inr opts)
  let ?C = "exit_codes \<union> codes"
  have sub: "{0, EX_SOFTWARE, EX_IOERR} \<subseteq> ?C" "codes \<subseteq> ?C" "{1, EX_SOFTWARE, EX_IOERR} \<subseteq> ?C"
    using exit_codes by auto
  define o' where "o' = (if match_config_index opts = 0 then opts\<lparr>match_config_index := - 1\<rparr> else opts)"
  have o': "file_name (main_file o') \<noteq> ''-''" "0 \<le> sint (transfer_size o')"
    "- (2 ^ 31) \<le> detach_delay o' * 1000" "detach_delay o' * 1000 < 2 ^ 31"
    "main_mode o' = MODE_UPLOAD \<longrightarrow> uploads_end u e ?C"
    using assms(1) [OF Inr] by (simp_all add: o'_def)
  let ?R = "\<lambda>opts'. \<exists>f v p. opts' = o'\<lparr>main_file := f, match_vendor := v, match_product := p\<rparr> \<and>
       (main_mode o' = MODE_DOWNLOAD \<longrightarrow> loaded f)"
  have load: "ends (load_stage e o') ?R ?C"
    by (rule valid_weaken [OF load_stage_keeps [OF o'(1), of "\<lambda>_. True"]]) auto
  have rest: "ends (bindp (usb_find_stage u e o1) (\<lambda>(r, v, p). usb_device_stage u e o1 r v p)) (\<lambda>n. n = 0) ?C"
    if "?R o1" for o1
  proof (rule ends_bind_when [OF ends_find [OF sub(1)]])
    show "- (2 ^ 31) \<le> detach_delay o1 * 1000" "detach_delay o1 * 1000 < 2 ^ 31" using that o' by auto
    show "ends (case x of (r, v, p) \<Rightarrow> usb_device_stage u e o1 r v p) (\<lambda>n. n = 0) ?C"
      if "case x of (r, v, p) \<Rightarrow> dev_handle r \<noteq> None" for x :: "('d, 'h) usb_if \<times> u16 \<times> u16"
    proof -
      obtain r v p where x: "x = (r, v, p)" by (metis surj_pair)
      then have "dev_handle r \<noteq> None" using that by simp
      from libusb_device.ends_device_stage [OF open_device [OF this] _ assms(2,3) _ sub(2,3), of o1 v p]
      show ?thesis using \<open>?R o1\<close> o' by (auto simp: x)
    qed
  qed
  have m: "usb_main u e usbpath args = (if main_mode opts = MODE_VERSION then exitp 0
      else if main_mode opts = MODE_NONE then exitp EX_USAGE
      else bindp (load_stage e o') (\<lambda>o1. bindp (usb_find_stage u e o1) (\<lambda>(r, v, p). usb_device_stage u e o1 r v p)))"
    by (simp add: usb_main_def Inr o'_def Let_def)
  show ?thesis
    unfolding m by (intro valid_if ends_exit ends_bind_when [OF load] rest) (use exit_codes in auto)
qed

end

end
