(* ===== verification/Dfu_Usb_Lemmas.thy ===== *)
theory Dfu_Usb_Lemmas
  imports Dfu_Usb_Safe Dfu_Main_Lemmas
begin

unbundle bit_operations_syntax

text \<open>
  The stages of the build for the USB on a bus where the calls go well: finding a device,
  having it leave its runtime mode, finding it again, and a download.
\<close>

section \<open>Calls that go well\<close>

text \<open>One device is there, \<open>r\<close>, and is opened with the handle \<open>hn\<close>.\<close>

definition found ::
  "('d, 'h, 'u, 'w) usb_os \<Rightarrow> usb_options \<Rightarrow> ('d, 'h) usb_if list \<Rightarrow> 'u \<Rightarrow> ('d, 'h) usb_if \<Rightarrow> 'h \<Rightarrow> 'u \<Rightarrow> bool" where
  "found u opts rs t r hn t' \<longleftrightarrow> (\<exists>t1. probe_devices u opts rs t = ([r], t1) \<and>
     libusb_open u (usb_dev r) (dev_handle r) t1 = ((0, Some hn), t'))"

text \<open>
  The device in runtime mode reports that it is, with the time \<open>p\<close> to wait, or does not
  implement the request. Whether it accepts the request to detach is open. It then detaches by
  itself, or after a reset.
\<close>

definition detaches :: "('d, 'h, 'u, 'w) usb_os \<Rightarrow> ('d, 'h) usb_if \<Rightarrow> 'h \<Rightarrow> 'u \<Rightarrow> u32 \<Rightarrow> 'u \<Rightarrow> bool" where
  "detaches u r hn t p t' \<longleftrightarrow> (\<exists>c t1 a t2 g st t3 d t4 t5 x.
     libusb_claim_interface u hn (interface r) t = (c, t1) \<and> 0 \<le> c \<and>
     libusb_set_interface_alt_setting u hn (interface r) 0 t1 = (a, t2) \<and> 0 \<le> a \<and>
     usb_get_status u hn r dfu_status0 t2 = ((g, st), t3) \<and>
     (if g = libusb_error_pipe u then p = 0
      else 0 \<le> g \<and> bState st \<in> {DFU_STATE_appIDLE, DFU_STATE_appDETACH} \<and> bwPollTimeout st = p) \<and>
     usb_detach u hn (interface r) t3 = (d, t4) \<and>
     (if bmAttributes (func_dfu r) AND USB_DFU_WILL_DETACH \<noteq> 0 then t5 = t4
      else \<exists>z. libusb_reset_device u hn t4 = (z, t5) \<and> (0 \<le> z \<or> z = libusb_error_not_found u)) \<and>
     libusb_release_interface u hn (interface r) t5 = (x, t'))"

definition selected :: "('d, 'h, 'u, 'w) usb_os \<Rightarrow> ('d, 'h) usb_if \<Rightarrow> 'h \<Rightarrow> 'u \<Rightarrow> 'u \<Rightarrow> bool" where
  "selected u r hn t t' \<longleftrightarrow> (\<exists>c t1 a. libusb_claim_interface u hn (interface r) t = (c, t1) \<and> 0 \<le> c \<and>
     libusb_set_interface_alt_setting u hn (interface r) (altsetting r) t1 = (a, t') \<and> 0 \<le> a)"

abbreviation opened :: "('d, 'h) usb_if \<Rightarrow> 'h \<Rightarrow> ('d, 'h) usb_if" where
  "opened r hn \<equiv> r\<lparr>dev_handle := Some hn\<rparr>"

abbreviation usb_host :: "('d, 'h) usb_if list \<Rightarrow> 'u \<Rightarrow> 'w \<Rightarrow> (('d, 'h, 'u) usb, 'w) host" where
  "usb_host rs t w \<equiv> \<lparr>link = \<lparr>roots = rs, bus = t\<rparr>, env = w\<rparr>"

lemma on_bus_run: "on_bus f \<lparr>roots = rs, bus = t\<rparr> = Some (Ret (fst (f t)), \<lparr>roots = rs, bus = snd (f t)\<rparr>)"
  by (simp add: on_bus_def case_prod_beta)

lemma handle_run:
  "with_handle f (opened r hn) \<lparr>roots = rs, bus = t\<rparr> = Some (Ret (fst (f hn t)), \<lparr>roots = rs, bus = snd (f hn t)\<rparr>)"
  by (simp add: with_handle_def on_bus_run)

lemma link_run: "m s = Some (Ret a, s') \<Longrightarrow> on_link m \<lparr>link = s, env = w\<rparr> = Some (Ret a, \<lparr>link = s', env = w\<rparr>)"
  by (simp add: on_link_def)

lemma open_run:
  "libusb_open u (usb_dev r) (dev_handle r) t = ((0, Some hn), t') \<Longrightarrow>
     open_root u r \<lparr>roots = [r], bus = t\<rparr> = Some (Ret (opened r hn), \<lparr>roots = [opened r hn], bus = t'\<rparr>)"
  by (simp add: open_root_def bindp_def on_bus_run Let_def set_root_def modifyp_def retp_def)

lemma found_run:
  assumes "found u opts rs t r hn t'"
  shows "\<exists>t1. usb_probe u opts \<lparr>roots = rs, bus = t\<rparr> = Some (Ret (), \<lparr>roots = [r], bus = t1\<rparr>) \<and>
    one_root \<lparr>roots = [r], bus = t1\<rparr> = Some (Ret r, \<lparr>roots = [r], bus = t1\<rparr>) \<and>
    open_root u r \<lparr>roots = [r], bus = t1\<rparr> = Some (Ret (opened r hn), \<lparr>roots = [opened r hn], bus = t'\<rparr>)"
  using assms open_run by (auto simp: found_def usb_probe_def one_root_def retp_def)

section \<open>From runtime mode to DFU mode\<close>

lemma runtime_stage_run:
  assumes "detaches u r hn t p t'" and "dev_handle r = Some hn"
  shows "runtime_stage u e r (usb_host rs t w) = Some (Ret False, usb_host rs t' (slept e p w))"
proof -
  have r: "with_handle f r \<lparr>roots = rs, bus = t\<rparr> = Some (Ret (fst (f hn t)), \<lparr>roots = rs, bus = snd (f hn t)\<rparr>)" for f t
    using assms(2) by (simp add: with_handle_def on_bus_run)
  obtain c t1 a t2 g st t3 d t4 t5 x where d: "libusb_claim_interface u hn (interface r) t = (c, t1)" "0 \<le> c"
     "libusb_set_interface_alt_setting u hn (interface r) 0 t1 = (a, t2)" "0 \<le> a"
     "usb_get_status u hn r dfu_status0 t2 = ((g, st), t3)"
     "if g = libusb_error_pipe u then p = 0 else 0 \<le> g \<and> bState st \<in> {0, 1} \<and> bwPollTimeout st = p"
     "usb_detach u hn (interface r) t3 = (d, t4)"
     "if bmAttributes (func_dfu r) AND USB_DFU_WILL_DETACH \<noteq> 0 then t5 = t4
      else \<exists>z. libusb_reset_device u hn t4 = (z, t5) \<and> (0 \<le> z \<or> z = libusb_error_not_found u)"
     "libusb_release_interface u hn (interface r) t5 = (x, t')"
    using assms(1) unfolding detaches_def by blast
  obtain st' where st': "runtime_status u r \<lparr>roots = rs, bus = t2\<rparr> = Some (Ret st', \<lparr>roots = rs, bus = t3\<rparr>)"
    "bState st' = 0 \<or> bState st' = 1" "bwPollTimeout st' = p"
    using d(5,6)
    by (cases "g = libusb_error_pipe u") (auto simp: runtime_status_def usb_ops_def r bindp_def retp_def)
  have "detach_runtime u r \<lparr>roots = rs, bus = t3\<rparr> = Some (Ret (), \<lparr>roots = rs, bus = t5\<rparr>)"
    using d(7,8) by (auto simp: detach_runtime_def usb_ops_def r bindp_def retp_def split: if_splits)
  then show ?thesis
    using d(1-4,9) st'
    by (auto simp: runtime_stage_def Let_def usb_ops_def r on_link_def milli_sleep_run retp_def)
qed

text \<open>The wait for the device to come back, in seconds.\<close>

definition paused :: "('d, 'h, 'u, 'w) usb_os \<Rightarrow> int \<Rightarrow> 'w \<Rightarrow> 'w" where
  "paused u d w = (if d = 0 then w else nanosleep_ms u (d * 1000) w)"

lemma wait_run:
  "- (2 ^ 31) \<le> d * 1000 \<Longrightarrow> d * 1000 < 2 ^ 31 \<Longrightarrow>
     detach_wait u d \<lparr>link = s, env = w\<rparr> = Some (Ret (), \<lparr>link = s, env = paused u d w\<rparr>)"
  by (auto simp: detach_wait_def retp_def on_env_def modifyp_def paused_def)

lemma close_run:
  "usb_close u (opened r hn) \<lparr>roots = [q], bus = t\<rparr> =
     Some (Ret (), \<lparr>roots = [r\<lparr>dev_handle := None\<rparr>], bus = libusb_close u hn t\<rparr>)"
  by (simp add: usb_close_def handle_run bindp_def set_root_def modifyp_def)

lemma reopen_run:
  assumes "main_mode opts \<noteq> MODE_DETACH" and "- (2 ^ 31) \<le> detach_delay opts * 1000" and "detach_delay opts * 1000 < 2 ^ 31"
    and "disconnect_devices u [r\<lparr>dev_handle := None\<rparr>] (libusb_close u hn t) = (rs, t1)"
    and "found u (opts\<lparr>match_vendor := 0x10000, match_product := 0x10000\<rparr>) rs t1 q hq t2" and "dfu_iff_dfu u \<noteq> 0"
  shows "reopen_stage u opts (opened r hn) (usb_host [p] t w) =
    Some (Ret (opened q hq), usb_host [opened q hq] t2 (paused u (detach_delay opts) w))"
proof -
  have nz: "usb_flags q OR dfu_iff_dfu u \<noteq> 0" using assms(6) by (simp add: or_eq_0_iff)
  note w = wait_run [OF assms(2,3), of u "\<lparr>roots = rs, bus = t1\<rparr>" w]
  obtain t' where t': "usb_probe u (opts\<lparr>match_vendor := 0x10000, match_product := 0x10000\<rparr>) \<lparr>roots = rs, bus = t1\<rparr> =
      Some (Ret (), \<lparr>roots = [q], bus = t'\<rparr>)"
    "one_root \<lparr>roots = [q], bus = t'\<rparr> = Some (Ret q, \<lparr>roots = [q], bus = t'\<rparr>)"
    "open_root u q \<lparr>roots = [q], bus = t'\<rparr> = Some (Ret (opened q hq), \<lparr>roots = [opened q hq], bus = t2\<rparr>)"
    using found_run [OF assms(5)] by blast
  show ?thesis
    using assms(1,4) nz
    by (simp add: reopen_stage_def on_link_def close_run usb_disconnect_def w t')
qed

lemma detach_exit_run:
  assumes "main_mode opts = MODE_DETACH"
  shows "reopen_stage u opts (opened r hn) (usb_host [p] t w) =
    Some (Exit 0, usb_host [r\<lparr>dev_handle := None\<rparr>] (libusb_exit u (libusb_close u hn t)) w)"
  using assms by (simp add: reopen_stage_def on_link_def close_run usb_exit_def on_bus_run exitp_def)

text \<open>Finding a device in runtime mode, up to its reappearance.\<close>

definition debugged :: "('d, 'h, 'u, 'w) usb_os \<Rightarrow> usb_options \<Rightarrow> 'u \<Rightarrow> 'u" where
  "debugged u opts t = (if 2 < verbose opts then libusb_set_debug u t else t)"

lemma find_run:
  assumes "libusb_init u t = (0, t1)" and "main_mode opts \<noteq> MODE_LIST"
    and "found u opts [] (debugged u opts t1) r hn t2" and "usb_flags r AND dfu_iff_dfu u = 0"
    and "detaches u (opened r hn) hn t2 p t3"
  shows "usb_find_stage u e opts (usb_host [] t w) =
    bindp (reopen_stage u opts (opened r hn)) (\<lambda>r'. retp (r', vendor r, product r))
      (usb_host [opened r hn] t3 (slept e p w))"
proof -
  obtain t' where t': "usb_probe u opts \<lparr>roots = [], bus = debugged u opts t1\<rparr> = Some (Ret (), \<lparr>roots = [r], bus = t'\<rparr>)"
    "one_root \<lparr>roots = [r], bus = t'\<rparr> = Some (Ret r, \<lparr>roots = [r], bus = t'\<rparr>)"
    "open_root u r \<lparr>roots = [r], bus = t'\<rparr> = Some (Ret (opened r hn), \<lparr>roots = [opened r hn], bus = t2\<rparr>)"
    using found_run [OF assms(3)] by blast
  have w': "runtime_stage u e (opened r hn) (usb_host [opened r hn] t2 w) =
      Some (Ret False, usb_host [opened r hn] t3 (slept e p w))"
    by (rule runtime_stage_run [OF assms(5)]) simp
  show ?thesis
    using assms(1,2,4) w' t'
    by (cases "2 < verbose opts") (simp_all add: usb_find_stage_def on_link_def on_bus_run debugged_def)
qed

section \<open>A download\<close>

lemma choose_opened: "choose_transfer_size pg (opened q hq) n = choose_transfer_size pg q n"
  by (simp add: choose_transfer_size_def Let_def)

text \<open>What is left of the bus when the device is closed.\<close>

definition usb_closed :: "('d, 'h, 'u, 'w) usb_os \<Rightarrow> bool \<Rightarrow> 'h \<Rightarrow> u8 \<Rightarrow> 'u \<Rightarrow> 'u" where
  "usb_closed u reset hn i t = libusb_exit u (libusb_close u hn
     (if reset then snd (libusb_reset_device u hn (snd (usb_detach u hn i t))) else t))"

lemma usb_close_stage_run:
  assumes "final_reset opts \<longrightarrow>
    0 \<le> fst (libusb_reset_device u hn (snd (usb_detach u hn (interface r) (bus (link h)))))"
  shows "\<exists>h'. usb_close_stage u opts (opened r hn) h = Some (Ret 0, h') \<and>
    bus (link h') = usb_closed u (final_reset opts) hn (interface r) (bus (link h)) \<and> env h' = env h"
proof -
  obtain rs t w where h: "h = usb_host rs t w" by (metis host.surjective usb.surjective old.unit.exhaust)
  note defs = usb_close_stage_def usb_ops_def on_link_def handle_run usb_close_def set_root_def
      modifyp_def usb_exit_def on_bus_run usb_closed_def bindp_def retp_def
  show ?thesis using assms by (cases "final_reset opts") (simp_all add: h defs)
qed

lemma claim_run:
  assumes "selected u r hn t t'"
  obtains t1 where "claim_stage u (opened r hn) (usb_host rs t w) = Some (Ret (), usb_host rs t1 w)"
    and "select_stage (usb_ops u (opened r hn)) (altsetting r) (usb_host rs t1 w) = Some (Ret (), usb_host rs t' w)"
proof -
  obtain c t1 a where c: "libusb_claim_interface u hn (interface r) t = (c, t1)" "0 \<le> c"
    "libusb_set_interface_alt_setting u hn (interface r) (altsetting r) t1 = (a, t')" "0 \<le> a"
    using assms unfolding selected_def by blast
  then show thesis
    by (intro that [of t1]) (simp_all add: c not_less claim_stage_def select_stage_def on_link_def usb_ops_def handle_run retp_def bindp_def)
qed

end
