(* ===== verification/Dfu_Usb_Props.thy ===== *)
theory Dfu_Usb_Props
  imports Dfu_Usb_Lemmas Dfu_Main_Props
begin

unbundle bit_operations_syntax

text \<open>
  The properties of the build for the USB, with runs on a bus with one device that is in
  runtime mode until it is reset and then follows a script.
\<close>

section \<open>A bus with one device\<close>

record mock =
  mock_dfu :: bool
  mock_script :: "(qda_req \<times> qda_resp) list"

definition mock_next :: "qda_req \<Rightarrow> mock \<Rightarrow> qda_resp \<times> mock" where
  "mock_next q t = (case mock_script t of [] \<Rightarrow> (Stall, t)
     | x # xs \<Rightarrow> if fst x = q then (snd x, t\<lparr>mock_script := xs\<rparr>) else (Stall, t))"

text \<open>The bytes the script has to upload; the device uploads nothing when they do not fit an \<open>int\<close>.\<close>

definition mock_uploads :: "mock \<Rightarrow> nat" where
  "mock_uploads t = sum_list (map (\<lambda>x. case snd x of Upload_Resp b \<Rightarrow> length b | _ \<Rightarrow> 0) (mock_script t))"

definition mock_left :: "mock \<Rightarrow> nat" where
  "mock_left t = (if mock_uploads t < 2 ^ 31 then mock_uploads t else 0)"

text \<open>The interface with its descriptor: transfer size 2, flags 1 in DFU mode.\<close>

definition mock_if :: "u32 \<Rightarrow> (unit, nat) usb_if" where
  "mock_if fl = qda_if.extend (root_zero\<lparr>func_dfu := (func_dfu root_zero)\<lparr>wTransferSize := 2, bcdDFUVersion := 0x110\<rparr>\<rparr>)
     \<lparr>usb_dev = (), dev_handle = None, usb_flags = fl\<rparr>"

definition mock_usb :: "(unit, nat, mock, mem_disk) usb_os" where
  "mock_usb = \<lparr>
     libusb_init = (\<lambda>t. (0, t)), libusb_set_debug = (\<lambda>t. t), libusb_exit = (\<lambda>t. t),
     probe_devices = (\<lambda>_ rs t. (rs @ [mock_if (if mock_dfu t then 1 else 0)], t)),
     disconnect_devices = (\<lambda>_ t. ([], t)), libusb_open = (\<lambda>_ _ t. ((0, Some 7), t)), libusb_close = (\<lambda>_ t. t),
     libusb_claim_interface = (\<lambda>_ _ t. (0, t)), libusb_release_interface = (\<lambda>_ _ t. (0, t)),
     libusb_set_interface_alt_setting = (\<lambda>_ _ _ t. (0, t)),
     libusb_reset_device = (\<lambda>_ t. (0, t\<lparr>mock_dfu := True\<rparr>)),
     usb_get_status = (\<lambda>_ _ st t. if mock_dfu t
       then (case mock_next Get_Status t of
          (Status_Resp p a b, t') \<Rightarrow> ((6, \<lparr>bStatus = a, bwPollTimeout = p, bState = b, iString = 0\<rparr>), t')
        | (_, t') \<Rightarrow> ((- 1, st), t'))
       else ((- 9, st), t)),
     usb_clear_status = (\<lambda>_ _ t. (0, t)), usb_abort = (\<lambda>_ _ t. (0, t)), usb_detach = (\<lambda>_ _ t. (- 1, t)),
     usb_download = (\<lambda>_ _ n bs t. case mock_next (Dnload n bs) t of
        (Ack, t') \<Rightarrow> (int (length bs), t') | (_, t') \<Rightarrow> (- 1, t')),
     usb_upload = (\<lambda>_ _ n buf t. if 2 ^ 31 \<le> mock_uploads t then ((- 1, buf), t)
      else case mock_next (Upload n (of_nat (length buf))) t of
        (Upload_Resp bs, t') \<Rightarrow> if length bs \<le> length buf then ((int (length bs), mem_write buf 0 bs), t') else ((- 1, buf), t')
      | (_, t') \<Rightarrow> ((- 1, buf), t')),
     dfuse_do_upload = (\<lambda>_ _ _ _. exitp 1), dfuse_do_dnload = (\<lambda>_ _ _ _. exitp 1),
     nanosleep_ms = (\<lambda>_ w. w), libusb_error_pipe = - 9, libusb_error_not_found = - 5, dfu_iff_dfu = 1\<rparr>"

interpretation mock: libusb_calls mock_usb "{1}"
proof unfold_locales
  show "rc \<le> int (length buf) \<and> length bs = length buf"
    if "usb_upload mock_usb hn i n buf t = ((rc, bs), t')" for hn i n buf t rc bs t'
    using that by (auto simp: mock_usb_def split: prod.splits qda_resp.splits if_splits)
qed (simp_all add: mock_usb_def valid_exitp)

interpretation mock: libusb_finite mock_usb "{1}" mock_left
proof
  show "mock_left t' + nat rc \<le> mock_left t"
    if u: "usb_upload mock_usb hn i n buf t = ((rc, bs), t')" and rc: "0 \<le> rc" for hn i n buf t rc bs t'
  proof -
    from u rc have m: "mock_uploads t < 2 ^ 31" and
      e: "\<exists>b. mock_next (Upload n (of_nat (length buf))) t = (Upload_Resp b, t') \<and> rc = int (length b)"
      by (auto simp: mock_usb_def split: prod.splits qda_resp.splits if_splits)
    then obtain x xs b where "mock_script t = x # xs" "snd x = Upload_Resp b" "t' = t\<lparr>mock_script := xs\<rparr>" "rc = int (length b)"
      by (auto simp: mock_next_def split: list.splits if_splits)
    with m show ?thesis by (simp add: mock_left_def mock_uploads_def)
  qed
qed (simp add: mock_left_def)

interpretation mock_open: libusb_device mock_usb "{1}" "opened (mock_if 1) 7"
  by unfold_locales simp

section \<open>Every run\<close>

text \<open>C4: in the build for the USB, with any devices, a run of \<open>main\<close> that returns has made no call
  on a handle that is \<open>NULL\<close>, stayed within its buffers, and returned 0 or ended the program with
  0, 1, 64, 70, 74 or a code of dfuse.c, when: an upload stores and returns no more than was
  asked for; the functions of dfuse.c, whatever they do, do so without undefined behaviour; the
  file is not standard input, the transfer size given is not negative and the delay given in
  milliseconds fits an \<open>int\<close>; a page is at most 65535 bytes; and, in an upload, the device has
  less than 2 GiB to deliver.\<close>

theorem usb_main_safe:
  fixes u :: "('d, 'h, 'u, 'w) usb_os" and left :: "'u \<Rightarrow> nat"
  assumes "libusb_calls u codes"
    and "\<And>opts. parse_usb_options usbpath args usb_options0 = Inr opts \<Longrightarrow> file_name (main_file opts) \<noteq> ''-'' \<and>
      0 \<le> sint (transfer_size opts) \<and> - (2 ^ 31) \<le> detach_delay opts * 1000 \<and> detach_delay opts * 1000 < 2 ^ 31 \<and>
      (main_mode opts = MODE_UPLOAD \<longrightarrow> libusb_finite u codes left)"
    and "0 < env_pagesize e" and "env_pagesize e \<le> 65535"
  shows "valid (\<lambda>_. True) (usb_main u e usbpath args) (\<lambda>n _. n = 0) (\<lambda>c _. c \<in> {0, 1, 64, 70, 74} \<union> codes)"
proof -
  have up: "uploads_end u e (exit_codes \<union> codes)" if "libusb_finite u codes left"
    by (rule libusb_finite.finite_uploads_end [OF that]) (use exit_codes in auto)
  have "ends (usb_main u e usbpath args) (\<lambda>n. n = 0) (exit_codes \<union> codes)"
    by (rule libusb_calls.ends_main [OF assms(1) _ assms(3,4)]) (use assms(2) up in blast)
  then show ?thesis by (simp add: exit_codes_def)
qed

definition usb_fw_args :: "(char \<times> string) list" where
  "usb_fw_args = [(CHR ''D'', ''fw.bin''), (CHR ''R'', [])]"

definition usb_fw_options :: usb_options where
  "usb_fw_options = usb_options0\<lparr>main_mode := MODE_DOWNLOAD, main_file := dfu_file0\<lparr>file_name := ''fw.bin''\<rparr>,
     final_reset := True\<rparr>"

lemmas usb_options0_simps = usb_options0_def options.extend_def options0_def

lemma usb_fw_args_parsed: "parse_usb_options usbpath usb_fw_args usb_options0 = Inr usb_fw_options"
  by (simp add: usb_fw_args_def parse_usb_option_def usb_fw_options_def usb_options0_simps)

text \<open>An upload.\<close>

definition usb_up_args :: "(char \<times> string) list" where
  "usb_up_args = [(CHR ''U'', ''u.bin'')]"

theorem usb_main_safe_witness:
  "valid (\<lambda>_. True) (usb_main mock_usb no_sleep None usb_up_args) (\<lambda>n _. n = 0) (\<lambda>c _. c \<in> {0, 1, 64, 70, 74})"
proof -
  have "valid (\<lambda>_. True) (usb_main mock_usb no_sleep None usb_up_args) (\<lambda>n _. n = 0)
      (\<lambda>c _. c \<in> {0, 1, 64, 70, 74} \<union> {1})"
    by (rule usb_main_safe [OF mock.libusb_calls_axioms, where left = mock_left])
      (use mock.libusb_finite_axioms in \<open>auto simp: usb_up_args_def no_sleep_def parse_usb_option_def usb_options0_simps\<close>)
  then show ?thesis by (rule valid_weaken) auto
qed

section \<open>A complete download\<close>

text \<open>C3: \<open>dfu-util -D file\<close>, with a file that is not standard input, without \<open>-s\<close> and with a delay
  that in milliseconds fits an \<open>int\<close>, and one device, in runtime mode: \<open>main\<close> loads the file,
  asks the device to detach after the time it wants, resets it unless it detaches by itself,
  closes it, waits for the delay of \<open>-E\<close>, looks for it again in DFU mode, opens and claims it,
  sends what the file holds before its suffix, if it has one, in blocks of the size that was
  chosen, which is positive and less than 64 KiB, each after the one before was reported done,
  waits until the device has manifested, resets it when \<open>-R\<close> is given, closes it and returns 0.
  The identifiers of the suffix are those of the device in one of its modes, and neither the
  file nor the device is of the DfuSe kind. Every wait is made, in this order: the world is the
  one left by the load and then by the waits.\<close>

theorem usb_downloads:
  fixes u :: "('d, 'h, 'u, 'w) usb_os"
  assumes "parse_usb_options usbpath args usb_options0 = Inr opts" and "main_mode opts = MODE_DOWNLOAD"
    and "dfuse_arg opts = None"
    and "- (2 ^ 31) \<le> detach_delay opts * 1000" and "detach_delay opts * 1000 < 2 ^ 31"
    and "file_name (main_file opts) \<noteq> ''-''"
    and "dfu_load_file (env_fs e) (main_file opts) MAYBE_SUFFIX MAYBE_PREFIX w = Some (Ret g, w1)"
    and "bcdDFU g \<noteq> 0x11a"
    and "\<not> (id_mismatch g (vendor r) (product r) \<and> id_mismatch g (vendor q) (product q))"
    and "libusb_init u t0 = (0, t1)" and "dfu_iff_dfu u \<noteq> 0"
    and "found u (with_file (any_config opts) g) [] (debugged u opts t1) r hn t2" and "usb_flags r AND dfu_iff_dfu u = 0"
    and "detaches u (opened r hn) hn t2 p t3"
    and "disconnect_devices u [r\<lparr>dev_handle := None\<rparr>] (libusb_close u hn t3) = (rs, t4)"
    and "found u ((with_file (any_config opts) g)\<lparr>match_vendor := 0x10000, match_product := 0x10000\<rparr>) rs t4 q hq t5"
    and "selected u q hq t5 t6"
    and "serves (usb_ops u (opened q hq)) (status_step (pt, 0, 2) # download_session xs ms fin) (\<lambda>s. S (bus s))
      \<lparr>roots = [opened q hq], bus = t6\<rparr>"
    and "\<And>t. S t \<Longrightarrow> final_reset opts \<Longrightarrow> 0 \<le> fst (libusb_reset_device u hq (snd (usb_detach u hq (interface q) t)))"
    and "choose_transfer_size (env_pagesize e) q (transfer_size opts) = Some n" and "0 < sint n" and "sint n < 65536"
    and "bcdDFUVersion (func_dfu q) \<noteq> 0x11a"
    and "map fst xs = chunks (nat (sint n)) (take (nat (size_total g - size_suffix g)) (firmware g))"
    and "\<forall>(b, busy, t) \<in> set xs. \<forall>p \<in> set busy. busy_report p"
    and "\<forall>p \<in> set ms. manifesting p" and "\<not> manifesting fin"
  shows "\<exists>h' t. usb_main u e usbpath args (usb_host [] t0 w) = Some (Ret 0, h') \<and> S t \<and>
    bus (link h') = usb_closed u (final_reset opts) hq (interface q) t \<and>
    env h' = fold (slept e) (download_waits xs ms fin) (slept e pt (paused u (detach_delay opts) (slept e p w1)))"
proof -
  let ?o = "any_config opts" and ?q = "opened q hq"
  let ?g = "with_file ?o g" and ?data = "take (nat (size_total g - size_suffix g)) (firmware g)"
  have g: "load_stage e ?o (usb_host ([] :: ('d, 'h) usb_if list) t0 w) = Some (Ret ?g, usb_host [] t0 w1)"
    using load_stage_file [of e ?o "usb_host [] t0 w" g w1] assms(2,7) by simp
  have l: "size_total g = int (length (firmware g))" "0 \<le> size_suffix g" "size_suffix g \<le> size_total g"
    using validD [OF load_valid [OF assms(6)] _ assms(7)] by auto
  have data: "firmware g = ?data @ drop (nat (size_total g - size_suffix g)) (firmware g)"
    "size_total g - size_suffix g = int (length ?data)"
    using l by simp_all
  have o: "debugged u ?g t1 = debugged u opts t1" "detach_delay ?g = detach_delay opts" "dfuse_arg ?g = dfuse_arg opts"
    by (simp_all add: any_config_def with_file_def debugged_def)
  have "usb_find_stage u e ?g (usb_host [] t0 w1) =
      bindp (reopen_stage u ?g (opened r hn)) (\<lambda>r'. retp (r', vendor r, product r)) (usb_host [opened r hn] t3 (slept e p w1))"
    by (rule find_run [OF assms(10) _ _ assms(13,14)]) (use assms(2,12) o in simp_all)
  moreover have "reopen_stage u ?g (opened r hn) (usb_host [opened r hn] t3 (slept e p w1)) =
      Some (Ret ?q, usb_host [?q] t5 (paused u (detach_delay ?g) (slept e p w1)))"
    by (rule reopen_run [OF _ _ _ assms(15,16,11)]) (use assms(2,4,5) o in simp_all)
  ultimately have find: "usb_find_stage u e ?g (usb_host [] t0 w1) =
      Some (Ret (?q, vendor r, product r), usb_host [?q] t5 (paused u (detach_delay opts) (slept e p w1)))"
    by (simp add: retp_def o)
  let ?w = "paused u (detach_delay opts) (slept e p w1)"
  obtain t' where claim: "claim_stage u ?q (usb_host [?q] t5 ?w) = Some (Ret (), usb_host [?q] t' ?w)"
    "select_stage (usb_ops u ?q) (altsetting q) (usb_host [?q] t' ?w) = Some (Ret (), usb_host [?q] t6 ?w)"
    by (rule claim_run [OF assms(17)])
  have "serves (usb_ops u ?q) (status_step (pt, 0, 2) # download_session xs ms fin) (\<lambda>s. S (bus s))
      (link (usb_host [?q] t6 ?w))" using assms(18) by simp
  from status_again_idle [OF this, of e dfu_status0]
  obtain st h3 where h3: "status_again (usb_ops u ?q) e dfu_status0 (usb_host [?q] t6 ?w) = Some (Ret st, h3)"
    "bStatus st = 0" "serves (usb_ops u ?q) (download_session xs ms fin) (\<lambda>s. S (bus s)) (link h3)"
    "env h3 = slept e pt ?w" by auto
  let ?b = "usb_build u ?g ?q"
  have b: "build_ops ?b = usb_ops u ?q" "\<not> dfuse_options ?b" using assms(3) o by (simp_all add: usb_build_def)
  have "serves (build_ops ?b) (download_session xs ms fin @ []) (\<lambda>s. S (bus s)) (link h3)" using h3(3) b by simp
  note sv = this
  have m: "main_mode ?g = MODE_DOWNLOAD" using assms(2) by simp
  have c: "choose_transfer_size (env_pagesize e) ?q (transfer_size ?g) = Some n"
    using assms(20) by (simp add: choose_opened)
  have f: "firmware (main_file ?g) = ?data @ drop (nat (size_total g - size_suffix g)) (firmware g)"
    "size_total (main_file ?g) - size_suffix (main_file ?g) = int (length ?data)"
    unfolding with_file_simps by (fact data)+
  have ids: "\<not> (id_mismatch (main_file ?g) (vendor r) (product r) \<and> id_mismatch (main_file ?g) (vendor ?q) (product ?q))"
    "bcdDFU (main_file ?g) \<noteq> 0x11a" "bcdDFUVersion (func_dfu ?q) \<noteq> 0x11a"
    using assms(8,9,23) by simp_all
  obtain h4 where h4: "transfer_stage ?b e ?g ?q (vendor r) (product r) h3 = Some (Ret (), h4)" "S (bus (link h4))"
    "env h4 = fold (slept e) (download_waits xs ms fin) (env h3)"
    using download_stage_run [OF sv b(2) m c assms(21) f ids assms(24-27)] by auto
  have reset: "final_reset ?g \<longrightarrow> 0 \<le> fst (libusb_reset_device u hq (snd (usb_detach u hq (interface q) (bus (link h4)))))"
    using assms(19) [OF h4(2)] by simp
  obtain h5 where h5: "usb_close_stage u ?g ?q h4 = Some (Ret 0, h5)"
    "bus (link h5) = usb_closed u (final_reset opts) hq (interface q) (bus (link h4))" "env h5 = env h4"
    using usb_close_stage_run [OF reset] by auto
  have dev: "usb_device_stage u e ?g ?q (vendor r) (product r) (usb_host [?q] t5 ?w) = Some (Ret 0, h5)"
    using h3(1,2) h4(1) h5(1) claim by (simp add: usb_device_stage_def check_status_def)
  have "usb_main u e usbpath args (usb_host [] t0 w) = Some (Ret 0, h5)"
    using assms(1,2) g by (simp add: usb_main_def Let_def any_config_def [symmetric] find dev)
  then show ?thesis using h4(2,3) h5(2,3) h3(4) by auto
qed

definition usb_fw_session :: "(qda_req \<times> qda_resp) list" where
  "usb_fw_session = status_step (0, 0, 2) # download_session [([1, 2], [(10, 0, 4)], 0), ([3], [], 0)] [(0, 0, 7)] (0, 0, 2)"

text \<open>The sample firmware with a suffix for the identifiers of the device.\<close>

definition usb_fw_file :: dfu_file where
  "usb_fw_file = sample_file\<lparr>idVendor := 0, idProduct := 0\<rparr>"

definition usb_fw_disk :: mem_disk where
  "usb_fw_disk = empty_disk\<lparr>disk_files := [''fw.bin'' \<mapsto> dfu_image usb_fw_file True False]\<rparr>"

definition usb_fw_host :: "((unit, nat, mock) usb, mem_disk) host" where
  "usb_fw_host = usb_host [] \<lparr>mock_dfu = False, mock_script = usb_fw_session\<rparr> usb_fw_disk"

lemma usb_fw_loaded:
  assumes "file_name f = ''fw.bin''"
  obtains g w where "dfu_load_file mem_fs f MAYBE_SUFFIX MAYBE_PREFIX usb_fw_disk = Some (Ret g, w)"
    and "size_suffix g = 16" and "take (nat (size_total g - size_suffix g)) (firmware g) = [1, 2, 3]"
    and "bcdDFU g = 0x100" and "idVendor g = 0" and "idProduct g = 0"
proof -
  have p: "payload usb_fw_file = [1, 2, 3]"
    by (simp add: payload_def usb_fw_file_def sample_file_def dfu_file0_def)
  have l: "length (dfu_image usb_fw_file True False) = 19" by (simp add: length_dfu_image p)
  have c: "disk_files usb_fw_disk (file_name f) = Some (dfu_image usb_fw_file True False)" "file_name f \<noteq> ''-''"
    using assms by (simp_all add: usb_fw_disk_def)
  obtain g w where g: "dfu_load_file mem_fs f MAYBE_SUFFIX MAYBE_PREFIX usb_fw_disk = Some (Ret g, w)"
    "firmware g = dfu_image usb_fw_file True False" "size_total g = int (length (firmware g))" "size_suffix g = 16"
    "bcdDFU g = bcdDFU usb_fw_file" "idVendor g = idVendor usb_fw_file" "idProduct g = idProduct usb_fw_file"
    by (rule load_image [OF mem.disk_axioms c(1) _ c(2) suffix_req.distinct(4)]) (simp_all add: l)
  have "take 3 (dfu_image usb_fw_file True False) = [1, 2, 3]" by (simp add: dfu_image_def Let_def p)
  then show thesis
    using g l by (intro that [of g w]) (simp_all add: usb_fw_file_def sample_file_def)
qed

text \<open>The device with its script serves what the script says.\<close>

lemma mock_served:
  assumes "carried qr" and "\<forall>n k. fst qr \<noteq> Upload n k" and "S \<lparr>roots = rs, bus = \<lparr>mock_dfu = True, mock_script = k\<rparr>\<rparr>"
  shows "served (usb_ops mock_usb (opened r 7)) qr S
    \<lparr>roots = rs, bus = \<lparr>mock_dfu = True, mock_script = qr # k\<rparr>\<rparr>"
  using assms
proof (cases qr rule: carried.cases)
  case (2 n b)
  then have l: "length b < 65536" using assms(1) by simp
  then have u: "unat (of_nat (length b) :: u16) = length b" by (simp add: unat_of_nat)
  have z: "b = []" if "of_nat (length b) = (0 :: u16)" using u that by simp
  show ?thesis
    using assms(3) u z
    by (auto simp: 2 usb_ops_def handle_run mock_usb_def mock_next_def split: option.splits)
qed (auto simp: usb_ops_def handle_run mock_usb_def mock_next_def bindp_def retp_def mem_write_def)

lemma mock_serves:
  "\<forall>qr \<in> set qrs. carried qr \<and> (\<forall>n k. fst qr \<noteq> Upload n k) \<Longrightarrow>
   S \<lparr>roots = rs, bus = \<lparr>mock_dfu = True, mock_script = k\<rparr>\<rparr> \<Longrightarrow>
   serves (usb_ops mock_usb (opened r 7)) qrs S \<lparr>roots = rs, bus = \<lparr>mock_dfu = True, mock_script = qrs @ k\<rparr>\<rparr>"
  by (induction qrs) (auto intro!: mock_served)

lemma mock_found: "found mock_usb opts [] t (mock_if (if mock_dfu t then 1 else 0)) 7 t"
  by (simp add: found_def mock_usb_def)

lemma mock_detaches: "\<not> mock_dfu t \<Longrightarrow> detaches mock_usb (opened (mock_if 0) 7) 7 t 0 (t\<lparr>mock_dfu := True\<rparr>)"
  by (simp add: detaches_def mock_usb_def mock_if_def root_zero_def qda_if.extend_def)

lemma mock_if_simps [simp]: "usb_flags (mock_if fl) = fl" "wTransferSize (func_dfu (mock_if fl)) = 2"
  "bcdDFUVersion (func_dfu (mock_if fl)) = 0x110" "bMaxPacketSize0 (mock_if fl) = 0" "dev_handle (mock_if fl) = None"
  by (simp_all add: mock_if_def root_zero_def qda_if.extend_def)

theorem usb_downloads_witness:
  "\<exists>h'. usb_main mock_usb no_sleep None usb_fw_args usb_fw_host = Some (Ret 0, h') \<and>
     bus (link h') = \<lparr>mock_dfu = True, mock_script = []\<rparr>"
proof -
  let ?t = "\<lambda>b. \<lparr>mock_dfu = b, mock_script = usb_fw_session\<rparr>" and ?S = "\<lambda>t. t = \<lparr>mock_dfu = True, mock_script = []\<rparr>"
  let ?q = "mock_if 1"
  have close: "libusb_close mock_usb n t = t" "disconnect_devices mock_usb rs t = ([], t)" "libusb_init mock_usb t = (0, t)"
    "dfu_iff_dfu mock_usb = 1" "libusb_reset_device mock_usb n t = (0, t\<lparr>mock_dfu := True\<rparr>)" "libusb_exit mock_usb t = t"
    "usb_detach mock_usb n i t = (- 1, t)" "libusb_set_debug mock_usb t = t" for n i rs t
    by (simp_all add: mock_usb_def)
  have o: "main_mode usb_fw_options = MODE_DOWNLOAD" "transfer_size usb_fw_options = 0" "dfuse_arg usb_fw_options = None"
    "detach_delay usb_fw_options = 5" "file_name (main_file usb_fw_options) = ''fw.bin''" "final_reset usb_fw_options"
    by (simp_all add: usb_fw_options_def usb_options0_simps)
  obtain g w1 where g: "dfu_load_file mem_fs (main_file usb_fw_options) MAYBE_SUFFIX MAYBE_PREFIX usb_fw_disk = Some (Ret g, w1)"
    "take (nat (size_total g - size_suffix g)) (firmware g) = [1, 2, 3]" "bcdDFU g = 0x100" "idVendor g = 0" "idProduct g = 0"
    by (rule usb_fw_loaded [OF o(5)])
  have load: "dfu_load_file (env_fs no_sleep) (main_file usb_fw_options) MAYBE_SUFFIX MAYBE_PREFIX usb_fw_disk = Some (Ret g, w1)"
    using g(1) by (simp add: no_sleep_def)
  have f0: "found mock_usb opts [] (debugged mock_usb usb_fw_options (?t False)) (mock_if 0) 7 (?t False)" for opts
    using mock_found [of opts "?t False"] by (simp add: debugged_def close)
  have f1: "found mock_usb opts [] (?t True) ?q 7 (?t True)" for opts
    using mock_found [of opts "?t True"] by simp
  have d: "detaches mock_usb (opened (mock_if 0) 7) 7 (?t False) 0 (?t True)" using mock_detaches [of "?t False"] by simp
  have sel: "selected mock_usb ?q 7 (?t True) (?t True)" by (simp add: selected_def mock_usb_def)
  have "serves (usb_ops mock_usb (opened ?q 7)) usb_fw_session (\<lambda>s. ?S (bus s))
      \<lparr>roots = [opened ?q 7], bus = \<lparr>mock_dfu = True, mock_script = usb_fw_session @ []\<rparr>\<rparr>"
    by (rule mock_serves) (simp_all add: usb_fw_session_def download_session_def)
  then have sv: "serves (usb_ops mock_usb (opened ?q 7)) (status_step (0, 0, 2) #
      download_session [([1, 2], [(10, 0, 4)], 0), ([3], [], 0)] [(0, 0, 7)] (0, 0, 2)) (\<lambda>s. ?S (bus s))
      \<lparr>roots = [opened ?q 7], bus = ?t True\<rparr>" by (simp add: usb_fw_session_def)
  have size: "choose_transfer_size (env_pagesize no_sleep) ?q (transfer_size usb_fw_options) = Some 2"
    by (simp add: o choose_transfer_size_def Let_def no_sleep_def)
  have ids: "\<not> (id_mismatch g (vendor (mock_if 0)) (product (mock_if 0)) \<and> id_mismatch g (vendor ?q) (product ?q))"
    using g(4,5) by (simp add: id_mismatch_def mock_if_def root_zero_def qda_if.extend_def)
  have "\<exists>h' t. usb_main mock_usb no_sleep None usb_fw_args (usb_host [] (?t False) usb_fw_disk) = Some (Ret 0, h') \<and> ?S t \<and>
      bus (link h') = usb_closed mock_usb (final_reset usb_fw_options) 7 (interface ?q) t \<and>
      env h' = fold (slept no_sleep) (download_waits [([1, 2], [(10, 0, 4)], 0), ([3], [], 0)] [(0, 0, 7)] (0, 0, 2))
        (slept no_sleep 0 (paused mock_usb (detach_delay usb_fw_options) (slept no_sleep 0 w1)))"
    by (rule usb_downloads [OF usb_fw_args_parsed _ _ _ _ _ load _ ids _ _ f0 _ d _ f1 sel sv _ size])
      (simp_all add: o close g(2,3) chunks_step busy_report_def manifesting_def)
  then show ?thesis by (auto simp: usb_fw_host_def usb_closed_def close o)
qed

section \<open>Detaching\<close>

text \<open>C32: \<open>dfu-util -e\<close> on one device in runtime mode claims it, asks it to detach after the time
  it wants, resets it unless it detaches by itself, releases and closes it, and exits with 0;
  also when the request to detach fails.\<close>

theorem usb_detach_exits:
  assumes "parse_usb_options usbpath args usb_options0 = Inr opts" and "main_mode opts = MODE_DETACH"
    and "libusb_init u t0 = (0, t1)" and "found u (any_config opts) [] (debugged u opts t1) r hn t2"
    and "usb_flags r AND dfu_iff_dfu u = 0" and "detaches u (opened r hn) hn t2 p t3"
  shows "usb_main u e usbpath args (usb_host [] t0 w) =
    Some (Exit 0, usb_host [r\<lparr>dev_handle := None\<rparr>] (libusb_exit u (libusb_close u hn t3)) (slept e p w))"
proof -
  let ?o = "any_config opts"
  have o: "debugged u ?o t1 = debugged u opts t1" by (simp add: any_config_def debugged_def)
  have "usb_find_stage u e ?o (usb_host [] t0 w) =
      bindp (reopen_stage u ?o (opened r hn)) (\<lambda>r'. retp (r', vendor r, product r)) (usb_host [opened r hn] t3 (slept e p w))"
    by (rule find_run [OF assms(3) _ _ assms(5,6)]) (use assms(2,4) o in simp_all)
  moreover have "reopen_stage u ?o (opened r hn) (usb_host [opened r hn] t3 (slept e p w)) =
      Some (Exit 0, usb_host [r\<lparr>dev_handle := None\<rparr>] (libusb_exit u (libusb_close u hn t3)) (slept e p w))"
    by (rule detach_exit_run) (simp add: assms(2))
  ultimately show ?thesis
    using assms(1,2)
    by (simp add: usb_main_def Let_def any_config_def [symmetric] load_stage_def bindp_def retp_def)
qed

theorem usb_detach_exits_witness:
  "usb_main mock_usb no_sleep None [(CHR ''e'', [])] usb_fw_host =
     Some (Exit 0, usb_host [mock_if 0] \<lparr>mock_dfu = True, mock_script = usb_fw_session\<rparr> usb_fw_disk)"
proof -
  let ?t = "\<lambda>b. \<lparr>mock_dfu = b, mock_script = usb_fw_session\<rparr>"
  let ?o = "usb_options0\<lparr>main_mode := MODE_DETACH, match_iface_alt_index := 0, match_iface_index := 0\<rparr>"
  have p: "parse_usb_options None [(CHR ''e'', [])] usb_options0 = Inr ?o"
    by (simp add: parse_usb_option_def)
  have f: "found mock_usb (any_config ?o) [] (debugged mock_usb ?o (?t False)) (mock_if 0) 7 (?t False)"
    using mock_found [of "any_config ?o" "?t False"] by (simp add: debugged_def usb_options0_simps)
  have d: "detaches mock_usb (opened (mock_if 0) 7) 7 (?t False) 0 (?t True)" using mock_detaches [of "?t False"] by simp
  have "usb_main mock_usb no_sleep None [(CHR ''e'', [])] (usb_host [] (?t False) usb_fw_disk) =
      Some (Exit 0, usb_host [(mock_if 0)\<lparr>dev_handle := None\<rparr>] (libusb_exit mock_usb (libusb_close mock_usb 7 (?t True)))
        (slept no_sleep 0 usb_fw_disk))"
    by (rule usb_detach_exits [OF p _ _ f _ d]) (simp_all add: usb_options0_simps mock_usb_def)
  then show ?thesis by (simp add: usb_fw_host_def mock_usb_def mock_if_def qda_if.extend_def slept_def)
qed

section \<open>What goes wrong\<close>

text \<open>C35: the test for DFU mode after the wait cannot fail, as it joins the flags with
  \<open>DFU_IFF_DFU\<close> instead of masking them: a device that comes back in runtime mode is opened
  and goes on to be claimed.\<close>

theorem usb_runtime_accepted:
  assumes "main_mode opts \<noteq> MODE_DETACH" and "- (2 ^ 31) \<le> detach_delay opts * 1000" and "detach_delay opts * 1000 < 2 ^ 31"
    and "disconnect_devices u [r\<lparr>dev_handle := None\<rparr>] (libusb_close u hn t) = (rs, t1)"
    and "found u (opts\<lparr>match_vendor := 0x10000, match_product := 0x10000\<rparr>) rs t1 q hq t2"
    and "dfu_iff_dfu u \<noteq> 0" and "usb_flags q AND dfu_iff_dfu u = 0"
  shows "reopen_stage u opts (opened r hn) (usb_host [opened r hn] t w) =
    Some (Ret (opened q hq), usb_host [opened q hq] t2 (paused u (detach_delay opts) w))"
  by (rule reopen_run [OF assms(1-6)])

theorem usb_runtime_accepted_witness:
  "reopen_stage mock_usb usb_fw_options (opened (mock_if 0) 7)
     (usb_host [opened (mock_if 0) 7] \<lparr>mock_dfu = False, mock_script = []\<rparr> fw_disk) =
     Some (Ret (opened (mock_if 0) 7), usb_host [opened (mock_if 0) 7] \<lparr>mock_dfu = False, mock_script = []\<rparr> fw_disk)"
proof -
  let ?t = "\<lparr>mock_dfu = False, mock_script = []\<rparr>"
  have f: "found mock_usb (usb_fw_options\<lparr>match_vendor := 0x10000, match_product := 0x10000\<rparr>) [] ?t (mock_if 0) 7 ?t"
    using mock_found [of "usb_fw_options\<lparr>match_vendor := 0x10000, match_product := 0x10000\<rparr>" ?t] by simp
  have "reopen_stage mock_usb usb_fw_options (opened (mock_if 0) 7) (usb_host [opened (mock_if 0) 7] ?t fw_disk) =
      Some (Ret (opened (mock_if 0) 7), usb_host [opened (mock_if 0) 7] ?t (paused mock_usb (detach_delay usb_fw_options) fw_disk))"
    by (rule usb_runtime_accepted [OF _ _ _ _ f])
      (simp_all add: usb_fw_options_def usb_options0_simps mock_usb_def)
  then show ?thesis by (simp add: paused_def mock_usb_def)
qed

text \<open>C36: \<open>-p\<close> cannot be used in the build for the USB, with or without the library for paths:
  \<open>resolve_device_path\<close> returns 0 for a path it resolves, which the caller takes for one it
  did not find. The program ends before it touches a device or a file.\<close>

theorem usb_path_unusable:
  assumes "(CHR ''p'', path) \<in> set args"
  shows "\<exists>c. usb_main u e usbpath args h = Some (Exit c, h) \<and> (c = 70 \<or> c = 64)"
proof -
  have p: "parse_usb_option usbpath (CHR ''p'') path opts = Inl 70" for opts
    by (simp add: parse_usb_option_def resolve_device_path_def Let_def EX_SOFTWARE_def EINVAL_def split: option.split)
  have o: "parse_usb_option usbpath a b opts = Inl c \<Longrightarrow> c = 70 \<or> c = 64" for a b opts c
    by (auto simp: parse_usb_option_def resolve_device_path_def Let_def EX_SOFTWARE_def EX_USAGE_def
          split: prod.splits if_splits sum.splits option.splits)
  have "\<exists>c. parse_usb_options usbpath args opts = Inl c \<and> (c = 70 \<or> c = 64)" for opts
    using assms by (induction args arbitrary: opts) (use p o in \<open>auto split: sum.split\<close>)
  then obtain c where "parse_usb_options usbpath args usb_options0 = Inl c" "c = 70 \<or> c = 64" by blast
  then show ?thesis by (auto simp: usb_main_def exitp_def)
qed

theorem usb_path_unusable_witness:
  "\<exists>c. usb_main mock_usb no_sleep (Some (\<lambda>_. 4)) [(CHR ''p'', ''1-2''), (CHR ''e'', [])] usb_fw_host = Some (Exit c, usb_fw_host) \<and>
     (c = 70 \<or> c = 64)"
  by (rule usb_path_unusable [where path = "''1-2''"]) simp

section \<open>Both builds\<close>

text \<open>Each case of the switch can be reached in the build for the USB, and a long option takes an
  argument when the short one does.\<close>

lemma usb_options_delivered:
  "\<forall>(name, arg, c) \<in> set usb_long_opts. short_option usb_short_opts c = Some arg"
  "\<forall>c \<in> set ''hVvleEdpciaStUZDRs''. short_option usb_short_opts c \<noteq> None"
  by (auto simp: usb_long_opts_def usb_short_opts_def)

lemma truncate_options:
  "options.truncate (opts\<lparr>verbose := x0\<rparr>) = (options.truncate opts)\<lparr>verbose := x0\<rparr>"
  "options.truncate (opts\<lparr>match_vendor := x1\<rparr>) = (options.truncate opts)\<lparr>match_vendor := x1\<rparr>"
  "options.truncate (opts\<lparr>match_product := x2\<rparr>) = (options.truncate opts)\<lparr>match_product := x2\<rparr>"
  "options.truncate (opts\<lparr>match_vendor_dfu := x3\<rparr>) = (options.truncate opts)\<lparr>match_vendor_dfu := x3\<rparr>"
  "options.truncate (opts\<lparr>match_product_dfu := x4\<rparr>) = (options.truncate opts)\<lparr>match_product_dfu := x4\<rparr>"
  "options.truncate (opts\<lparr>match_iface_index := x5\<rparr>) = (options.truncate opts)\<lparr>match_iface_index := x5\<rparr>"
  "options.truncate (opts\<lparr>match_iface_alt_index := x6\<rparr>) = (options.truncate opts)\<lparr>match_iface_alt_index := x6\<rparr>"
  "options.truncate (opts\<lparr>match_iface_alt_name := x7\<rparr>) = (options.truncate opts)\<lparr>match_iface_alt_name := x7\<rparr>"
  "options.truncate (opts\<lparr>match_serial := x8\<rparr>) = (options.truncate opts)\<lparr>match_serial := x8\<rparr>"
  "options.truncate (opts\<lparr>match_serial_dfu := x9\<rparr>) = (options.truncate opts)\<lparr>match_serial_dfu := x9\<rparr>"
  "options.truncate (opts\<lparr>expected_size := x10\<rparr>) = (options.truncate opts)\<lparr>expected_size := x10\<rparr>"
  "options.truncate (opts\<lparr>transfer_size := x11\<rparr>) = (options.truncate opts)\<lparr>transfer_size := x11\<rparr>"
  "options.truncate (opts\<lparr>main_mode := x12\<rparr>) = (options.truncate opts)\<lparr>main_mode := x12\<rparr>"
  "options.truncate (opts\<lparr>transfer_speed := x13\<rparr>) = (options.truncate opts)\<lparr>transfer_speed := x13\<rparr>"
  "options.truncate (opts\<lparr>serial_device_path := x14\<rparr>) = (options.truncate opts)\<lparr>serial_device_path := x14\<rparr>"
  "options.truncate (opts\<lparr>main_file := x15\<rparr>) = (options.truncate opts)\<lparr>main_file := x15\<rparr>"
  "options.truncate (opts\<lparr>final_reset := x16\<rparr>) = (options.truncate opts)\<lparr>final_reset := x16\<rparr>"
  "verbose (options.truncate opts) = verbose opts"
  "match_vendor (options.truncate opts) = match_vendor opts"
  "match_product (options.truncate opts) = match_product opts"
  "match_vendor_dfu (options.truncate opts) = match_vendor_dfu opts"
  "match_product_dfu (options.truncate opts) = match_product_dfu opts"
  "main_file (options.truncate opts) = main_file opts"
  by (simp_all add: options.truncate_def)

lemma parse_usb_option_agrees:
  assumes "c \<notin> {CHR ''E'', CHR ''p'', CHR ''c'', CHR ''s''}"
  shows "map_sum id options.truncate (parse_usb_option usbpath c arg opts) = parse_option c arg (options.truncate opts)"
proof -
  have "options.truncate (parse_vendprod arg opts) = parse_vendprod arg (options.truncate opts)"
    by (simp add: parse_vendprod_def truncate_options Let_def split: option.split)
  moreover have "options.truncate (parse_serial arg opts) = parse_serial arg (options.truncate opts)"
    by (simp add: parse_serial_def truncate_options Let_def split: option.split)
  ultimately show ?thesis
    using assms by (simp add: parse_usb_option_def parse_option_def truncate_options split: prod.split)
qed

text \<open>
  On options other than \<open>-E\<close>, \<open>-p\<close>, \<open>-c\<close> and \<open>-s\<close>, which they read differently, the switches of
  the builds find the same options and the same errors; what \<open>getopt_long\<close> delivers differs.
\<close>

lemma builds_agree_on_options:
  assumes "\<forall>a \<in> set args. fst a \<notin> {CHR ''E'', CHR ''p'', CHR ''c'', CHR ''s''}"
  shows "map_sum id options.truncate (parse_usb_options usbpath args usb_options0) = parse_options args options0"
proof -
  have "map_sum id options.truncate (parse_usb_options usbpath args o1) = parse_options args (options.truncate o1)" for o1
    using assms
  proof (induction args arbitrary: o1)
    case (Cons a args)
    have "map_sum id options.truncate (parse_usb_option usbpath (fst a) (snd a) o1) =
        parse_option (fst a) (snd a) (options.truncate o1)"
      using Cons.prems by (intro parse_usb_option_agrees) simp
    then show ?case
      using Cons by (cases "parse_usb_option usbpath (fst a) (snd a) o1") (auto simp flip: \<open>_ = parse_option _ _ _\<close>)
  qed simp
  moreover have "options.truncate usb_options0 = options0"
    by (simp add: usb_options0_simps options.truncate_def)
  ultimately show ?thesis by metis
qed

end
