(* ===== verification/Spec2Isabelle.thy ===== *)
theory Spec2Isabelle
  imports Xmodem_Props Quirks Serial_Windows Dfu_Main_Errors Dfu_Usb_Props
begin

text \<open>
  The DFU utility for Quark microcontrollers. The program writes the firmware of a device over
  a serial line, or reads it back. The requests of USB DFU are carried by a protocol of their
  own, QDA, whose packets are sent by XMODEM:

     main.c  --  options, the stages of a run
       dfu_file.c  --  the file with its suffix, prefix and checksum
       dfu_load.c  --  download and upload as sequences of requests
         qda/qda.c  --  one request and its response, in one static packet buffer
           dfu_util_qda.c  --  the callbacks of qda.c
             qda/xmodem.c  --  a packet stream with checksums, acknowledgements and retries
               qda/serial_io.c, qda/serial_io_windows.c  --  bytes, timeouts, line settings

  This is the build with \<open>USE_QDA\<close>, the only one whose sources are complete in the repository.
  In the build without it the same main.c and dfu_load.c drive devices on the USB: the macros
  of qda.h are then functions of libusb and of dfu.c, dfu_util.c and dfuse.c, which are not in
  the repository and are a parameter here. Each layer is written against an interface which the
  layer below provides. The interface between dfu_load.c with main.c and what carries the
  requests is the record \<open>dfu_ops\<close>, of which \<open>qda_ops\<close> and \<open>usb_ops\<close> are the two instances.

  How code is modelled. A function over the state \<open>'s\<close> that can end the program, run into
  undefined behaviour or not return is a \<open>('s, 'a) prog\<close> of Dfu_Prelude: \<open>None\<close> when it does not
  return, else \<open>Ret\<close>, \<open>Exit\<close> with the exit code, or \<open>Undef\<close> for an access outside an object or
  another undefined operation. Loops without a bound are \<open>partial_function (option)\<close>, so that
  not returning is visible; loops with a bound are recursive functions. No fuel is used. Integers
  have the width of the C type where the code can overflow or compares across signedness;
  packed structures are byte lists in the order of their fields. The static variables and
  the outside world are the state, passed explicitly. Calls of the operating system are
  records of functions, arguments of the definitions that use them. What is printed is left
  out, as no control flow depends on it.

  The theories, bottom up.

  Dfu_Prelude: words, \<open>prog\<close> with its rules for triples (\<open>valid P m Q E\<close>: from \<open>P\<close> no
  undefined behaviour, \<open>Q\<close> on return, \<open>E\<close> on exit), memory as byte lists, little-endian fields.

  Crc16, Xmodem_Port, Xmodem: qda/xmodem.c in both directions over any I/O layer \<open>xport\<close>.
  Xmodem_Sim, Xmodem_Tx, Xmodem_Rx: the functions on two ports that simulate each other, the
  trace of the sender, the trace of the receiver. Xmodem_Link: both ends joined, lines that
  deliver a list of bytes. Xmodem_Props: the checksum is CRC-16/XMODEM and detects bursts; the
  protocol each side keeps whatever the line does; what the sender wrote is read as the same
  data; termination on finite input; the limits of the 8 bit packet number and of the resync
  loop.

  Serial_Io, Tty_Script, Serial_Props: qda/serial_io.c over POSIX system calls (locale
  \<open>posix_tty\<close> states what POSIX says of them), the interpretation on a terminal that follows a
  script, and that the line settings come back. Serial_Windows: the same for the Windows file.
  The locales \<open>posix_line\<close> and \<open>win_line\<close> add that the calls succeed and that a read waits for a
  device at the other end as long as the timeouts say; any two such lines to the same device
  give XMODEM the same results (\<open>both_lines\<close>, a \<open>port_sim\<close>). Both are interpreted for every
  device.

  Qda_Packets, Qda, Qda_Lemmas: qda/qda_packets.h and qda/qda.c over any transport (locale
  \<open>qda_transport\<close>); what an exchange is and what each operation makes of it. Dfu_Util_Qda:
  dfu_util_qda.c, the interpretation of that locale on XMODEM over the serial port. Qda_Props:
  each operation refines its request of the protocol, \<open>qda_req\<close> and \<open>qda_resp\<close>; failures;
  memory safety.

  Crc32, Dfu_File, Dfu_File_Lemmas, Dfu_File_Props: dfu_file.c over a file system, with the
  contract \<open>disk\<close> interpreted on files in memory: the table driven CRC-32 is the bitwise one,
  stored files are loaded with the same contents, damaged ones refused, loaded ones
  consistent. Quirks: quirks.c.

  Dfu_Load, Dfu_Load_Lemmas, Dfu_Load_Safe, Dfu_Load_Props: dfu_load.c over any \<open>dfu_ops\<close> and
  the file system: with a device that \<open>serves\<close> the requests of a transfer a download sends the
  file in numbered blocks and waits for the device, and an upload writes what it is given; the
  peer of qda.c serves what it answers. Over requests that keep to their buffers (locale
  \<open>dfu_device\<close>, of which \<open>qda_transport\<close> is an instance by \<open>sublocale\<close>) a download never leaves
  its buffers whatever the device does. An upload counts the bytes it receives in an \<open>int\<close>, and
  overflows it with a device that gives $2^{31}$ or more (\<open>upload_count_overflows\<close>); it is safe
  with one that has fewer left to give (locale \<open>dfu_device_finite\<close>).

  Halting, Qda_Halts, Dfu_Main_Halts: no loop of the program above XMODEM counts its turns. A
  rule for loops that decrease a measure, and the contract \<open>qda_finite\<close> of a transport whose
  input is finite, interpreted on the serial port: an operation that succeeds has consumed
  input, as the request in the buffer is no valid response. So every run of \<open>main\<close> ends on a
  line that delivers finitely many bytes. Serial_Meter: what the functions of the port keep
  of the terminal (locale \<open>kept_tty\<close>), such as an upper bound on the bytes still to come
  (\<open>metered_tty\<close>); a terminal with such a bound gives a \<open>dfu_device_finite\<close>.

  Dfu_Options, Dfu_Options_Props: the command line of main.c. Dfu_Main, Dfu_Main_Safe,
  Dfu_Main_Lemmas, Dfu_Main_Props, Dfu_Main_Errors: \<open>main\<close> as the composition of its stages
  \<open>load_stage\<close>, \<open>open_stage\<close> and \<open>device_stage\<close>, which begins with \<open>select_stage\<close>: the code between the labels and
  switches of \<open>main\<close> in its order; a complete download from the command line to the closed port;
  the exit codes, memory safety and termination of every run; what goes wrong with a device in its error
  state, with negative sizes, with identifiers that are not read. What a build does with DfuSe
  devices is the record \<open>build\<close>, of which \<open>qda_build\<close> and \<open>usb_build\<close> are the instances.

  Dfu_Usb, Dfu_Usb_Safe, Dfu_Usb_Lemmas, Dfu_Usb_Props: main.c without \<open>USE_QDA\<close>, composed of the
  stages both builds have and its own: the options, finding and opening a device
  (\<open>usb_find_stage\<close>), taking it from its runtime mode (\<open>runtime_stage\<close>, \<open>reopen_stage\<close>), claiming
  it, closing it. The state is the list at \<open>dfu_root\<close> and the bus; a handle is \<open>None\<close> for \<open>NULL\<close>,
  and a call on it is undefined. An open device is a \<open>dfu_device\<close>, so the lemmas on transfers
  and stages hold of it: under the contracts of libusb and dfuse.c a run that returns does so
  with its exit codes and no undefined operation, a device in runtime mode is detached, found
  again and sent the file; two tests that do not test what they mean to.

  Parameters and hypotheses. \<open>tty_os\<close>, \<open>win_os\<close> and \<open>file_os\<close> are the system calls; \<open>env_os\<close> adds
  the clock and the page size. Laws about them are assumed only in the locales \<open>posix_tty\<close>,
  \<open>kept_tty\<close>, \<open>metered_tty\<close>, \<open>line_tty\<close>, \<open>posix_line\<close>, \<open>win_port\<close>, \<open>win_line\<close>, \<open>disk\<close>, \<open>libusb_calls\<close>
  and \<open>libusb_finite\<close>, each interpreted. \<open>usb_os\<close> are libusb, dfu.c,
  dfu_util.c and dfuse.c. A device is a hypothesis about what the
  line delivers: a \<open>dialogue\<close> of requests and responses; the safety theorems have none but, for
  an upload, a bound on how much it delivers.
  The structure \<open>root\<close> of \<open>main\<close> is not initialised by the code; its value is the parameter
  \<open>root0\<close>.

  Bounds. \<open>qda_buf\<close> has 8192 bytes, a block at most 8184; an upload must not ask for more than
  8186, which pages of 4096 bytes ensure. XMODEM transfers up to 254 packets exactly; 255 and
  more are reported as failures. Files have less than 2^31 bytes. The count of an upload stays
  below 2^31 when at most 34 million bytes are still to come on the line, as a response
  consumes at least the 133 bytes of a packet and stores at most 8186, and on the USB when the
  device has less than 2 GiB to deliver. Over the USB a block must fit 65535 bytes, and the
  delay given with \<open>-E\<close>, in milliseconds, an \<open>int\<close>.

  Not modelled: libusb and the files dfu.c, dfu_util.c and dfuse.c, which are not in the
  repository; \<open>getopt_long\<close>, whose result is the list of options it delivers; the
  texts printed by \<open>help\<close>, \<open>print_version\<close> and \<open>show_suffix_and_prefix\<close>, which nothing depends
  on, and the calls of the progress bar, which is modelled by itself; \<open>main\<close> is composed with
  the Unix port only. The firmware on the device is not part of the repository.
\<close>

end
